(* ===== verification/Js_Prelude.thy ===== *)
theory Js_Prelude
  imports Main "HOL-Library.Word" "HOL-Library.Sublist"
begin

text \<open>
  The part of JavaScript the modelled scripts use, shared by every component:
  \<^item> values (\<open>jsval\<close>), truthiness, \<^verbatim>\<open>typeof\<close>, objects as association lists in property
    insertion order, property read, write, deletion and spread;
  \<^item> thrown values (\<open>js_error\<close>), one constructor per error class, and the result type
    \<open>'a result\<close> (\<open>Inl\<close> a thrown value or rejection reason, \<open>Inr\<close> a returned or fulfilled value);
  \<^item> the string methods the code calls (\<^verbatim>\<open>indexOf\<close>, \<^verbatim>\<open>split\<close>, \<^verbatim>\<open>substring\<close>, \<^verbatim>\<open>join\<close>,
    \<^verbatim>\<open>toLowerCase\<close>, number printing) with their laws.

  Numbers are integers: the code only compares, counts and prints integer numbers. A string is a
  list of code units of type \<open>char\<close>, that is, the Latin-1 part of JavaScript's UTF-16 units.
\<close>

named_theorems js_simps \<open>rewriting of the JavaScript primitives\<close>
named_theorems js_defs \<open>definitions of operations, for proofs that unfold a handler\<close>

section \<open>Values\<close>

datatype jsval =
    JUndef
  | JNull
  | JBool bool
  | JNum int
  | JStr string
  | JArr "jsval list"
  | JObj "(string \<times> jsval) list"
  | JBuf "8 word list"
  | JFun nat

type_synonym jsobj = "(string \<times> jsval) list"

text \<open>The boolean JavaScript gives a value in a condition.\<close>

fun truthy :: "jsval \<Rightarrow> bool" where
  "truthy JUndef = False"
| "truthy JNull = False"
| "truthy (JBool b) = b"
| "truthy (JNum n) = (n \<noteq> 0)"
| "truthy (JStr s) = (s \<noteq> [])"
| "truthy (JArr _) = True"
| "truthy (JObj _) = True"
| "truthy (JBuf _) = True"
| "truthy (JFun _) = True"

fun js_typeof :: "jsval \<Rightarrow> string" where
  "js_typeof JUndef = ''undefined''"
| "js_typeof JNull = ''object''"
| "js_typeof (JBool _) = ''boolean''"
| "js_typeof (JNum _) = ''number''"
| "js_typeof (JStr _) = ''string''"
| "js_typeof (JArr _) = ''object''"
| "js_typeof (JObj _) = ''object''"
| "js_typeof (JBuf _) = ''object''"
| "js_typeof (JFun _) = ''function''"

section \<open>Objects in property order\<close>

text \<open>\<^verbatim>\<open>o[k]\<close>, \<^verbatim>\<open>o[k] = v\<close> (an existing property keeps its place), \<^verbatim>\<open>delete o[k]\<close>.\<close>

fun obj_get :: "(string \<times> 'v) list \<Rightarrow> string \<Rightarrow> 'v option" where
  "obj_get [] k = None"
| "obj_get ((a, v) # ps) k = (if a = k then Some v else obj_get ps k)"

fun obj_set :: "string \<Rightarrow> 'v \<Rightarrow> (string \<times> 'v) list \<Rightarrow> (string \<times> 'v) list" where
  "obj_set k v [] = [(k, v)]"
| "obj_set k v ((a, w) # ps) = (if a = k then (a, v) # ps else (a, w) # obj_set k v ps)"

fun obj_del :: "string \<Rightarrow> (string \<times> 'v) list \<Rightarrow> (string \<times> 'v) list" where
  "obj_del k [] = []"
| "obj_del k ((a, w) # ps) = (if a = k then obj_del k ps else (a, w) # obj_del k ps)"

text \<open>\<^verbatim>\<open>{ ...a, ...b }\<close>: the properties of \<open>b\<close> are assigned after those of \<open>a\<close>.\<close>

fun obj_spread :: "(string \<times> 'v) list \<Rightarrow> (string \<times> 'v) list \<Rightarrow> (string \<times> 'v) list" where
  "obj_spread a [] = a"
| "obj_spread a ((k, v) # b) = obj_spread (obj_set k v a) b"

abbreviation obj_keys :: "(string \<times> 'v) list \<Rightarrow> string list" where
  "obj_keys \<equiv> map fst"

lemma obj_get_set [simp]: "obj_get (obj_set k v ps) k' = (if k' = k then Some v else obj_get ps k')"
  by (induction ps) auto

lemma obj_get_del [simp]: "obj_get (obj_del k ps) k' = (if k' = k then None else obj_get ps k')"
  by (induction ps) auto

lemma obj_get_None_iff: "obj_get ps k = None \<longleftrightarrow> k \<notin> fst ` set ps"
  by (induction ps) (auto split: if_splits)

lemma obj_get_Some_mem: "obj_get ps k = Some v \<Longrightarrow> (k, v) \<in> set ps"
  by (induction ps) (auto split: if_splits)

lemma fst_set_obj_set [simp]: "fst ` set (obj_set k v ps) = insert k (fst ` set ps)"
  by (induction k v ps rule: obj_set.induct) (simp_all add: insert_commute)

lemma fst_set_obj_del [simp]: "fst ` set (obj_del k ps) = fst ` set ps - {k}"
  by (induction k ps rule: obj_del.induct) (simp_all add: insert_Diff_if)

lemma obj_set_mem: "(a, w) \<in> set (obj_set k v ps) \<Longrightarrow> (a = k \<and> w = v) \<or> (a, w) \<in> set ps"
  by (induction ps) (auto split: if_splits)

lemma obj_del_subset: "set (obj_del k ps) \<subseteq> set ps"
  by (induction ps) (auto split: if_splits)

lemma distinct_obj_set [simp]: "distinct (obj_keys ps) \<Longrightarrow> distinct (obj_keys (obj_set k v ps))"
proof (induction ps)
  case (Cons p ps)
  then show ?case by (cases p) (auto simp del: fst_set_obj_set dest!: obj_set_mem intro: rev_image_eqI)
qed simp

lemma distinct_obj_del [simp]: "distinct (obj_keys ps) \<Longrightarrow> distinct (obj_keys (obj_del k ps))"
proof (induction ps)
  case (Cons p ps)
  then show ?case
    by (cases p) (use obj_del_subset [of k ps] in \<open>auto simp del: fst_set_obj_del intro: rev_image_eqI\<close>)
qed simp

lemma obj_set_fresh: "k \<notin> fst ` set ps \<Longrightarrow> obj_set k v ps = ps @ [(k, v)]"
  by (induction ps) auto

lemma obj_del_fresh [simp]: "k \<notin> fst ` set ps \<Longrightarrow> obj_del k ps = ps"
  by (induction ps) auto

lemma obj_get_spread:
  assumes "distinct (obj_keys b)"
  shows "obj_get (obj_spread a b) k = (case obj_get b k of Some v \<Rightarrow> Some v | None \<Rightarrow> obj_get a k)"
  using assms
proof (induction a b rule: obj_spread.induct)
  case (2 a k' v b)
  then show ?case
    by (cases "obj_get b k'") (auto simp: obj_get_None_iff [symmetric] split: option.split)
qed simp

lemma fst_set_obj_spread [simp]: "fst ` set (obj_spread a b) = fst ` set a \<union> fst ` set b"
  by (induction a b rule: obj_spread.induct) auto

lemma distinct_obj_spread [simp]: "distinct (obj_keys a) \<Longrightarrow> distinct (obj_keys (obj_spread a b))"
  by (induction a b rule: obj_spread.induct) auto

section \<open>Thrown values\<close>

text \<open>
  The error classes of signalr.js (module Errors.ts) and the engine's own. A number after a
  message is the \<^verbatim>\<open>statusCode\<close> or \<^verbatim>\<open>transport\<close> property. \<open>ThrownString\<close> is a thrown string, which
  is not an \<^verbatim>\<open>instanceof Error\<close>. \<open>OutsideModel\<close> marks inputs this model does not represent (a
  JSON number with a fraction or exponent, a code unit above 255).
\<close>

datatype js_error =
    Error string
  | HttpError string int
  | TimeoutError string
  | AbortError string
  | UnsupportedTransportError string int
  | DisabledTransportError string int
  | FailedToStartTransportError string "int option"
  | FailedToNegotiateWithServerError string
  | AggregateErrors string "js_error list"
  | TypeError string
  | SyntaxError string
  | ReferenceError string
  | ThrownString string
  | OutsideModel

type_synonym 'a result = "js_error + 'a"

fun is_error :: "js_error \<Rightarrow> bool" where
  "is_error (ThrownString _) = False"
| "is_error _ = True"

fun err_message :: "js_error \<Rightarrow> string" where
  "err_message (Error m) = m"
| "err_message (HttpError m _) = m"
| "err_message (TimeoutError m) = m"
| "err_message (AbortError m) = m"
| "err_message (UnsupportedTransportError m _) = m"
| "err_message (DisabledTransportError m _) = m"
| "err_message (FailedToStartTransportError m _) = m"
| "err_message (FailedToNegotiateWithServerError m) = m"
| "err_message (AggregateErrors m _) = m"
| "err_message (TypeError m) = m"
| "err_message (SyntaxError m) = m"
| "err_message (ReferenceError m) = m"
| "err_message (ThrownString s) = s"
| "err_message OutsideModel = []"

text \<open>
  The \<^verbatim>\<open>name\<close> property: the classes of Errors.ts extend \<^verbatim>\<open>Error\<close> without setting it, so they
  print as \<^verbatim>\<open>Error\<close>.
\<close>

fun err_name :: "js_error \<Rightarrow> string" where
  "err_name (TypeError _) = ''TypeError''"
| "err_name (SyntaxError _) = ''SyntaxError''"
| "err_name (ReferenceError _) = ''ReferenceError''"
| "err_name _ = ''Error''"

text \<open>\<^verbatim>\<open>String(e)\<close>, as in a template literal.\<close>

definition err_to_string :: "js_error \<Rightarrow> string" where
  "err_to_string e =
     (case e of ThrownString s \<Rightarrow> s
      | _ \<Rightarrow> if err_message e = [] then err_name e else err_name e @ '': '' @ err_message e)"

text \<open>An optional error in a template literal: \<^verbatim>\<open>undefined\<close> when absent.\<close>

definition opt_err_to_string :: "js_error option \<Rightarrow> string" where
  "opt_err_to_string e = (case e of None \<Rightarrow> ''undefined'' | Some x \<Rightarrow> err_to_string x)"

text \<open>A text between single quotes, as the messages of the code have it.\<close>

definition sq :: "string \<Rightarrow> string" where
  "sq s = CHR 0x27 # s @ [CHR 0x27]"

text \<open>Sequencing of fallible computations: the first thrown value ends the function.\<close>

definition rbind :: "'a result \<Rightarrow> ('a \<Rightarrow> 'b result) \<Rightarrow> 'b result" where
  "rbind r f = (case r of Inl e \<Rightarrow> Inl e | Inr x \<Rightarrow> f x)"

lemma rbind_simps [simp, js_simps]:
  "rbind (Inl e) f = Inl e"
  "rbind (Inr x) f = f x"
  by (simp_all add: rbind_def)

lemma rbind_Inr_iff: "rbind r f = Inr y \<longleftrightarrow> (\<exists>x. r = Inr x \<and> f x = Inr y)"
  by (cases r) auto

lemma rbind_Inl_iff: "rbind r f = Inl e \<longleftrightarrow> r = Inl e \<or> (\<exists>x. r = Inr x \<and> f x = Inl e)"
  by (cases r) auto

text \<open>A read \<^verbatim>\<open>v.k\<close>: \<^verbatim>\<open>undefined\<close> and \<^verbatim>\<open>null\<close> have no properties and the read throws.\<close>

fun get_prop :: "jsval \<Rightarrow> string \<Rightarrow> jsval result" where
  "get_prop JUndef k = Inl (TypeError (''Cannot read properties of undefined (reading '' @ sq k @ '')''))"
| "get_prop JNull k = Inl (TypeError (''Cannot read properties of null (reading '' @ sq k @ '')''))"
| "get_prop (JObj ps) k = Inr (case obj_get ps k of None \<Rightarrow> JUndef | Some v \<Rightarrow> v)"
| "get_prop (JArr xs) k = Inr (if k = ''length'' then JNum (int (length xs)) else JUndef)"
| "get_prop (JStr s) k = Inr (if k = ''length'' then JNum (int (length s)) else JUndef)"
| "get_prop (JBuf b) k = Inr (if k = ''byteLength'' then JNum (int (length b)) else JUndef)"
| "get_prop _ k = Inr JUndef"

section \<open>Strings\<close>

text \<open>\<^verbatim>\<open>s.indexOf(p)\<close> for a string pattern: the first position where \<open>p\<close> occurs.\<close>

fun index_of :: "'a list \<Rightarrow> 'a list \<Rightarrow> nat option" where
  "index_of [] p = (if p = [] then Some 0 else None)"
| "index_of (c # s) p =
     (if prefix p (c # s) then Some 0 else map_option Suc (index_of s p))"

definition contains :: "'a list \<Rightarrow> 'a list \<Rightarrow> bool" where
  "contains s p \<longleftrightarrow> index_of s p \<noteq> None"

text \<open>\<^verbatim>\<open>s.split(c)\<close> for a one-character separator: always at least one part.\<close>

fun split_on :: "'a \<Rightarrow> 'a list \<Rightarrow> 'a list list" where
  "split_on c [] = [[]]"
| "split_on c (x # xs) =
     (if x = c then [] # split_on c xs
      else (case split_on c xs of [] \<Rightarrow> [[x]] | p # ps \<Rightarrow> (x # p) # ps))"

text \<open>\<^verbatim>\<open>parts.join(sep)\<close>.\<close>

fun join :: "'a list \<Rightarrow> 'a list list \<Rightarrow> 'a list" where
  "join sep [] = []"
| "join sep [p] = p"
| "join sep (p # q # ps) = p @ sep @ join sep (q # ps)"

text \<open>\<^verbatim>\<open>s.toLowerCase()\<close> on the letters of ASCII; other code units are unchanged.\<close>

definition lower_char :: "char \<Rightarrow> char" where
  "lower_char c = (let n = of_char c :: nat in if 65 \<le> n \<and> n \<le> 90 then char_of (n + 32) else c)"

definition toLowerCase :: "string \<Rightarrow> string" where
  "toLowerCase s = map lower_char s"

text \<open>Number printing.\<close>

definition digit_char :: "nat \<Rightarrow> char" where
  "digit_char d = char_of (48 + d)"

fun nat_digits :: "nat \<Rightarrow> string" where
  "nat_digits n = (if n < 10 then [digit_char n] else nat_digits (n div 10) @ [digit_char (n mod 10)])"

declare nat_digits.simps [simp del]

definition int_to_string :: "int \<Rightarrow> string" where
  "int_to_string i = (if i < 0 then CHR ''-'' # nat_digits (nat (- i)) else nat_digits (nat i))"

text \<open>\<^verbatim>\<open>String(v)\<close>. The text of a function is engine specific and not used.\<close>

fun js_to_string :: "jsval \<Rightarrow> string" where
  "js_to_string JUndef = ''undefined''"
| "js_to_string JNull = ''null''"
| "js_to_string (JBool b) = (if b then ''true'' else ''false'')"
| "js_to_string (JNum n) = int_to_string n"
| "js_to_string (JStr s) = s"
| "js_to_string (JArr xs) = join '','' (map (\<lambda>x. if x = JUndef \<or> x = JNull then [] else js_to_string x) xs)"
| "js_to_string (JObj _) = ''[object Object]''"
| "js_to_string (JBuf _) = ''[object ArrayBuffer]''"
| "js_to_string (JFun _) = ''function''"

text \<open>\<^verbatim>\<open>a || b\<close>.\<close>

definition js_or :: "jsval \<Rightarrow> jsval \<Rightarrow> jsval" where
  "js_or a b = (if truthy a then a else b)"

lemma index_of_Some_split:
  "index_of s p = Some i \<Longrightarrow> i + length p \<le> length s \<and> take (length p) (drop i s) = p"
proof (induction s arbitrary: i)
  case (Cons c s)
  show ?case
  proof (cases "prefix p (c # s)")
    case True
    with Cons.prems have "i = 0" by simp
    with True show ?thesis using prefix_length_le [OF True] by (auto simp: prefix_def)
  next
    case False
    with Cons.prems obtain j where "index_of s p = Some j" "i = Suc j" by auto
    with Cons.IH [of j] show ?thesis by auto
  qed
qed (auto split: if_splits)

lemma index_of_single_None: "index_of s [c] = None \<longleftrightarrow> c \<notin> set s"
  by (induction s) auto

lemma index_of_single_append: "c \<notin> set s \<Longrightarrow> index_of (s @ c # t) [c] = Some (length s)"
  by (induction s) auto

lemma split_on_not_Nil [simp]: "split_on c xs \<noteq> []"
  by (induction xs) (auto split: list.splits)

lemma split_on_fresh [simp]: "c \<notin> set xs \<Longrightarrow> split_on c xs = [xs]"
  by (induction xs) auto

lemma split_on_append: "c \<notin> set xs \<Longrightarrow> split_on c (xs @ c # ys) = xs # split_on c ys"
  by (induction xs) (auto split: list.splits)

lemma split_on_parts: "p \<in> set (split_on c xs) \<Longrightarrow> c \<notin> set p"
proof (induction xs arbitrary: p)
  case (Cons x xs)
  then show ?case
    by (cases "split_on c xs") (auto split: if_splits)
qed simp

lemma join_split_on: "join [c] (split_on c xs) = xs"
proof (induction xs)
  case (Cons x xs)
  obtain p ps where "split_on c xs = p # ps" by (cases "split_on c xs") auto
  with Cons show ?case by (cases ps) auto
qed simp

lemma lower_char_idem [simp]: "lower_char (lower_char c) = lower_char c"
  by (auto simp: lower_char_def Let_def)

lemma toLowerCase_idem [simp]: "toLowerCase (toLowerCase s) = toLowerCase s"
  by (simp add: toLowerCase_def)

lemma length_toLowerCase [simp]: "length (toLowerCase s) = length s"
  by (simp add: toLowerCase_def)

lemma toLowerCase_eq_Nil [simp]: "toLowerCase s = [] \<longleftrightarrow> s = []"
  by (simp add: toLowerCase_def)

lemma concat_snoc_map: "concat (map f (xs @ [x])) = concat (map f xs) @ f x"
  by simp

section \<open>Labelled runs\<close>

text \<open>
  An asynchronous component is a step relation: each label is one call, one settled promise or one
  callback, run to completion as JavaScript does. A run is a sequence of steps with its labels.
\<close>

inductive runs :: "('s \<Rightarrow> 'e \<Rightarrow> 's \<Rightarrow> bool) \<Rightarrow> 's \<Rightarrow> 'e list \<Rightarrow> 's \<Rightarrow> bool"
  for step :: "'s \<Rightarrow> 'e \<Rightarrow> 's \<Rightarrow> bool"
where
  runs_Nil: "runs step s [] s"
| runs_snoc: "runs step s es s' \<Longrightarrow> step s' e s'' \<Longrightarrow> runs step s (es @ [e]) s''"

lemma runs_invariant:
  assumes "runs step s es s'" and "P s" and "\<And>a e b. P a \<Longrightarrow> step a e b \<Longrightarrow> P b"
  shows "P s'"
  using assms by (induction rule: runs.induct) auto

lemma runs_one: "step s e s' \<Longrightarrow> runs step s [e] s'"
  using runs_snoc [OF runs_Nil, of step s e s'] by simp

lemma runs_append: "runs step s' fs s'' \<Longrightarrow> runs step s es s' \<Longrightarrow> runs step s (es @ fs) s''"
proof (induction rule: runs.induct)
  case (runs_snoc s fs s' e s'')
  then show ?case using runs.runs_snoc [of step _ "es @ fs" s' e s''] by simp
qed simp

lemma runs_cons: "step s e s' \<Longrightarrow> runs step s' es s'' \<Longrightarrow> runs step s (e # es) s''"
  using runs_append [of step s' es s'' s "[e]"] runs_one [of step s e s'] by simp

end
