(* ===== verification/Js_Json.thy ===== *)
theory Js_Json
  imports Js_Prelude
begin

text \<open>
  \<^verbatim>\<open>JSON.stringify\<close> and \<^verbatim>\<open>JSON.parse\<close>, which the hub protocol, the handshake, the negotiation and
  the console pages all rest on. \<open>stringify\<close> follows the language's serialisation (undefined and
  function members are left out of objects and become \<^verbatim>\<open>null\<close> in arrays; control characters are
  escaped). \<open>JSON_parse\<close> is a recursive descent parser with fuel; \<open>JSON_parse_not_out_of_fuel\<close> shows that the
  fuel it starts with never runs out, and \<open>JSON_roundtrip\<close> that it inverts \<open>stringify\<close>.
  A number with a fraction or an exponent and a \<^verbatim>\<open>\u\<close> escape above 255 are not represented by
  \<open>jsval\<close>: the parser answers \<open>JOutside\<close> there.
\<close>

section \<open>Serialisation\<close>

definition quote_char :: char where "quote_char = CHR 0x22"
definition backslash :: char where "backslash = CHR 0x5C"

definition hex_char :: "nat \<Rightarrow> char" where
  "hex_char d = (if d < 10 then char_of (48 + d) else char_of (87 + d))"

definition esc_char :: "char \<Rightarrow> string" where
  "esc_char c =
     (let n = of_char c :: nat in
      if c = quote_char then [backslash, quote_char]
      else if c = backslash then [backslash, backslash]
      else if c = CHR 0x08 then [backslash, CHR ''b'']
      else if c = CHR 0x09 then [backslash, CHR ''t'']
      else if c = CHR 0x0A then [backslash, CHR ''n'']
      else if c = CHR 0x0C then [backslash, CHR ''f'']
      else if c = CHR 0x0D then [backslash, CHR ''r'']
      else if n < 32 then [backslash, CHR ''u'', CHR ''0'', CHR ''0'', hex_char (n div 16), hex_char (n mod 16)]
      else [c])"

fun esc_string :: "string \<Rightarrow> string" where
  "esc_string [] = []"
| "esc_string (c # s) = esc_char c @ esc_string s"

definition json_quote :: "string \<Rightarrow> string" where
  "json_quote s = quote_char # esc_string s @ [quote_char]"

fun stringify :: "jsval \<Rightarrow> string option"
and stringify_elems :: "jsval list \<Rightarrow> string list"
and stringify_members :: "(string \<times> jsval) list \<Rightarrow> string list" where
  "stringify JUndef = None"
| "stringify (JFun _) = None"
| "stringify JNull = Some ''null''"
| "stringify (JBool b) = Some (if b then ''true'' else ''false'')"
| "stringify (JNum n) = Some (int_to_string n)"
| "stringify (JStr s) = Some (json_quote s)"
| "stringify (JBuf _) = Some ''{}''"
| "stringify (JArr xs) = Some (CHR ''['' # join '','' (stringify_elems xs) @ '']'')"
| "stringify (JObj ps) = Some (CHR ''{'' # join '','' (stringify_members ps) @ ''}'')"
| "stringify_elems [] = []"
| "stringify_elems (x # xs) =
     (case stringify x of None \<Rightarrow> ''null'' | Some t \<Rightarrow> t) # stringify_elems xs"
| "stringify_members [] = []"
| "stringify_members ((k, v) # ps) =
     (case stringify v of None \<Rightarrow> stringify_members ps
      | Some t \<Rightarrow> (json_quote k @ '':'' @ t) # stringify_members ps)"

text \<open>\<^verbatim>\<open>`${JSON.stringify(v)}`\<close>.\<close>

definition stringify_template :: "jsval \<Rightarrow> string" where
  "stringify_template v = (case stringify v of None \<Rightarrow> ''undefined'' | Some t \<Rightarrow> t)"

section \<open>Parsing\<close>

datatype json_fail = JSyntax | JOutside | JFuel

type_synonym 'a jp = "json_fail + ('a \<times> string)"

definition is_ws :: "char \<Rightarrow> bool" where
  "is_ws c \<longleftrightarrow> c \<in> {CHR 0x20, CHR 0x09, CHR 0x0A, CHR 0x0D}"

definition skip_ws :: "string \<Rightarrow> string" where
  "skip_ws s = dropWhile is_ws s"

definition is_digit :: "char \<Rightarrow> bool" where
  "is_digit c \<longleftrightarrow> 48 \<le> (of_char c :: nat) \<and> (of_char c :: nat) \<le> 57"

definition hex_val :: "char \<Rightarrow> nat option" where
  "hex_val c =
     (let n = of_char c :: nat in
      if 48 \<le> n \<and> n \<le> 57 then Some (n - 48)
      else if 97 \<le> n \<and> n \<le> 102 then Some (n - 87)
      else if 65 \<le> n \<and> n \<le> 70 then Some (n - 55) else None)"

definition hex4 :: "char \<Rightarrow> char \<Rightarrow> char \<Rightarrow> char \<Rightarrow> nat option" where
  "hex4 a b c d =
     (case (hex_val a, hex_val b, hex_val c, hex_val d) of
        (Some w, Some x, Some y, Some z) \<Rightarrow> Some (4096 * w + 256 * x + 16 * y + z)
      | _ \<Rightarrow> None)"

definition unesc :: "char \<Rightarrow> char option" where
  "unesc e =
     (if e = quote_char then Some quote_char
      else if e = backslash then Some backslash
      else if e = CHR ''/'' then Some (CHR ''/'')
      else if e = CHR ''b'' then Some (CHR 0x08)
      else if e = CHR ''f'' then Some (CHR 0x0C)
      else if e = CHR ''n'' then Some (CHR 0x0A)
      else if e = CHR ''r'' then Some (CHR 0x0D)
      else if e = CHR ''t'' then Some (CHR 0x09) else None)"

text \<open>
  Sequencing of parsers. \<open>jbind p f\<close> runs \<open>f\<close> on the value and the rest; \<open>next_tok s f\<close> skips
  white space and runs \<open>f\<close> on the next character.
\<close>

definition jbind :: "'a jp \<Rightarrow> ('a \<Rightarrow> string \<Rightarrow> 'b jp) \<Rightarrow> 'b jp" where
  "jbind p f = (case p of Inl e \<Rightarrow> Inl e | Inr (x, r) \<Rightarrow> f x r)"

definition next_tok :: "string \<Rightarrow> (char \<Rightarrow> string \<Rightarrow> 'b jp) \<Rightarrow> 'b jp" where
  "next_tok s f = (case skip_ws s of [] \<Rightarrow> Inl JSyntax | c # r \<Rightarrow> f c r)"

lemma jbind_cong [fundef_cong]:
  "p = p' \<Longrightarrow> (\<And>x r. p' = Inr (x, r) \<Longrightarrow> f x r = g x r) \<Longrightarrow> jbind p f = jbind p' g"
  by (auto simp: jbind_def split: sum.split)

lemma next_tok_cong [fundef_cong]:
  "s = s' \<Longrightarrow> (\<And>c r. skip_ws s' = c # r \<Longrightarrow> f c r = g c r) \<Longrightarrow> next_tok s f = next_tok s' g"
  by (auto simp: next_tok_def split: list.split)

lemma jbind_simps [simp]: "jbind (Inl e) f = Inl e" "jbind (Inr (x, r)) f = f x r"
  by (simp_all add: jbind_def)

text \<open>The characters of a string literal after its opening quote.\<close>

fun parse_str :: "string \<Rightarrow> string jp" where
  "parse_str [] = Inl JSyntax"
| "parse_str (c # s) =
     (if c = quote_char then Inr ([], s)
      else if c = backslash then
        (case s of
           [] \<Rightarrow> Inl JSyntax
         | e # s1 \<Rightarrow>
             if e = CHR ''u'' then
               (case s1 of
                  h1 # h2 # h3 # h4 # s2 \<Rightarrow>
                    (case hex4 h1 h2 h3 h4 of
                       None \<Rightarrow> Inl JSyntax
                     | Some n \<Rightarrow>
                         if 255 < n then Inl JOutside
                         else jbind (parse_str s2) (\<lambda>t r. Inr (char_of n # t, r)))
                | _ \<Rightarrow> Inl JSyntax)
             else
               (case unesc e of
                  None \<Rightarrow> Inl JSyntax
                | Some u \<Rightarrow> jbind (parse_str s1) (\<lambda>t r. Inr (u # t, r))))
      else if (of_char c :: nat) < 32 then Inl JSyntax
      else jbind (parse_str s) (\<lambda>t r. Inr (c # t, r)))"

fun digits_val :: "nat \<Rightarrow> string \<Rightarrow> nat" where
  "digits_val acc [] = acc"
| "digits_val acc (c # s) = digits_val (10 * acc + (of_char c - 48)) s"

text \<open>A fraction or an exponent after the integer part: well formed (outside the model) or not.\<close>

definition exp_tail :: "string \<Rightarrow> bool" where
  "exp_tail s =
     (case s of
        c # r \<Rightarrow>
          (case (if c = CHR ''+'' \<or> c = CHR ''-'' then r else s) of d # _ \<Rightarrow> is_digit d | [] \<Rightarrow> False)
      | [] \<Rightarrow> False)"

definition frac_tail :: "string \<Rightarrow> bool" where
  "frac_tail s = (case s of d # _ \<Rightarrow> is_digit d | [] \<Rightarrow> False)"

definition parse_nat :: "string \<Rightarrow> nat jp" where
  "parse_nat s =
     (let ds = takeWhile is_digit s; r = dropWhile is_digit s in
      if ds = [] then Inl JSyntax
      else if 1 < length ds \<and> hd ds = CHR ''0'' then Inl JSyntax
      else (case r of
              c # r' \<Rightarrow>
                if c = CHR ''.'' then Inl (if frac_tail r' then JOutside else JSyntax)
                else if c = CHR ''e'' \<or> c = CHR ''E'' then Inl (if exp_tail r' then JOutside else JSyntax)
                else Inr (digits_val 0 ds, r)
            | [] \<Rightarrow> Inr (digits_val 0 ds, r)))"

definition parse_num :: "string \<Rightarrow> jsval jp" where
  "parse_num s =
     (case s of
        [] \<Rightarrow> Inl JSyntax
      | c # r \<Rightarrow>
          if c = CHR ''-'' then jbind (parse_nat r) (\<lambda>n q. Inr (JNum (- int n), q))
          else jbind (parse_nat s) (\<lambda>n q. Inr (JNum (int n), q)))"

definition parse_word :: "string \<Rightarrow> jsval \<Rightarrow> string \<Rightarrow> jsval jp" where
  "parse_word w v s = (if prefix w s then Inr (v, drop (length w) s) else Inl JSyntax)"

fun parse_value :: "nat \<Rightarrow> string \<Rightarrow> jsval jp"
and parse_elems :: "nat \<Rightarrow> string \<Rightarrow> jsval list jp"
and parse_members :: "nat \<Rightarrow> string \<Rightarrow> jsobj \<Rightarrow> jsobj jp" where
  "parse_value 0 s = Inl JFuel"
| "parse_value (Suc n) s =
     next_tok s (\<lambda>c r.
       if c = CHR ''{'' then
         next_tok r (\<lambda>d q.
           if d = CHR ''}'' then Inr (JObj [], q)
           else jbind (parse_members n (d # q) []) (\<lambda>ps q'. Inr (JObj ps, q')))
       else if c = CHR ''['' then
         next_tok r (\<lambda>d q.
           if d = CHR '']'' then Inr (JArr [], q)
           else jbind (parse_elems n (d # q)) (\<lambda>xs q'. Inr (JArr xs, q')))
       else if c = quote_char then jbind (parse_str r) (\<lambda>t q. Inr (JStr t, q))
       else if c = CHR ''t'' then parse_word ''true'' (JBool True) (c # r)
       else if c = CHR ''f'' then parse_word ''false'' (JBool False) (c # r)
       else if c = CHR ''n'' then parse_word ''null'' JNull (c # r)
       else parse_num (c # r))"
| "parse_elems 0 s = Inl JFuel"
| "parse_elems (Suc n) s =
     jbind (parse_value n s) (\<lambda>v r.
       next_tok r (\<lambda>c q.
         if c = CHR '']'' then Inr ([v], q)
         else if c = CHR '','' then jbind (parse_elems n q) (\<lambda>vs q'. Inr (v # vs, q'))
         else Inl JSyntax))"
| "parse_members 0 s acc = Inl JFuel"
| "parse_members (Suc n) s acc =
     next_tok s (\<lambda>c r.
       if c \<noteq> quote_char then Inl JSyntax
       else
         jbind (parse_str r) (\<lambda>k r1.
           next_tok r1 (\<lambda>d r2.
             if d \<noteq> CHR '':'' then Inl JSyntax
             else
               jbind (parse_value n r2) (\<lambda>v r3.
                 next_tok r3 (\<lambda>e r4.
                   if e = CHR ''}'' then Inr (obj_set k v acc, r4)
                   else if e = CHR '','' then parse_members n r4 (obj_set k v acc)
                   else Inl JSyntax)))))"

definition json_fuel :: "string \<Rightarrow> nat" where
  "json_fuel s = 2 * length s + 2"

definition syntax_error :: js_error where
  "syntax_error = SyntaxError ''Unexpected token in JSON''"

definition JSON_parse :: "string \<Rightarrow> jsval result" where
  "JSON_parse s =
     (case parse_value (json_fuel s) s of
        Inr (v, r) \<Rightarrow> if skip_ws r = [] then Inr v else Inl syntax_error
      | Inl JSyntax \<Rightarrow> Inl syntax_error
      | Inl JOutside \<Rightarrow> Inl OutsideModel
      | Inl JFuel \<Rightarrow> Inl OutsideModel)"


section \<open>The parser always answers\<close>

lemma skip_ws_length: "length (skip_ws s) \<le> length s"
  by (simp add: skip_ws_def length_dropWhile_le)

lemma skip_ws_Cons_length: "skip_ws s = c # r \<Longrightarrow> length r < length s"
  using skip_ws_length [of s] by simp

text \<open>
  Three properties of a parser result, each with a rule per combinator: the rest is shorter than
  \<open>k\<close>, the fuel did not run out, a second result agrees with the first unless that ran out of fuel.
\<close>

definition rest_below :: "nat \<Rightarrow> 'a jp \<Rightarrow> bool" where
  "rest_below k p \<longleftrightarrow> (\<forall>x r. p = Inr (x, r) \<longrightarrow> length r < k)"

definition fuelled :: "'a jp \<Rightarrow> bool" where
  "fuelled p \<longleftrightarrow> p \<noteq> Inl JFuel"

definition refined_by :: "'a jp \<Rightarrow> 'a jp \<Rightarrow> bool" where
  "refined_by p q \<longleftrightarrow> p = Inl JFuel \<or> q = p"

lemma rest_below_rules:
  "rest_below k (Inl e)"
  "length r < k \<Longrightarrow> rest_below k (Inr (x, r))"
  "(\<And>x r. p = Inr (x, r) \<Longrightarrow> rest_below k (f x r)) \<Longrightarrow> rest_below k (jbind p f)"
  "(\<And>c r. skip_ws s = c # r \<Longrightarrow> rest_below k (g c r)) \<Longrightarrow> rest_below k (next_tok s g)"
  "(b \<Longrightarrow> rest_below k p) \<Longrightarrow> (\<not> b \<Longrightarrow> rest_below k q) \<Longrightarrow> rest_below k (if b then p else q)"
  by (auto simp: rest_below_def jbind_def next_tok_def split: sum.splits list.splits)

lemma fuelled_rules:
  "fuelled (Inr x)" "fuelled (Inl JSyntax)" "fuelled (Inl JOutside)"
  "fuelled p \<Longrightarrow> (\<And>x r. p = Inr (x, r) \<Longrightarrow> fuelled (f x r)) \<Longrightarrow> fuelled (jbind p f)"
  "(\<And>c r. skip_ws s = c # r \<Longrightarrow> fuelled (g c r)) \<Longrightarrow> fuelled (next_tok s g)"
  "(b \<Longrightarrow> fuelled p) \<Longrightarrow> (\<not> b \<Longrightarrow> fuelled q) \<Longrightarrow> fuelled (if b then p else q)"
  by (auto simp: fuelled_def jbind_def next_tok_def split: sum.splits list.splits)

lemma refined_by_rules:
  "refined_by p p"
  "refined_by p p' \<Longrightarrow> (\<And>x r. p = Inr (x, r) \<Longrightarrow> refined_by (f x r) (f' x r)) \<Longrightarrow>
     refined_by (jbind p f) (jbind p' f')"
  "(\<And>c r. skip_ws s = c # r \<Longrightarrow> refined_by (g c r) (g' c r)) \<Longrightarrow> refined_by (next_tok s g) (next_tok s g')"
  "(b \<Longrightarrow> refined_by p p') \<Longrightarrow> (\<not> b \<Longrightarrow> refined_by q q') \<Longrightarrow>
     refined_by (if b then p else q) (if b then p' else q')"
  by (auto simp: refined_by_def jbind_def next_tok_def split: sum.splits list.splits)

lemma rest_belowD: "rest_below k p \<Longrightarrow> p = Inr (x, r) \<Longrightarrow> length r < k"
  by (simp add: rest_below_def)

lemma rest_below_mono: "rest_below k p \<Longrightarrow> k \<le> l \<Longrightarrow> rest_below l p"
  by (auto simp: rest_below_def)

lemma rest_below_map [simp]: "rest_below k (jbind p (\<lambda>t r. Inr (f t, r))) \<longleftrightarrow> rest_below k p"
  by (auto simp: rest_below_def jbind_def split: sum.splits)

lemma rest_below_Inl [simp]: "rest_below k (Inl e)"
  by (simp add: rest_below_def)

declare parse_str.simps(2) [simp del] parse_value.simps(2) [simp del]
  parse_elems.simps(2) [simp del] parse_members.simps(2) [simp del]

lemma parse_str_rest: "rest_below (length s) (parse_str s)"
proof (induction s rule: length_induct)
  case (1 s)
  then have IH: "length t < length s \<Longrightarrow> rest_below (length s) (parse_str t)" for t
    by (metis less_imp_le rest_below_mono)
  show ?case
  proof (cases s)
    case (Cons c t)
    show ?thesis
      using IH unfolding Cons parse_str.simps(2)
      by (auto simp: rest_below_rules(2) split: list.split option.split)
  qed simp
qed

lemma parse_nat_rest: "rest_below (length s) (parse_nat s)"
proof -
  have "length s = length (takeWhile is_digit s) + length (dropWhile is_digit s)"
    by (metis length_append takeWhile_dropWhile_id)
  then have "takeWhile is_digit s \<noteq> [] \<Longrightarrow> length (dropWhile is_digit s) < length s" by simp
  then show ?thesis
    by (auto simp: rest_below_def parse_nat_def Let_def split: list.splits if_splits)
qed

lemma parse_scalar_rest:
  "rest_below (length s) (parse_num s)"
  "w \<noteq> [] \<Longrightarrow> rest_below (length s) (parse_word w v s)"
proof -
  show "rest_below (length s) (parse_num s)"
    using parse_nat_rest [of s] parse_nat_rest [of "tl s"]
    by (cases s) (auto simp: parse_num_def elim: rest_below_mono)
  show "w \<noteq> [] \<Longrightarrow> rest_below (length s) (parse_word w v s)"
    by (cases w; cases s) (auto simp: rest_below_def parse_word_def less_Suc_eq_le split: if_splits)
qed


lemma rest_below_next_tok:
  "(\<And>c r. skip_ws s = c # r \<Longrightarrow> length r < length s \<Longrightarrow> rest_below k (g c r)) \<Longrightarrow> rest_below k (next_tok s g)"
  by (rule rest_below_rules(4)) (auto dest: skip_ws_Cons_length)

lemma rest_below_jbind:
  "rest_below l p \<Longrightarrow> (\<And>x r. p = Inr (x, r) \<Longrightarrow> length r < l \<Longrightarrow> rest_below k (f x r)) \<Longrightarrow>
     rest_below k (jbind p f)"
  by (rule rest_below_rules(3)) (auto dest: rest_belowD)

lemma parse_rest:
  "rest_below (length s) (parse_value n s)"
  "rest_below (length s) (parse_elems n s)"
  "rest_below (length s) (parse_members n s acc)"
proof (induction n s and n s and n s acc rule: parse_value_parse_elems_parse_members.induct)
  case (2 n s)
  have scalars: "skip_ws s = c # r \<Longrightarrow> rest_below (length s) (parse_num (c # r))"
    "skip_ws s = c # r \<Longrightarrow> w \<noteq> [] \<Longrightarrow> rest_below (length s) (parse_word w v (c # r))"
    "skip_ws s = c # r \<Longrightarrow> rest_below (length s) (parse_str r)" for c r w v
    using skip_ws_length [of s]
    by (auto intro: rest_below_mono [OF parse_scalar_rest(1)] rest_below_mono [OF parse_scalar_rest(2)]
        rest_below_mono [OF parse_str_rest])
  show ?case
    unfolding parse_value.simps
    by (intro rest_below_next_tok rest_below_rules(5))
      (auto intro!: rest_below_rules(2) intro: scalars rest_below_mono [OF 2(1)] rest_below_mono [OF 2(2)])
next
  case (4 n s)
  show ?case
    unfolding parse_elems.simps
    by (rule rest_below_jbind [OF 4(1)], intro rest_below_next_tok rest_below_rules(5))
      (auto intro!: rest_below_rules(2) intro: rest_below_mono [OF 4(2)])
next
  case (6 n s acc)
  show ?case
    unfolding parse_members.simps
    by (intro rest_below_next_tok rest_below_rules(5) rest_below_jbind [OF parse_str_rest] rest_below_jbind [OF 6(1)])
      (auto intro!: rest_below_rules(2) intro: rest_below_mono [OF 6(2)])
qed simp_all

text \<open>Enough fuel: every recursive call has consumed input.\<close>

lemma fuelled_map [simp]: "fuelled (jbind p (\<lambda>t r. Inr (f t, r))) \<longleftrightarrow> fuelled p"
  by (auto simp: fuelled_def jbind_def split: sum.splits)

lemma parse_str_fuelled: "fuelled (parse_str s)"
proof (induction s rule: length_induct)
  case (1 s)
  show ?case
  proof (cases s)
    case (Cons c t)
    show ?thesis
      using 1 unfolding Cons parse_str.simps(2)
      by (auto simp: fuelled_rules(1-3) split: list.split option.split)
  qed (simp add: fuelled_rules)
qed

lemma parse_scalar_fuelled: "fuelled (parse_num s)" "fuelled (parse_word w v s)"
  by (auto simp: fuelled_def jbind_def parse_num_def parse_nat_def parse_word_def Let_def
      split: list.splits if_splits sum.splits prod.splits)

lemma fuelled_next_tok:
  "(\<And>c r. skip_ws s = c # r \<Longrightarrow> length r < length s \<Longrightarrow> fuelled (g c r)) \<Longrightarrow> fuelled (next_tok s g)"
  by (rule fuelled_rules(5)) (auto dest: skip_ws_Cons_length)

lemma parse_fuelled:
  "2 * length s < n \<Longrightarrow> fuelled (parse_value n s)"
  "2 * length s + 1 < n \<Longrightarrow> fuelled (parse_elems n s)"
  "2 * length s + 1 < n \<Longrightarrow> fuelled (parse_members n s acc)"
proof (induction n s and n s and n s acc rule: parse_value_parse_elems_parse_members.induct)
  case (2 n s)
  then show ?case
    unfolding parse_value.simps
    by (intro fuelled_next_tok fuelled_rules(6))
      (auto simp: fuelled_rules(1) parse_scalar_fuelled parse_str_fuelled)
next
  case (4 n s)
  then show ?case
    unfolding parse_elems.simps
    by (intro fuelled_rules(4) fuelled_next_tok fuelled_rules(6))
      (auto simp: fuelled_rules(1-3) dest!: rest_belowD [OF parse_rest(1)])
next
  case (6 n s acc)
  then show ?case
    unfolding parse_members.simps
    by (intro fuelled_rules(4) fuelled_next_tok fuelled_rules(6))
      (auto simp: fuelled_rules(1-3) parse_str_fuelled
        dest!: rest_belowD [OF parse_rest(1)] rest_belowD [OF parse_str_rest])
qed simp_all

text \<open>More fuel never changes an answer.\<close>

lemma parse_refined_Suc:
  "refined_by (parse_value n s) (parse_value (Suc n) s)"
  "refined_by (parse_elems n s) (parse_elems (Suc n) s)"
  "refined_by (parse_members n s acc) (parse_members (Suc n) s acc)"
proof (induction n s and n s and n s acc rule: parse_value_parse_elems_parse_members.induct)
  case (2 n s)
  show ?case
    unfolding parse_value.simps(2) [of n s] parse_value.simps(2) [of "Suc n" s]
    by (intro refined_by_rules(3,4) refined_by_rules(2) [OF 2(1)] refined_by_rules(2) [OF 2(2)] refined_by_rules(1))
next
  case (4 n s)
  show ?case
    unfolding parse_elems.simps(2) [of n s] parse_elems.simps(2) [of "Suc n" s]
    by (intro refined_by_rules(3,4) refined_by_rules(2) [OF 4(1)] refined_by_rules(2) [OF 4(2)] refined_by_rules(1))
next
  case (6 n s acc)
  show ?case
    unfolding parse_members.simps(2) [of n s acc] parse_members.simps(2) [of "Suc n" s acc]
    by (intro refined_by_rules(2-4) 6 refined_by_rules(1))
qed (simp_all add: refined_by_def)

lemma parse_value_more_fuel:
  assumes "parse_value n s = Inr x" and "n \<le> m"
  shows "parse_value m s = Inr x"
  using assms(2)
proof (induction m rule: dec_induct)
  case base
  show ?case by (fact assms(1))
next
  case (step m)
  with parse_refined_Suc(1) [of m s] show ?case by (simp add: refined_by_def)
qed

lemma parse_value_enough:
  assumes "parse_value n s = Inr x"
  shows "parse_value (json_fuel s) s = Inr x"
proof -
  have f: "fuelled (parse_value (json_fuel s) s)" by (rule parse_fuelled) (simp add: json_fuel_def)
  have eq: "json_fuel s \<le> m \<Longrightarrow> parse_value m s = parse_value (json_fuel s) s" for m
  proof (induction m rule: dec_induct)
    case (step m)
    with f parse_refined_Suc(1) [of m s] show ?case by (auto simp: refined_by_def fuelled_def)
  qed simp
  show ?thesis
    using parse_value_more_fuel [OF assms, of "max n (json_fuel s)"] eq [of "max n (json_fuel s)"] by simp
qed

lemma JSON_parse_not_out_of_fuel: "parse_value (json_fuel s) s \<noteq> Inl JFuel"
  using parse_fuelled(1) [of s "json_fuel s"] by (simp add: json_fuel_def fuelled_def)


section \<open>Parsing inverts serialisation\<close>

text \<open>The values JSON can carry: no undefined, function or buffer inside, distinct property names.\<close>

fun jsonable :: "jsval \<Rightarrow> bool"
and jsonable_list :: "jsval list \<Rightarrow> bool"
and jsonable_members :: "(string \<times> jsval) list \<Rightarrow> bool" where
  "jsonable JUndef = False"
| "jsonable (JFun _) = False"
| "jsonable (JBuf _) = False"
| "jsonable JNull = True"
| "jsonable (JBool _) = True"
| "jsonable (JNum _) = True"
| "jsonable (JStr _) = True"
| "jsonable (JArr xs) = jsonable_list xs"
| "jsonable (JObj ps) = (distinct (map fst ps) \<and> jsonable_members ps)"
| "jsonable_list [] = True"
| "jsonable_list (x # xs) = (jsonable x \<and> jsonable_list xs)"
| "jsonable_members [] = True"
| "jsonable_members ((k, v) # ps) = (jsonable v \<and> jsonable_members ps)"

lemma of_char_char_of [simp]: "n < 256 \<Longrightarrow> (of_char (char_of n) :: nat) = n"
  by (simp add: of_char_of take_bit_eq_mod)

lemma hex_val_hex_char: "d < 16 \<Longrightarrow> hex_val (hex_char d) = Some d"
  by (auto simp: hex_val_def hex_char_def Let_def)

lemma hex4_ctrl: "n < 256 \<Longrightarrow> hex4 CHR ''0'' CHR ''0'' (hex_char (n div 16)) (hex_char (n mod 16)) = Some n"
  by (simp add: hex4_def hex_val_hex_char) (simp add: hex_val_def Let_def)

lemma parse_str_plain:
  "c \<noteq> quote_char \<Longrightarrow> c \<noteq> backslash \<Longrightarrow> \<not> (of_char c :: nat) < 32 \<Longrightarrow>
     parse_str (c # t) = jbind (parse_str t) (\<lambda>u r. Inr (c # u, r))"
  by (simp add: parse_str.simps(2))

lemma parse_str_short_escape:
  "unesc e = Some u \<Longrightarrow> e \<noteq> CHR ''u'' \<Longrightarrow>
     parse_str (backslash # e # t) = jbind (parse_str t) (\<lambda>w r. Inr (u # w, r))"
  by (simp add: parse_str.simps(2) quote_char_def backslash_def)

lemma parse_str_hex_escape:
  "hex4 a b c d = Some n \<Longrightarrow> n \<le> 255 \<Longrightarrow>
     parse_str (backslash # CHR ''u'' # a # b # c # d # t) =
     jbind (parse_str t) (\<lambda>w r. Inr (char_of n # w, r))"
  by (simp add: parse_str.simps(2) quote_char_def backslash_def)

lemma unesc_simps [simp]:
  "unesc quote_char = Some quote_char" "unesc backslash = Some backslash"
  "unesc CHR ''b'' = Some CHR 0x08" "unesc CHR ''t'' = Some CHR 0x09" "unesc CHR ''n'' = Some CHR 0x0A"
  "unesc CHR ''f'' = Some CHR 0x0C" "unesc CHR ''r'' = Some CHR 0x0D"
  "quote_char \<noteq> CHR ''u''" "backslash \<noteq> CHR ''u''"
  by (simp_all add: unesc_def quote_char_def backslash_def)

lemma parse_str_esc_char:
  "parse_str (esc_char c @ t) = jbind (parse_str t) (\<lambda>u r. Inr (c # u, r))"
proof (cases "c \<in> {quote_char, backslash, CHR 0x08, CHR 0x09, CHR 0x0A, CHR 0x0C, CHR 0x0D}")
  case True
  then show ?thesis
    by (auto simp: esc_char_def Let_def parse_str_short_escape)
next
  case False
  then show ?thesis
    by (cases "(of_char c :: nat) < 32")
      (auto simp: esc_char_def Let_def parse_str_plain parse_str_hex_escape hex4_ctrl)
qed

lemma parse_str_esc_string: "parse_str (esc_string s @ quote_char # r) = Inr (s, r)"
proof (induction s)
  case Nil
  show ?case by (simp add: parse_str.simps(2))
next
  case (Cons c s)
  then show ?case by (simp add: parse_str_esc_char)
qed

text \<open>Decimal numbers.\<close>

lemma is_digit_digit_char: "d < 10 \<Longrightarrow> is_digit (digit_char d)"
  by (simp add: is_digit_def digit_char_def)

lemma nat_digits_digits: "\<forall>c \<in> set (nat_digits n). is_digit c"
proof (induction n rule: nat_digits.induct)
  case (1 n)
  then show ?case by (subst nat_digits.simps) (auto simp: is_digit_digit_char)
qed

lemma nat_digits_not_Nil [simp]: "nat_digits n \<noteq> []"
  by (subst nat_digits.simps) simp

lemma digits_val_append: "digits_val acc (s @ [c]) = 10 * digits_val acc s + (of_char c - 48)"
  by (induction acc s rule: digits_val.induct) simp_all

lemma digits_val_nat_digits: "digits_val 0 (nat_digits n) = n"
proof (induction n rule: nat_digits.induct)
  case (1 n)
  then show ?case by (subst nat_digits.simps) (simp add: digits_val_append digit_char_def)
qed

lemma nat_digits_no_leading_zero: "0 < n \<Longrightarrow> hd (nat_digits n) \<noteq> CHR ''0''"
proof (induction n rule: nat_digits.induct)
  case (1 n)
  show ?case
  proof (cases "n < 10")
    case True
    with 1(2) show ?thesis
      by (subst nat_digits.simps) (auto simp: digit_char_def dest!: arg_cong [where f = "of_char :: char \<Rightarrow> nat"])
  next
    case False
    with 1 show ?thesis by (subst nat_digits.simps) (simp add: nat_digits_not_Nil)
  qed
qed

lemma nat_digits_long: "1 < length (nat_digits n) \<Longrightarrow> 0 < n"
  by (cases "n = 0") (simp_all add: nat_digits.simps [of 0])

text \<open>What may follow a number without extending it.\<close>

definition num_end :: "string \<Rightarrow> bool" where
  "num_end r \<longleftrightarrow> (case r of [] \<Rightarrow> True | c # _ \<Rightarrow> \<not> is_digit c \<and> c \<notin> {CHR ''.'', CHR ''e'', CHR ''E''})"

lemma parse_nat_digits: "num_end r \<Longrightarrow> parse_nat (nat_digits n @ r) = Inr (n, r)"
proof -
  assume r: "num_end r"
  then have split: "takeWhile is_digit (nat_digits n @ r) = nat_digits n"
    "dropWhile is_digit (nat_digits n @ r) = r"
    using nat_digits_digits [of n]
    by (auto simp: num_end_def takeWhile_append2 dropWhile_append2 split: list.splits)
  have "\<not> (1 < length (nat_digits n) \<and> hd (nat_digits n) = CHR ''0'')"
    using nat_digits_no_leading_zero nat_digits_long by blast
  with r show ?thesis
    by (auto simp: parse_nat_def Let_def split nat_digits_not_Nil digits_val_nat_digits num_end_def
        split: list.splits)
qed

lemma parse_num_int: "num_end r \<Longrightarrow> parse_num (int_to_string i @ r) = Inr (JNum i, r)"
proof (cases "i < 0")
  case True
  moreover assume "num_end r"
  ultimately show ?thesis by (simp add: parse_num_def int_to_string_def parse_nat_digits)
next
  case False
  moreover assume "num_end r"
  moreover obtain c t where ct: "nat_digits (nat i) = c # t"
    using nat_digits_not_Nil by (meson neq_Nil_conv)
  moreover have "c \<noteq> CHR ''-''"
    using nat_digits_digits [of "nat i"] ct by (auto simp: is_digit_def)
  ultimately show ?thesis
    using parse_nat_digits [of r "nat i"] by (simp add: parse_num_def int_to_string_def)
qed


text \<open>The text of a value starts with a character that is neither white space nor a closing bracket.\<close>

definition opens_value :: "string \<Rightarrow> bool" where
  "opens_value t \<longleftrightarrow> (\<exists>c u. t = c # u \<and> \<not> is_ws c \<and> c \<noteq> CHR '']'')"

lemma opens_value_skip: "opens_value t \<Longrightarrow> skip_ws (t @ r) = t @ r"
  by (auto simp: opens_value_def skip_ws_def)

lemma opens_value_stringify: "stringify v = Some t \<Longrightarrow> opens_value t"
proof (cases v)
  case (JNum i)
  assume "stringify v = Some t"
  with JNum have t: "t = int_to_string i" by simp
  obtain c u where "nat_digits (nat (abs i)) = c # u" using nat_digits_not_Nil by (meson neq_Nil_conv)
  moreover from this have "is_digit c" using nat_digits_digits [of "nat (abs i)"] by simp
  ultimately show ?thesis
    unfolding t by (cases "i < 0") (auto simp: opens_value_def int_to_string_def is_ws_def is_digit_def)
qed (auto simp: opens_value_def is_ws_def json_quote_def quote_char_def)

lemma stringify_Some_of_jsonable: "jsonable v \<Longrightarrow> \<exists>t. stringify v = Some t"
  by (cases v) auto

lemma parse_more_fuel:
  "parse_elems n s = Inr y \<Longrightarrow> n \<le> m \<Longrightarrow> parse_elems m s = Inr y"
  "parse_members n s acc = Inr z \<Longrightarrow> n \<le> m \<Longrightarrow> parse_members m s acc = Inr z"
proof -
  assume a: "parse_elems n s = Inr y" and nm: "n \<le> m"
  from nm show "parse_elems m s = Inr y"
  proof (induction m rule: dec_induct)
    case (step m)
    with parse_refined_Suc(2) [of m s] show ?case by (simp add: refined_by_def)
  qed (fact a)
next
  assume a: "parse_members n s acc = Inr z" and nm: "n \<le> m"
  from nm show "parse_members m s acc = Inr z"
  proof (induction m rule: dec_induct)
    case (step m)
    with parse_refined_Suc(3) [of m s acc] show ?case by (simp add: refined_by_def)
  qed (fact a)
qed

lemma next_tok_Cons [simp]: "\<not> is_ws c \<Longrightarrow> next_tok (c # r) g = g c r"
  by (simp add: next_tok_def skip_ws_def)

lemma parse_scalar_text:
  "num_end r \<Longrightarrow> parse_value (Suc n) (int_to_string i @ r) = Inr (JNum i, r)"
  "parse_value (Suc n) (''null'' @ r) = Inr (JNull, r)"
  "parse_value (Suc n) (''true'' @ r) = Inr (JBool True, r)"
  "parse_value (Suc n) (''false'' @ r) = Inr (JBool False, r)"
  "parse_value (Suc n) (json_quote s @ r) = Inr (JStr s, r)"
proof -
  show "parse_value (Suc n) (int_to_string i @ r) = Inr (JNum i, r)" if r: "num_end r"
  proof -
    obtain c u where cu: "nat_digits (nat (abs i)) = c # u" using nat_digits_not_Nil by (meson neq_Nil_conv)
    then have "is_digit c" using nat_digits_digits [of "nat (abs i)"] by simp
    moreover obtain d w where dw: "int_to_string i = d # w" "d = CHR ''-'' \<or> d = c"
      using cu by (cases "i < 0") (auto simp: int_to_string_def)
    ultimately have "\<not> is_ws d" "d \<notin> {CHR ''{'', CHR ''['', CHR ''t'', CHR ''f'', CHR ''n'', quote_char}"
      by (auto simp: is_ws_def is_digit_def quote_char_def)
    then show ?thesis
      using parse_num_int [OF r, of i] dw(1) by (simp add: parse_value.simps(2))
  qed
qed (simp_all add: parse_value.simps(2) is_ws_def quote_char_def parse_word_def json_quote_def
    parse_str_esc_string [unfolded quote_char_def])


lemma num_end_simps [simp]: "num_end []" "num_end (CHR '','' # r)" "num_end (CHR '']'' # r)" "num_end (CHR ''}'' # r)"
  by (simp_all add: num_end_def is_digit_def)

lemma stringify_elems_Nil [simp]: "stringify_elems xs = [] \<longleftrightarrow> xs = []"
  by (cases xs) simp_all

lemma join_Cons: "join sep (p # ps) = (if ps = [] then p else p @ sep @ join sep ps)"
  by (cases ps) simp_all

lemma not_ws [simp]:
  "\<not> is_ws quote_char" "\<not> is_ws CHR '':''" "\<not> is_ws CHR '',''" "\<not> is_ws CHR ''}''" "\<not> is_ws CHR '']''"
  "\<not> is_ws CHR ''{''" "\<not> is_ws CHR ''[''"
  by (simp_all add: is_ws_def quote_char_def)

lemma parse_elems_step:
  assumes "parse_value n (t @ q) = Inr (v, q)" and "q = CHR '']'' # r"
  shows "parse_elems (Suc n) (t @ q) = Inr ([v], r)"
  using assms by (simp add: parse_elems.simps(2) is_ws_def)

lemma parse_elems_more:
  assumes "parse_value n (t @ CHR '','' # q) = Inr (v, CHR '','' # q)" and "parse_elems n q = Inr (vs, r)"
  shows "parse_elems (Suc n) (t @ CHR '','' # q) = Inr (v # vs, r)"
  using assms by (simp add: parse_elems.simps(2) is_ws_def)

lemma parse_members_step:
  assumes "parse_value n (t @ q) = Inr (v, q)" and "q = CHR ''}'' # r"
  shows "parse_members (Suc n) (json_quote k @ CHR '':'' # t @ q) acc = Inr (obj_set k v acc, r)"
  using assms
  by (simp add: parse_members.simps(2) json_quote_def parse_str_esc_string)

lemma parse_members_more:
  assumes "parse_value n (t @ CHR '','' # q) = Inr (v, CHR '','' # q)"
    and "parse_members n q (obj_set k v acc) = Inr (ps, r)"
  shows "parse_members (Suc n) (json_quote k @ CHR '':'' # t @ CHR '','' # q) acc = Inr (ps, r)"
  using assms
  by (simp add: parse_members.simps(2) json_quote_def parse_str_esc_string)


lemma parse_value_arr:
  assumes "opens_value t" and "parse_elems n (t @ q) = Inr (xs, r)"
  shows "parse_value (Suc n) (CHR ''['' # t @ q) = Inr (JArr xs, r)"
proof -
  from assms(1) obtain c u where "t = c # u" "\<not> is_ws c" "c \<noteq> CHR '']''" by (auto simp: opens_value_def)
  with assms(2) show ?thesis by (simp add: parse_value.simps(2))
qed

lemma parse_value_obj:
  assumes "parse_members n (quote_char # q) [] = Inr (ps, r)"
  shows "parse_value (Suc n) (CHR ''{'' # quote_char # q) = Inr (JObj ps, r)"
  using assms by (simp add: parse_value.simps(2)) (simp add: quote_char_def)

lemma stringify_members_shape:
  "jsonable_members ps \<Longrightarrow> ps \<noteq> [] \<Longrightarrow> \<exists>u. join '','' (stringify_members ps) = quote_char # u"
  by (cases ps rule: jsonable_members.cases)
    (auto simp: join_Cons json_quote_def dest!: stringify_Some_of_jsonable)

lemma stringify_members_Nil: "jsonable_members ps \<Longrightarrow> stringify_members ps = [] \<longleftrightarrow> ps = []"
  by (cases ps rule: jsonable_members.cases) (auto dest!: stringify_Some_of_jsonable)

lemma opens_join_elems: "jsonable_list xs \<Longrightarrow> xs \<noteq> [] \<Longrightarrow> opens_value (join '','' (stringify_elems xs))"
proof (cases xs)
  case (Cons x ys)
  assume "jsonable_list xs"
  with Cons obtain t where t: "stringify x = Some t" using stringify_Some_of_jsonable by auto
  from opens_value_stringify [OF t] t Cons show ?thesis
    by (auto simp: join_Cons opens_value_def)
qed simp

text \<open>The round trip of a non-empty array or object from that of its parts.\<close>

lemma parse_elems_parts:
  assumes x: "\<And>q. num_end q \<Longrightarrow> \<exists>n. parse_value n (t @ q) = Inr (x, q)"
    and xs: "xs \<noteq> [] \<Longrightarrow> \<exists>n. parse_elems n (join '','' ts @ CHR '']'' # r) = Inr (xs, r)"
    and ts: "ts = [] \<longleftrightarrow> xs = []"
  shows "\<exists>n. parse_elems n (join '','' (t # ts) @ CHR '']'' # r) = Inr (x # xs, r)"
proof (cases "xs = []")
  case True
  from x [of "CHR '']'' # r"] obtain n where "parse_value n (t @ CHR '']'' # r) = Inr (x, CHR '']'' # r)" by auto
  from parse_elems_step [OF this refl] True ts show ?thesis by auto
next
  case False
  let ?q = "join '','' ts @ CHR '']'' # r"
  from x [of "CHR '','' # ?q"] obtain n where n: "parse_value n (t @ CHR '','' # ?q) = Inr (x, CHR '','' # ?q)" by auto
  from xs False obtain m where m: "parse_elems m ?q = Inr (xs, r)" by auto
  have "parse_elems (Suc (max n m)) (t @ CHR '','' # ?q) = Inr (x # xs, r)"
    by (rule parse_elems_more) (auto intro: parse_value_more_fuel [OF n] parse_more_fuel(1) [OF m])
  then show ?thesis using False ts by (auto simp: join_Cons)
qed

lemma parse_members_parts:
  assumes v: "\<And>q. num_end q \<Longrightarrow> \<exists>n. parse_value n (t @ q) = Inr (v, q)"
    and ps: "ps \<noteq> [] \<Longrightarrow> \<exists>n. parse_members n (join '','' ts @ CHR ''}'' # r) (acc @ [(k, v)]) = Inr (acc @ (k, v) # ps, r)"
    and ts: "ts = [] \<longleftrightarrow> ps = []" and k: "k \<notin> fst ` set acc"
  shows "\<exists>n. parse_members n (join '','' ((json_quote k @ CHR '':'' # t) # ts) @ CHR ''}'' # r) acc =
    Inr (acc @ (k, v) # ps, r)"
proof (cases "ps = []")
  case True
  from v [of "CHR ''}'' # r"] obtain n where "parse_value n (t @ CHR ''}'' # r) = Inr (v, CHR ''}'' # r)" by auto
  from parse_members_step [OF this refl, of k acc] True ts obj_set_fresh [OF k] show ?thesis by auto
next
  case False
  let ?q = "join '','' ts @ CHR ''}'' # r"
  from v [of "CHR '','' # ?q"] obtain n where n: "parse_value n (t @ CHR '','' # ?q) = Inr (v, CHR '','' # ?q)" by auto
  from ps False obtain m where m: "parse_members m ?q (acc @ [(k, v)]) = Inr (acc @ (k, v) # ps, r)" by auto
  have "parse_members (Suc (max n m)) (json_quote k @ CHR '':'' # t @ CHR '','' # ?q) acc = Inr (acc @ (k, v) # ps, r)"
  proof (rule parse_members_more)
    show "parse_value (max n m) (t @ CHR '','' # ?q) = Inr (v, CHR '','' # ?q)"
      by (rule parse_value_more_fuel [OF n]) simp
    show "parse_members (max n m) ?q (obj_set k v acc) = Inr (acc @ (k, v) # ps, r)"
      unfolding obj_set_fresh [OF k] by (rule parse_more_fuel(2) [OF m]) simp
  qed
  then show ?thesis using False ts by (auto simp: join_Cons)
qed

lemma parse_stringify:
  "jsonable v \<Longrightarrow> num_end r \<Longrightarrow> \<exists>n. parse_value n (the (stringify v) @ r) = Inr (v, r)"
  "jsonable_list xs \<Longrightarrow> xs \<noteq> [] \<Longrightarrow>
     \<exists>n. parse_elems n (join '','' (stringify_elems xs) @ CHR '']'' # r) = Inr (xs, r)"
  "jsonable_members ps \<Longrightarrow> ps \<noteq> [] \<Longrightarrow> distinct (map fst (acc @ ps)) \<Longrightarrow>
     \<exists>n. parse_members n (join '','' (stringify_members ps) @ CHR ''}'' # r) acc = Inr (acc @ ps, r)"
proof (induction v and xs and ps arbitrary: r and r and r acc
    rule: stringify_stringify_elems_stringify_members.induct)
  case (8 xs)
  show ?case
  proof (cases "xs = []")
    case True
    then show ?thesis by (auto intro!: exI [of _ "Suc 0"] simp: parse_value.simps(2))
  next
    case False
    with 8 obtain n where "parse_elems n (join '','' (stringify_elems xs) @ CHR '']'' # r) = Inr (xs, r)" by auto
    from parse_value_arr [OF opens_join_elems this] 8(2) False show ?thesis by auto
  qed
next
  case (9 ps)
  show ?case
  proof (cases "ps = []")
    case True
    then show ?thesis by (auto intro!: exI [of _ "Suc 0"] simp: parse_value.simps(2))
  next
    case False
    with 9 have j: "jsonable_members ps" by simp
    from 9 False obtain n where n: "parse_members n (join '','' (stringify_members ps) @ CHR ''}'' # r) [] = Inr (ps, r)"
      using 9(1) [of "[]" r] by auto
    obtain u where u: "join '','' (stringify_members ps) = quote_char # u"
      using stringify_members_shape [OF j False] by blast
    from parse_value_obj [OF n [unfolded u, simplified]] show ?thesis by (auto simp: u)
  qed
next
  case (11 x xs)
  then obtain t where t: "stringify x = Some t" using stringify_Some_of_jsonable [of x] by auto
  have "\<exists>n. parse_elems n (join '','' (t # stringify_elems xs) @ CHR '']'' # r) = Inr (x # xs, r)"
    by (rule parse_elems_parts) (use 11 t stringify_elems_Nil in auto)
  then show ?case using t by simp
next
  case (13 k v ps)
  then obtain t where t: "stringify v = Some t" using stringify_Some_of_jsonable [of v] by auto
  have "\<exists>n. parse_members n (join '','' ((json_quote k @ CHR '':'' # t) # stringify_members ps) @ CHR ''}'' # r) acc =
      Inr (acc @ (k, v) # ps, r)"
  proof (rule parse_members_parts)
    show "\<exists>n. parse_value n (t @ q) = Inr (v, q)" if "num_end q" for q using 13(1) [of q] 13(4) t that by auto
    show "\<exists>n. parse_members n (join '','' (stringify_members ps) @ CHR ''}'' # r) (acc @ [(k, v)]) = Inr (acc @ (k, v) # ps, r)"
      if "ps \<noteq> []" using 13(3) [OF t, of "acc @ [(k, v)]" r] 13(4-6) that by auto
    show "stringify_members ps = [] \<longleftrightarrow> ps = []" using 13(4) stringify_members_Nil by simp
    show "k \<notin> fst ` set acc" using 13(6) by auto
  qed
  then show ?case using t by simp
qed (auto intro!: exI [of _ "Suc 0"] simp: parse_scalar_text [simplified])

text \<open>Parsing what was serialised gives the value back.\<close>

theorem JSON_roundtrip:
  assumes "jsonable v"
  shows "\<exists>t. stringify v = Some t \<and> JSON_parse t = Inr v"
proof -
  obtain t where t: "stringify v = Some t" using stringify_Some_of_jsonable [OF assms] by auto
  then obtain n where "parse_value n t = Inr (v, [])"
    using parse_stringify(1) [OF assms, of "[]"] by auto
  from parse_value_enough [OF this] t show ?thesis
    by (simp add: JSON_parse_def skip_ws_def)
qed

text \<open>Serialised text has no control characters, whatever the value.\<close>

definition printable :: "string \<Rightarrow> bool" where
  "printable s \<longleftrightarrow> (\<forall>c \<in> set s. 32 \<le> (of_char c :: nat))"

lemma printable_simps [simp]:
  "printable []" "printable (c # s) \<longleftrightarrow> 32 \<le> (of_char c :: nat) \<and> printable s"
  "printable (s @ t) \<longleftrightarrow> printable s \<and> printable t"
  by (auto simp: printable_def)

lemma printable_join: "printable sep \<Longrightarrow> list_all printable ps \<Longrightarrow> printable (join sep ps)"
  by (induction sep ps rule: join.induct) auto

lemma printable_hex: "d < 16 \<Longrightarrow> 32 \<le> (of_char (hex_char d) :: nat)"
  by (auto simp: hex_char_def)

lemma printable_quote: "printable (json_quote s)"
proof -
  have "printable (esc_char c)" for c
    by (auto simp: esc_char_def Let_def quote_char_def backslash_def intro!: printable_hex)
  then have "printable (esc_string s)" by (induction s) auto
  then show ?thesis by (simp add: json_quote_def quote_char_def)
qed

lemma printable_int: "printable (int_to_string i)"
proof -
  have "printable (nat_digits n)" for n
    using nat_digits_digits [of n] by (auto simp: printable_def is_digit_def)
  then show ?thesis by (simp add: int_to_string_def)
qed

lemma printable_stringify:
  "stringify v = Some t \<Longrightarrow> printable t"
  "list_all printable (stringify_elems xs)"
  "list_all printable (stringify_members ps)"
proof (induction v and xs and ps arbitrary: t rule: stringify_stringify_elems_stringify_members.induct)
  case (13 k v ps)
  then show ?case by (auto simp: printable_quote split: option.split)
qed (auto simp: printable_quote printable_int printable_join split: option.split)

end
