(* ===== verification/Sr_Utils.thy ===== *)
theory Sr_Utils
  imports Js_Json
begin

text \<open>
  The shared modules of signalr.js: Errors.ts (the error classes are the datatype \<open>js_error\<close> of
  \<open>Js_Prelude\<close>; here are their constructors), HttpClient.ts (requests, responses and the verbs),
  ILogger.ts and Loggers.ts, and Utils.ts (argument checks, platform detection, message details,
  loggers, the user agent). What the page runs in (which globals exist, what node reports) is the
  record \<open>platform\<close>, a parameter of the definitions that look at it.
\<close>

section \<open>Errors.ts\<close>

definition new_HttpError :: "string \<Rightarrow> int \<Rightarrow> js_error" where
  "new_HttpError errorMessage statusCode =
     HttpError (errorMessage @ '': Status code '' @ sq (int_to_string statusCode)) statusCode"

definition new_TimeoutError :: "string option \<Rightarrow> js_error" where
  "new_TimeoutError errorMessage =
     TimeoutError (case errorMessage of None \<Rightarrow> ''A timeout occurred.'' | Some m \<Rightarrow> m)"

definition new_AbortError :: "string option \<Rightarrow> js_error" where
  "new_AbortError errorMessage =
     AbortError (case errorMessage of None \<Rightarrow> ''An abort occurred.'' | Some m \<Rightarrow> m)"

text \<open>The \<^verbatim>\<open>errorType\<close> property the transport and negotiation errors carry.\<close>

fun errorType :: "js_error \<Rightarrow> string option" where
  "errorType (UnsupportedTransportError _ _) = Some ''UnsupportedTransportError''"
| "errorType (DisabledTransportError _ _) = Some ''DisabledTransportError''"
| "errorType (FailedToStartTransportError _ _) = Some ''FailedToStartTransportError''"
| "errorType (FailedToNegotiateWithServerError _) = Some ''FailedToNegotiateWithServerError''"
| "errorType _ = None"

section \<open>HttpClient.ts\<close>

text \<open>
  A request object. An absent method, url or response type is the empty string and an absent
  timeout 0: the code tests these properties for truthiness only. \<open>rq_abortSignal\<close> is the state of
  the signal's \<^verbatim>\<open>aborted\<close> flag when there is a signal.
\<close>

record http_request =
  rq_method :: string
  rq_url :: string
  rq_content :: jsval
  rq_headers :: "(string \<times> string) list option"
  rq_responseType :: string
  rq_abortSignal :: "bool option"
  rq_timeout :: int
  rq_withCredentials :: "bool option"

definition empty_request :: http_request where
  "empty_request = \<lparr>rq_method = [], rq_url = [], rq_content = JUndef, rq_headers = None,
     rq_responseType = [], rq_abortSignal = None, rq_timeout = 0, rq_withCredentials = None\<rparr>"

record http_response =
  rs_statusCode :: int
  rs_statusText :: string
  rs_content :: jsval

definition new_HttpResponse :: "int \<Rightarrow> string \<Rightarrow> jsval \<Rightarrow> http_response" where
  "new_HttpResponse statusCode statusText content =
     \<lparr>rs_statusCode = statusCode, rs_statusText = statusText, rs_content = content\<rparr>"

text \<open>The verbs build the request \<^verbatim>\<open>send\<close> receives.\<close>

definition http_get :: "string \<Rightarrow> http_request \<Rightarrow> http_request" where
  "http_get url options = options\<lparr>rq_method := ''GET'', rq_url := url\<rparr>"

definition http_post :: "string \<Rightarrow> http_request \<Rightarrow> http_request" where
  "http_post url options = options\<lparr>rq_method := ''POST'', rq_url := url\<rparr>"

definition http_delete :: "string \<Rightarrow> http_request \<Rightarrow> http_request" where
  "http_delete url options = options\<lparr>rq_method := ''DELETE'', rq_url := url\<rparr>"

definition HttpClient_getCookieString :: "string \<Rightarrow> string" where
  "HttpClient_getCookieString url = []"

section \<open>ILogger.ts and Loggers.ts\<close>

datatype log_level = LTrace | LDebug | LInformation | LWarning | LError | LCritical | LNone

fun level_num :: "log_level \<Rightarrow> nat" where
  "level_num LTrace = 0"
| "level_num LDebug = 1"
| "level_num LInformation = 2"
| "level_num LWarning = 3"
| "level_num LError = 4"
| "level_num LCritical = 5"
| "level_num LNone = 6"

fun level_name :: "log_level \<Rightarrow> string" where
  "level_name LTrace = ''Trace''"
| "level_name LDebug = ''Debug''"
| "level_name LInformation = ''Information''"
| "level_name LWarning = ''Warning''"
| "level_name LError = ''Error''"
| "level_name LCritical = ''Critical''"
| "level_name LNone = ''None''"

lemma level_num_inj [simp]: "level_num a = level_num b \<longleftrightarrow> a = b"
  by (cases a; cases b) simp_all

text \<open>Levels are ordered by severity, as the comparison of their numbers is.\<close>

instantiation log_level :: linorder
begin

definition less_eq_log_level :: "log_level \<Rightarrow> log_level \<Rightarrow> bool" where
  "less_eq_log_level a b \<longleftrightarrow> level_num a \<le> level_num b"

definition less_log_level :: "log_level \<Rightarrow> log_level \<Rightarrow> bool" where
  "less_log_level a b \<longleftrightarrow> level_num a < level_num b"

instance
  by standard (auto simp: less_eq_log_level_def less_log_level_def)

end

type_synonym log_entry = "log_level \<times> string"

datatype logger = ConsoleLogger log_level | NullLogger | CustomLogger nat

datatype logger_arg = LogUndef | LogNull | LogObject logger | LogLevelArg log_level

definition createLogger :: "logger_arg \<Rightarrow> logger" where
  "createLogger a =
     (case a of LogUndef \<Rightarrow> ConsoleLogger LInformation
      | LogNull \<Rightarrow> NullLogger
      | LogObject l \<Rightarrow> l
      | LogLevelArg m \<Rightarrow> ConsoleLogger m)"

datatype channel = ConsoleError | ConsoleWarn | ConsoleInfo | ConsoleLog

definition NullLogger_log :: "log_level \<Rightarrow> string \<Rightarrow> (channel \<times> string) list" where
  "NullLogger_log logLevel message = []"

text \<open>What a console logger writes; \<open>now\<close> is the ISO text of the current time.\<close>

definition ConsoleLogger_log :: "log_level \<Rightarrow> string \<Rightarrow> log_level \<Rightarrow> string \<Rightarrow> (channel \<times> string) list" where
  "ConsoleLogger_log minLevel now logLevel message =
     (if minLevel \<le> logLevel then
        (let msg = ''['' @ now @ ''] '' @ level_name logLevel @ '': '' @ message in
         [(case logLevel of
             LCritical \<Rightarrow> ConsoleError
           | LError \<Rightarrow> ConsoleError
           | LWarning \<Rightarrow> ConsoleWarn
           | LInformation \<Rightarrow> ConsoleInfo
           | _ \<Rightarrow> ConsoleLog, msg)])
      else [])"

definition logger_log :: "logger \<Rightarrow> (nat \<Rightarrow> log_level \<Rightarrow> string \<Rightarrow> (channel \<times> string) list) \<Rightarrow> string \<Rightarrow>
    log_level \<Rightarrow> string \<Rightarrow> (channel \<times> string) list" where
  "logger_log l custom now lv m =
     (case l of ConsoleLogger minLevel \<Rightarrow> ConsoleLogger_log minLevel now lv m
      | NullLogger \<Rightarrow> NullLogger_log lv m
      | CustomLogger i \<Rightarrow> custom i lv m)"

section \<open>Utils.ts: argument checks\<close>

definition VERSION :: string where "VERSION = ''7.0.9''"

definition Arg_isRequired :: "jsval \<Rightarrow> string \<Rightarrow> unit result" where
  "Arg_isRequired val name =
     (if val = JNull \<or> val = JUndef then Inl (Error (''The '' @ sq name @ '' argument is required.'')) else Inr ())"

text \<open>The white space of the pattern \<^verbatim>\<open>\s\<close> below code unit 256.\<close>

definition is_space :: "char \<Rightarrow> bool" where
  "is_space c \<longleftrightarrow> c \<in> {CHR 0x20, CHR 0x09, CHR 0x0A, CHR 0x0B, CHR 0x0C, CHR 0x0D, CHR 0xA0}"

definition Arg_isNotEmpty :: "string \<Rightarrow> string \<Rightarrow> unit result" where
  "Arg_isNotEmpty val name =
     (if val = [] \<or> list_all is_space val then Inl (Error (''The '' @ sq name @ '' argument should not be empty.''))
      else Inr ())"

text \<open>\<open>keys\<close> are the property names of the enum object, the names and the values of its members.\<close>

definition Arg_isIn :: "string \<Rightarrow> string list \<Rightarrow> string \<Rightarrow> unit result" where
  "Arg_isIn val keys name =
     (if val \<in> set keys then Inr () else Inl (Error (''Unknown '' @ name @ '' value: '' @ val @ ''.'')))"

section \<open>Utils.ts: platform\<close>

text \<open>
  \<open>pf_document\<close> is \<^verbatim>\<open>typeof window.document\<close> when \<^verbatim>\<open>window\<close> is an object. The \<open>pf_has_\<close> fields say which
  globals are defined; the last two are \<^verbatim>\<open>process.platform\<close> and \<^verbatim>\<open>process.versions.node\<close>.
\<close>

record platform =
  pf_document :: "string option"
  pf_self_importScripts :: bool
  pf_has_globalThis :: bool
  pf_has_self :: bool
  pf_has_webpack_g :: bool
  pf_has_fetch :: bool
  pf_has_XMLHttpRequest :: bool
  pf_has_AbortController :: bool
  pf_has_WebSocket :: bool
  pf_has_EventSource :: bool
  pf_process_platform :: string
  pf_node_version :: string

definition isBrowser :: "platform \<Rightarrow> bool" where
  "isBrowser p = (pf_document p = Some ''object'')"

definition isWebWorker :: "platform \<Rightarrow> bool" where
  "isWebWorker p = pf_self_importScripts p"

definition isReactNative :: "platform \<Rightarrow> bool" where
  "isReactNative p = (pf_document p = Some ''undefined'')"

definition isNode :: "platform \<Rightarrow> bool" where
  "isNode p = (\<not> isBrowser p \<and> \<not> isWebWorker p \<and> \<not> isReactNative p)"

datatype global_object = GlobalThis | GlobalSelf | GlobalWindow | GlobalWebpack

definition getGlobalThis :: "platform \<Rightarrow> global_object result" where
  "getGlobalThis p =
     (if pf_has_globalThis p then Inr GlobalThis
      else if pf_has_self p then Inr GlobalSelf
      else if pf_document p \<noteq> None then Inr GlobalWindow
      else if pf_has_webpack_g p then Inr GlobalWebpack
      else Inl (Error ''could not find global''))"

section \<open>Utils.ts: message details\<close>

fun isArrayBuffer :: "jsval \<Rightarrow> bool" where
  "isArrayBuffer (JBuf _) = True"
| "isArrayBuffer _ = False"

fun hex_digits :: "nat \<Rightarrow> string" where
  "hex_digits n = (if n < 16 then [hex_char n] else hex_digits (n div 16) @ [hex_char (n mod 16)])"

declare hex_digits.simps [simp del]

definition format_byte :: "8 word \<Rightarrow> string" where
  "format_byte b =
     (let num = unat b; pad = (if num < 16 then ''0'' else []) in ''0x'' @ pad @ hex_digits num)"

definition formatArrayBuffer :: "8 word list \<Rightarrow> string" where
  "formatArrayBuffer data =
     (let str = concat (map (\<lambda>num. format_byte num @ '' '') data) in take (length str - 1) str)"

definition getDataDetail :: "jsval \<Rightarrow> bool \<Rightarrow> string" where
  "getDataDetail data includeContent =
     (case data of
        JBuf b \<Rightarrow> ''Binary data of length '' @ nat_digits (length b)
                  @ (if includeContent then ''. Content: '' @ sq (formatArrayBuffer b) else [])
      | JStr s \<Rightarrow> ''String data of length '' @ nat_digits (length s)
                  @ (if includeContent then ''. Content: '' @ sq s else [])
      | _ \<Rightarrow> [])"

text \<open>\<open>stack\<close> is the engine's \<^verbatim>\<open>e.stack\<close>, empty when there is none.\<close>

definition getErrorString :: "string \<Rightarrow> js_error \<Rightarrow> string" where
  "getErrorString stack e =
     (if is_error e \<and> stack \<noteq> [] then stack
      else if is_error e \<and> err_message e \<noteq> [] then err_message e
      else err_to_string e)"

section \<open>Utils.ts: the user agent\<close>

definition part_or_undefined :: "string list \<Rightarrow> nat \<Rightarrow> string" where
  "part_or_undefined ps i = (if i < length ps then ps ! i else ''undefined'')"

definition constructUserAgent :: "string \<Rightarrow> string \<Rightarrow> string \<Rightarrow> string option \<Rightarrow> string" where
  "constructUserAgent version os runtime runtimeVersion =
     (let majorAndMinor = split_on CHR ''.'' version in
      ''Microsoft SignalR/'' @ part_or_undefined majorAndMinor 0 @ ''.'' @ part_or_undefined majorAndMinor 1
      @ '' ('' @ version @ ''; ''
      @ (if os \<noteq> [] then os @ ''; '' else ''Unknown OS; '')
      @ runtime
      @ (case runtimeVersion of
           None \<Rightarrow> ''; Unknown Runtime Version''
         | Some v \<Rightarrow> if v = [] then ''; Unknown Runtime Version'' else ''; '' @ v)
      @ '')'')"

definition getOsName :: "platform \<Rightarrow> string" where
  "getOsName p =
     (if isNode p then
        (if pf_process_platform p = ''win32'' then ''Windows NT''
         else if pf_process_platform p = ''darwin'' then ''macOS''
         else if pf_process_platform p = ''linux'' then ''Linux''
         else pf_process_platform p)
      else [])"

definition getRuntimeVersion :: "platform \<Rightarrow> string option" where
  "getRuntimeVersion p = (if isNode p then Some (pf_node_version p) else None)"

definition getRuntime :: "platform \<Rightarrow> string" where
  "getRuntime p = (if isNode p then ''NodeJS'' else ''Browser'')"

definition getUserAgentHeader :: "platform \<Rightarrow> string \<times> string" where
  "getUserAgentHeader p =
     (if isNode p then ''User-Agent'' else ''X-SignalR-User-Agent'',
      constructUserAgent VERSION (getOsName p) (getRuntime p) (getRuntimeVersion p))"

section \<open>Utils.ts: sendMessage\<close>

text \<open>The options the transports pass on.\<close>

record send_options =
  so_logMessageContent :: bool
  so_headers :: "(string \<times> string) list"
  so_timeout :: int
  so_withCredentials :: bool

text \<open>
  \<^verbatim>\<open>sendMessage\<close> up to its \<^verbatim>\<open>await\<close>: the request it posts and what it logs; and after it.
\<close>

definition sendMessage_log :: "string \<Rightarrow> jsval \<Rightarrow> send_options \<Rightarrow> log_entry" where
  "sendMessage_log transportName content options =
     (LTrace, ''('' @ transportName @ '' transport) sending data. ''
        @ getDataDetail content (so_logMessageContent options) @ ''.'')"

definition sendMessage_request :: "platform \<Rightarrow> string \<Rightarrow> jsval \<Rightarrow> send_options \<Rightarrow> http_request" where
  "sendMessage_request p url content options =
     (let (name, value) = getUserAgentHeader p; headers = obj_set name value [] in
      http_post url (empty_request\<lparr>
        rq_content := content,
        rq_headers := Some (obj_spread headers (so_headers options)),
        rq_responseType := (if isArrayBuffer content then ''arraybuffer'' else ''text''),
        rq_timeout := so_timeout options,
        rq_withCredentials := Some (so_withCredentials options)\<rparr>))"

definition sendMessage_done_log :: "string \<Rightarrow> http_response \<Rightarrow> log_entry" where
  "sendMessage_done_log transportName response =
     (LTrace, ''('' @ transportName @ '' transport) request complete. Response status: ''
        @ int_to_string (rs_statusCode response) @ ''.'')"

section \<open>Lemmas\<close>

lemma ConsoleLogger_log_iff: "ConsoleLogger_log m now lv msg \<noteq> [] \<longleftrightarrow> m \<le> lv"
  by (simp add: ConsoleLogger_log_def Let_def)

lemma hex_digits_small: "n < 16 \<Longrightarrow> hex_digits n = [hex_char n]"
  by (simp add: hex_digits.simps)

lemma hex_digits_byte: "16 \<le> n \<Longrightarrow> n < 256 \<Longrightarrow> hex_digits n = [hex_char (n div 16), hex_char (n mod 16)]"
  by (subst hex_digits.simps) (simp add: hex_digits_small)

lemma unat_byte: "unat (b :: 8 word) < 256"
  using unsigned_less [of b, where 'a = nat] by simp

lemma hex_char_0: "hex_char 0 = CHR ''0''"
  by code_simp

lemma hex_char_not_space: "d < 16 \<Longrightarrow> CHR '' '' \<noteq> hex_char d"
  by (auto simp: hex_char_def dest!: arg_cong [where f = "of_char :: char \<Rightarrow> nat"])

lemma format_byte_two_digits:
  "format_byte b = ''0x'' @ [hex_char (unat b div 16), hex_char (unat b mod 16)]"
proof (cases "unat b < 16")
  case True
  then show ?thesis by (simp add: format_byte_def Let_def hex_digits_small hex_char_0)
next
  case False
  then show ?thesis using unat_byte [of b] by (simp add: format_byte_def Let_def hex_digits_byte)
qed

lemma format_byte_no_space: "CHR '' '' \<notin> set (format_byte b)"
  using unat_byte [of b] by (simp add: format_byte_two_digits hex_char_not_space)

lemma formatArrayBuffer_eq_join: "formatArrayBuffer bs = join '' '' (map format_byte bs)"
proof -
  have "bs \<noteq> [] \<Longrightarrow> concat (map (\<lambda>b. format_byte b @ '' '') bs) = join '' '' (map format_byte bs) @ '' ''"
  proof (induction bs)
    case (Cons b bs)
    then show ?case by (cases bs) auto
  qed simp
  then show ?thesis by (cases "bs = []") (simp_all add: formatArrayBuffer_def Let_def)
qed

end
