(* ===== verification/Sr_Protocol.thy ===== *)
theory Sr_Protocol
  imports Sr_Utils
begin

text \<open>
  The wire protocol of signalr.js: TextMessageFormat.ts (records ended by code unit 0x1E),
  HandshakeProtocol.ts, IHubProtocol.ts (message types) and JsonHubProtocol.ts. Two interfaces are
  stated as locales and interpreted on these definitions: \<open>framing\<close> (a record format can be read
  back from a concatenation of records) and \<open>hub_protocol\<close> (what a hub connection relies on when it
  sends several messages in one piece of data).
\<close>

section \<open>TextMessageFormat.ts\<close>

definition RecordSeparator :: char where "RecordSeparator = CHR 0x1E"

definition RecordSeparatorCode :: "8 word" where "RecordSeparatorCode = 0x1E"

definition TextMessageFormat_write :: "string \<Rightarrow> string" where
  "TextMessageFormat_write output = output @ [RecordSeparator]"

definition TextMessageFormat_parse :: "string \<Rightarrow> string list result" where
  "TextMessageFormat_parse input =
     (if input = [] \<or> last input \<noteq> RecordSeparator then Inl (Error ''Message is incomplete.'')
      else (let messages = split_on RecordSeparator input in Inr (butlast messages)))"

section \<open>HandshakeProtocol.ts\<close>

definition writeHandshakeRequest :: "jsval \<Rightarrow> string" where
  "writeHandshakeRequest handshakeRequest = TextMessageFormat_write (stringify_template handshakeRequest)"

definition char_of_byte :: "8 word \<Rightarrow> char" where
  "char_of_byte b = char_of (unat b)"

text \<open>The first record of the data, and what follows it (\<^verbatim>\<open>null\<close> when nothing does).\<close>

definition handshake_split :: "jsval \<Rightarrow> (string \<times> jsval) result" where
  "handshake_split data =
     (case data of
        JBuf binaryData \<Rightarrow>
          (case index_of binaryData [RecordSeparatorCode] of
             None \<Rightarrow> Inl (Error ''Message is incomplete.'')
           | Some separatorIndex \<Rightarrow>
               (let responseLength = separatorIndex + 1 in
                Inr (map char_of_byte (take responseLength binaryData),
                     if responseLength < length binaryData then JBuf (drop responseLength binaryData) else JNull)))
      | JStr textData \<Rightarrow>
          (case index_of textData [RecordSeparator] of
             None \<Rightarrow> Inl (Error ''Message is incomplete.'')
           | Some separatorIndex \<Rightarrow>
               (let responseLength = separatorIndex + 1 in
                Inr (take responseLength textData,
                     if responseLength < length textData then JStr (drop responseLength textData) else JNull)))
      | _ \<Rightarrow> Inl (TypeError ''textData.indexOf is not a function''))"

definition parseHandshakeResponse :: "jsval \<Rightarrow> (jsval \<times> jsval) result" where
  "parseHandshakeResponse data =
     rbind (handshake_split data) (\<lambda>(messageData, remainingData).
     rbind (TextMessageFormat_parse messageData) (\<lambda>messages.
     rbind (case messages of [] \<Rightarrow> Inl syntax_error | m # _ \<Rightarrow> JSON_parse m) (\<lambda>response.
     rbind (get_prop response ''type'') (\<lambda>t.
       if truthy t then Inl (Error ''Expected a handshake response from the server.'')
       else Inr (remainingData, response)))))"

section \<open>IHubProtocol.ts\<close>

definition MT_Invocation :: int where "MT_Invocation = 1"
definition MT_StreamItem :: int where "MT_StreamItem = 2"
definition MT_Completion :: int where "MT_Completion = 3"
definition MT_StreamInvocation :: int where "MT_StreamInvocation = 4"
definition MT_CancelInvocation :: int where "MT_CancelInvocation = 5"
definition MT_Ping :: int where "MT_Ping = 6"
definition MT_Close :: int where "MT_Close = 7"

lemmas MT_defs = MT_Invocation_def MT_StreamItem_def MT_Completion_def MT_StreamInvocation_def
  MT_CancelInvocation_def MT_Ping_def MT_Close_def

section \<open>JsonHubProtocol.ts\<close>

definition JSON_HUB_PROTOCOL_NAME :: string where "JSON_HUB_PROTOCOL_NAME = ''json''"

definition TransferFormat_Text :: int where "TransferFormat_Text = 1"
definition TransferFormat_Binary :: int where "TransferFormat_Binary = 2"

record protocol_info =
  pr_name :: string
  pr_version :: int
  pr_transferFormat :: int

definition JsonHubProtocol :: protocol_info where
  "JsonHubProtocol = \<lparr>pr_name = JSON_HUB_PROTOCOL_NAME, pr_version = 1, pr_transferFormat = TransferFormat_Text\<rparr>"

definition assertNotEmptyString :: "jsval \<Rightarrow> string \<Rightarrow> unit result" where
  "assertNotEmptyString value errorMessage =
     (if js_typeof value \<noteq> ''string'' \<or> value = JStr [] then Inl (Error errorMessage) else Inr ())"

definition isInvocationMessage :: "jsval \<Rightarrow> unit result" where
  "isInvocationMessage message =
     rbind (get_prop message ''target'') (\<lambda>target.
     rbind (assertNotEmptyString target ''Invalid payload for Invocation message.'') (\<lambda>_.
     rbind (get_prop message ''invocationId'') (\<lambda>invocationId.
       if invocationId \<noteq> JUndef then assertNotEmptyString invocationId ''Invalid payload for Invocation message.''
       else Inr ())))"

definition isStreamItemMessage :: "jsval \<Rightarrow> unit result" where
  "isStreamItemMessage message =
     rbind (get_prop message ''invocationId'') (\<lambda>invocationId.
     rbind (assertNotEmptyString invocationId ''Invalid payload for StreamItem message.'') (\<lambda>_.
     rbind (get_prop message ''item'') (\<lambda>item.
       if item = JUndef then Inl (Error ''Invalid payload for StreamItem message.'') else Inr ())))"

definition isCompletionMessage :: "jsval \<Rightarrow> unit result" where
  "isCompletionMessage message =
     rbind (get_prop message ''result'') (\<lambda>result.
     rbind (get_prop message ''error'') (\<lambda>error.
     rbind (if truthy result \<and> truthy error then Inl (Error ''Invalid payload for Completion message.'') else Inr ()) (\<lambda>_.
     rbind (if \<not> truthy result \<and> truthy error
            then assertNotEmptyString error ''Invalid payload for Completion message.'' else Inr ()) (\<lambda>_.
     rbind (get_prop message ''invocationId'') (\<lambda>invocationId.
       assertNotEmptyString invocationId ''Invalid payload for Completion message.'')))))"

text \<open>
  The check of one parsed message: \<open>Inr True\<close> when it is kept, \<open>Inr False\<close> when its type is unknown
  and it is skipped.
\<close>

definition checkMessage :: "jsval \<Rightarrow> bool result" where
  "checkMessage parsedMessage =
     rbind (get_prop parsedMessage ''type'') (\<lambda>t.
       case t of
         JNum n \<Rightarrow>
           if n = MT_Invocation then rbind (isInvocationMessage parsedMessage) (\<lambda>_. Inr True)
           else if n = MT_StreamItem then rbind (isStreamItemMessage parsedMessage) (\<lambda>_. Inr True)
           else if n = MT_Completion then rbind (isCompletionMessage parsedMessage) (\<lambda>_. Inr True)
           else if n = MT_Ping then Inr True
           else if n = MT_Close then Inr True
           else Inr False
       | _ \<Rightarrow> Inl (Error ''Invalid payload.''))"

definition unknown_type_log :: "jsval \<Rightarrow> log_entry" where
  "unknown_type_log parsedMessage =
     (LInformation, ''Unknown message type ''
        @ sq (case get_prop parsedMessage ''type'' of Inr (JNum n) \<Rightarrow> int_to_string n | _ \<Rightarrow> []) @ '' ignored.'')"

text \<open>The loop over the records; it returns what was logged and the messages kept.\<close>

fun parse_loop :: "string list \<Rightarrow> log_entry list \<Rightarrow> jsval list \<Rightarrow> log_entry list \<times> jsval list result" where
  "parse_loop [] log hubMessages = (log, Inr hubMessages)"
| "parse_loop (message # messages) log hubMessages =
     (case JSON_parse message of
        Inl e \<Rightarrow> (log, Inl e)
      | Inr parsedMessage \<Rightarrow>
          (case checkMessage parsedMessage of
             Inl e \<Rightarrow> (log, Inl e)
           | Inr True \<Rightarrow> parse_loop messages log (hubMessages @ [parsedMessage])
           | Inr False \<Rightarrow> parse_loop messages (log @ [unknown_type_log parsedMessage]) hubMessages))"

definition parseMessages :: "jsval \<Rightarrow> log_entry list \<times> jsval list result" where
  "parseMessages input =
     (case input of
        JStr text \<Rightarrow>
          if text = [] then ([], Inr [])
          else (case TextMessageFormat_parse text of
                  Inl e \<Rightarrow> ([], Inl e)
                | Inr messages \<Rightarrow> parse_loop messages [] [])
      | _ \<Rightarrow> ([], Inl (Error ''Invalid input for JSON hub protocol. Expected a string.'')))"

definition writeMessage :: "jsval \<Rightarrow> string" where
  "writeMessage message = TextMessageFormat_write (stringify_template message)"

section \<open>Framing\<close>

text \<open>A record format: \<open>unframe\<close> recovers a non-empty list of clean records from their concatenation.\<close>

locale framing =
  fixes frame :: "'a list \<Rightarrow> 'a list"
    and unframe :: "'a list \<Rightarrow> 'a list list result"
    and clean :: "'a list \<Rightarrow> bool"
  assumes unframe_frames: "ms \<noteq> [] \<Longrightarrow> list_all clean ms \<Longrightarrow> unframe (concat (map frame ms)) = Inr ms"
    and unframe_sound: "unframe s = Inr ms \<Longrightarrow> list_all clean ms \<and> concat (map frame ms) = s"
begin

lemma uniquely_decodable:
  assumes "list_all clean ms" "list_all clean ns" "ms \<noteq> []" "ns \<noteq> []"
    and "concat (map frame ms) = concat (map frame ns)"
  shows "ms = ns"
proof -
  have "Inr ms = unframe (concat (map frame ns))"
    using unframe_frames [OF assms(3,1)] by (simp only: assms(5))
  also have "\<dots> = Inr ns" by (rule unframe_frames [OF assms(4,2)])
  finally show ?thesis by simp
qed

lemma unframe_append:
  assumes "unframe s = Inr ms" "unframe t = Inr ns" "ms \<noteq> []"
  shows "unframe (s @ t) = Inr (ms @ ns)"
proof -
  have "list_all clean (ms @ ns)" and eq: "concat (map frame ms) = s" "concat (map frame ns) = t"
    using unframe_sound [OF assms(1)] unframe_sound [OF assms(2)] by simp_all
  then show ?thesis using unframe_frames [of "ms @ ns"] assms(3) by (simp add: eq)
qed

end

lemma split_on_records:
  "list_all (\<lambda>m. c \<notin> set m) ms \<Longrightarrow> split_on c (concat (map (\<lambda>m. m @ [c]) ms)) = ms @ [[]]"
  by (induction ms) (simp_all add: split_on_append)

lemma last_records: "ms \<noteq> [] \<Longrightarrow> last (concat (map (\<lambda>m. m @ [c]) ms)) = c"
  by (induction ms) auto

lemma records_of_split: "concat (map (\<lambda>m. m @ [c]) (butlast (split_on c xs))) @ last (split_on c xs) = xs"
proof (induction xs)
  case (Cons x xs)
  obtain p ps where "split_on c xs = p # ps" by (cases "split_on c xs") auto
  with Cons show ?case by (cases ps) auto
qed simp

lemma split_on_snoc: "split_on c (xs @ [c]) = split_on c xs @ [[]]"
  by (induction xs) (auto simp: append_eq_Cons_conv split: list.split)

lemma TextMessageFormat_write_eq: "TextMessageFormat_write = (\<lambda>m. m @ [RecordSeparator])"
  by (auto simp: TextMessageFormat_write_def)

lemma TextMessageFormat_parse_write:
  assumes "ms \<noteq> []" and "list_all (\<lambda>m. RecordSeparator \<notin> set m) ms"
  shows "TextMessageFormat_parse (concat (map TextMessageFormat_write ms)) = Inr ms"
  using assms last_records [OF assms(1), of RecordSeparator]
  by (auto simp: TextMessageFormat_parse_def TextMessageFormat_write_eq split_on_records Let_def neq_Nil_conv)

lemma TextMessageFormat_parse_sound:
  assumes "TextMessageFormat_parse s = Inr ms"
  shows "list_all (\<lambda>m. RecordSeparator \<notin> set m) ms \<and> concat (map TextMessageFormat_write ms) = s"
proof -
  from assms have ms: "ms = butlast (split_on RecordSeparator s)" and "s \<noteq> []" "last s = RecordSeparator"
    by (auto simp: TextMessageFormat_parse_def Let_def split: if_splits)
  then obtain t where "s = t @ [RecordSeparator]" by (metis append_butlast_last_id)
  then have "last (split_on RecordSeparator s) = []" by (simp add: split_on_snoc)
  with records_of_split [of RecordSeparator s] ms show ?thesis
    by (auto simp: list_all_iff TextMessageFormat_write_eq dest: in_set_butlastD split_on_parts)
qed

interpretation tmf: framing TextMessageFormat_write TextMessageFormat_parse "\<lambda>m. RecordSeparator \<notin> set m"
  by unfold_locales (use TextMessageFormat_parse_write TextMessageFormat_parse_sound in blast)+


section \<open>The JSON hub protocol reads back what it writes\<close>

text \<open>The messages \<^verbatim>\<open>parseMessages\<close> keeps, among those JSON can carry.\<close>

definition valid_message :: "jsval \<Rightarrow> bool" where
  "valid_message m \<longleftrightarrow> jsonable m \<and> checkMessage m = Inr True"

lemma separator_not_printable: "printable t \<Longrightarrow> RecordSeparator \<notin> set t"
  by (auto simp: printable_def RecordSeparator_def)

lemma printable_template: "printable (stringify_template v)"
  by (auto simp: stringify_template_def printable_stringify split: option.split)

lemma record_of_message: "RecordSeparator \<notin> set (stringify_template v)"
  by (rule separator_not_printable) (rule printable_template)

lemma JSON_parse_template: "jsonable v \<Longrightarrow> JSON_parse (stringify_template v) = Inr v"
  using JSON_roundtrip [of v] by (auto simp: stringify_template_def)

definition kept :: "jsval \<Rightarrow> bool" where
  "kept m \<longleftrightarrow> checkMessage m = Inr True"

lemma parse_loop_messages:
  assumes "list_all jsonable ms" and "list_all (\<lambda>m. \<exists>b. checkMessage m = Inr b) ms"
  shows "parse_loop (map stringify_template ms) log acc =
    (log @ map unknown_type_log (filter (\<lambda>m. \<not> kept m) ms), Inr (acc @ filter kept ms))"
  using assms
proof (induction ms arbitrary: log acc)
  case (Cons m ms)
  then obtain b where b: "checkMessage m = Inr b" by auto
  with Cons show ?case by (cases b) (simp_all add: JSON_parse_template kept_def)
qed simp

lemma TextMessageFormat_parse_messages:
  "ms \<noteq> [] \<Longrightarrow> TextMessageFormat_parse (concat (map writeMessage ms)) = Inr (map stringify_template ms)"
  using tmf.unframe_frames [of "map stringify_template ms"]
  by (simp add: list_all_iff record_of_message comp_def writeMessage_def [abs_def])

lemma writeMessage_not_Nil [simp]: "writeMessage m \<noteq> []"
  by (simp add: writeMessage_def TextMessageFormat_write_def)

lemma parseMessages_of_writes:
  assumes "list_all jsonable ms" and "list_all (\<lambda>m. \<exists>b. checkMessage m = Inr b) ms"
  shows "parseMessages (JStr (concat (map writeMessage ms))) =
    (map unknown_type_log (filter (\<lambda>m. \<not> kept m) ms), Inr (filter kept ms))"
proof (cases "ms = []")
  case False
  with parse_loop_messages [OF assms, of "[]" "[]"] show ?thesis
    by (auto simp: parseMessages_def TextMessageFormat_parse_messages neq_Nil_conv)
qed (simp add: parseMessages_def)

lemma valid_messages_split:
  "list_all valid_message ms \<Longrightarrow>
     list_all jsonable ms \<and> list_all (\<lambda>m. \<exists>b. checkMessage m = Inr b) ms \<and> filter kept ms = ms \<and>
     filter (\<lambda>m. \<not> kept m) ms = []"
  by (induction ms) (auto simp: valid_message_def kept_def)

lemma concat_map_concat: "concat (map (\<lambda>b. concat (map f b)) bs) = concat (map f (concat bs))"
  by (induction bs) simp_all

text \<open>What a hub connection relies on in the protocol it is given.\<close>

locale hub_protocol =
  fixes pwrite :: "jsval \<Rightarrow> string"
    and pparse :: "string \<Rightarrow> jsval list result"
    and ok :: "jsval \<Rightarrow> bool"
  assumes parse_writes: "list_all ok ms \<Longrightarrow> pparse (concat (map pwrite ms)) = Inr ms"
begin

lemma parse_single: "ok m \<Longrightarrow> pparse (pwrite m) = Inr [m]"
  using parse_writes [of "[m]"] by simp

lemma write_inj: "ok m \<Longrightarrow> ok n \<Longrightarrow> pwrite m = pwrite n \<Longrightarrow> m = n"
  using parse_single by (metis list.inject sum.inject(2))

lemma parse_batches:
  "list_all (list_all ok) bs \<Longrightarrow> pparse (concat (map (\<lambda>b. concat (map pwrite b)) bs)) = Inr (concat bs)"
  using parse_writes [of "concat bs"] by (simp add: list_all_iff concat_map_concat)

end

interpretation json: hub_protocol writeMessage "\<lambda>t. snd (parseMessages (JStr t))" valid_message
  by unfold_locales (use valid_messages_split in \<open>simp add: parseMessages_of_writes\<close>)

section \<open>What the parser accepts\<close>

fun well_formed :: "jsval \<Rightarrow> bool" where
  "well_formed (JObj ps) =
     (case obj_get ps ''type'' of
        Some (JNum n) \<Rightarrow>
          if n = 1 then
            (\<exists>t. obj_get ps ''target'' = Some (JStr t) \<and> t \<noteq> []) \<and>
            (obj_get ps ''invocationId'' \<in> {None, Some JUndef} \<or> (\<exists>i. obj_get ps ''invocationId'' = Some (JStr i) \<and> i \<noteq> []))
          else if n = 2 then
            (\<exists>i. obj_get ps ''invocationId'' = Some (JStr i) \<and> i \<noteq> []) \<and> obj_get ps ''item'' \<notin> {None, Some JUndef}
          else if n = 3 then
            (\<exists>i. obj_get ps ''invocationId'' = Some (JStr i) \<and> i \<noteq> []) \<and>
            (case obj_get ps ''error'' of
               None \<Rightarrow> True
             | Some e \<Rightarrow> truthy e \<longrightarrow> (\<exists>m. e = JStr m) \<and> (case obj_get ps ''result'' of None \<Rightarrow> True | Some r \<Rightarrow> \<not> truthy r))
          else n = 6 \<or> n = 7
      | _ \<Rightarrow> False)"
| "well_formed _ = False"

lemma assertNotEmptyString_Inr: "assertNotEmptyString v m = Inr u \<longleftrightarrow> (\<exists>s. v = JStr s \<and> s \<noteq> [])"
  by (cases v) (auto simp: assertNotEmptyString_def)

lemma get_prop_type_num: "get_prop v ''type'' = Inr (JNum n) \<Longrightarrow> \<exists>ps. v = JObj ps \<and> obj_get ps ''type'' = Some (JNum n)"
  by (cases v) (auto split: option.splits)

lemma isInvocationMessage_ok:
  "isInvocationMessage (JObj ps) = Inr u \<longleftrightarrow>
     (\<exists>t. obj_get ps ''target'' = Some (JStr t) \<and> t \<noteq> []) \<and>
     (obj_get ps ''invocationId'' \<in> {None, Some JUndef} \<or> (\<exists>i. obj_get ps ''invocationId'' = Some (JStr i) \<and> i \<noteq> []))"
  by (auto simp: isInvocationMessage_def rbind_Inr_iff assertNotEmptyString_Inr split: option.splits)

lemma isStreamItemMessage_ok:
  "isStreamItemMessage (JObj ps) = Inr u \<longleftrightarrow>
     (\<exists>i. obj_get ps ''invocationId'' = Some (JStr i) \<and> i \<noteq> []) \<and> obj_get ps ''item'' \<notin> {None, Some JUndef}"
  by (auto simp: isStreamItemMessage_def rbind_Inr_iff assertNotEmptyString_Inr split: option.splits if_splits)

abbreviation prop_or_undef :: "jsobj \<Rightarrow> string \<Rightarrow> jsval" where
  "prop_or_undef ps k \<equiv> (case obj_get ps k of None \<Rightarrow> JUndef | Some v \<Rightarrow> v)"

lemma isCompletionMessage_eq:
  "isCompletionMessage (JObj ps) = Inr u \<longleftrightarrow>
     (\<exists>i. prop_or_undef ps ''invocationId'' = JStr i \<and> i \<noteq> []) \<and>
     (truthy (prop_or_undef ps ''error'') \<longrightarrow>
        (\<exists>m. prop_or_undef ps ''error'' = JStr m) \<and> \<not> truthy (prop_or_undef ps ''result''))"
proof -
  define r e i where rei: "r = prop_or_undef ps ''result''" "e = prop_or_undef ps ''error''"
    "i = prop_or_undef ps ''invocationId''"
  have "isCompletionMessage (JObj ps) =
    (if truthy r \<and> truthy e then Inl (Error ''Invalid payload for Completion message.'')
     else if \<not> truthy r \<and> truthy e then
       rbind (assertNotEmptyString e ''Invalid payload for Completion message.'')
         (\<lambda>_. assertNotEmptyString i ''Invalid payload for Completion message.'')
     else assertNotEmptyString i ''Invalid payload for Completion message.'')"
    by (simp add: isCompletionMessage_def rei)
  then have "isCompletionMessage (JObj ps) = Inr u \<longleftrightarrow>
      (\<exists>s. i = JStr s \<and> s \<noteq> []) \<and> (truthy e \<longrightarrow> (\<exists>m. e = JStr m) \<and> \<not> truthy r)"
    by (cases "truthy r"; cases e) (simp_all add: rbind_Inr_iff assertNotEmptyString_Inr)
  then show ?thesis by (simp only: rei)
qed

lemma isCompletionMessage_ok:
  "isCompletionMessage (JObj ps) = Inr u \<longleftrightarrow>
     (\<exists>i. obj_get ps ''invocationId'' = Some (JStr i) \<and> i \<noteq> []) \<and>
     (case obj_get ps ''error'' of
        None \<Rightarrow> True
      | Some e \<Rightarrow> truthy e \<longrightarrow> (\<exists>m. e = JStr m) \<and> (case obj_get ps ''result'' of None \<Rightarrow> True | Some r \<Rightarrow> \<not> truthy r))"
  unfolding isCompletionMessage_eq
  by (cases "obj_get ps ''result''"; cases "obj_get ps ''error''"; cases "obj_get ps ''invocationId''") simp_all

lemma checkMessage_kept_iff: "kept m \<longleftrightarrow> well_formed m"
proof (cases "\<exists>n. get_prop m ''type'' = Inr (JNum n)")
  case True
  then obtain n ps where "m = JObj ps" "obj_get ps ''type'' = Some (JNum n)"
    using get_prop_type_num by blast
  then show ?thesis
    by (simp add: kept_def checkMessage_def MT_defs rbind_Inr_iff isInvocationMessage_ok [where u = "()"]
        isStreamItemMessage_ok [where u = "()"] isCompletionMessage_ok [where u = "()"])
next
  case False
  then show ?thesis
    by (cases m) (auto simp: kept_def checkMessage_def rbind_Inr_iff split: jsval.splits option.splits)
qed

lemma parse_loop_sound:
  "snd (parse_loop ts log acc) = Inr ms \<Longrightarrow> list_all kept acc \<Longrightarrow> list_all kept ms"
proof (induction ts log acc rule: parse_loop.induct)
  case (2 t ts log acc)
  then show ?case by (auto simp: kept_def split: sum.splits bool.splits)
qed simp

lemma parseMessages_kept: "snd (parseMessages d) = Inr ms \<Longrightarrow> list_all kept ms"
  by (auto simp: parseMessages_def split: jsval.splits if_splits sum.splits dest: parse_loop_sound)

section \<open>Handshake\<close>

lemma take_length_Suc: "take (length a + 1) (a @ c # r) = a @ [c]" "drop (length a + 1) (a @ c # r) = r"
  by simp_all

lemma handshake_split_text:
  assumes "RecordSeparator \<notin> set m"
  shows "handshake_split (JStr (TextMessageFormat_write m @ rest)) =
    Inr (TextMessageFormat_write m, if rest = [] then JNull else JStr rest)"
  using assms index_of_single_append [of RecordSeparator m rest]
  by (simp add: handshake_split_def TextMessageFormat_write_def Let_def)

lemma parseHandshake_record:
  assumes "jsonable resp" and "get_prop resp ''type'' = Inr t" and "\<not> truthy t"
    and "handshake_split data = Inr (TextMessageFormat_write (stringify_template resp), rest)"
  shows "parseHandshakeResponse data = Inr (rest, resp)"
  using assms tmf.unframe_frames [of "[stringify_template resp]"]
  by (simp add: parseHandshakeResponse_def record_of_message JSON_parse_template)

text \<open>The bytes a text is encoded as (the part of UTF-8 below code unit 128).\<close>

definition text_bytes :: "string \<Rightarrow> 8 word list" where
  "text_bytes s = map of_char s"

lemma unat_of_char_byte: "unat (of_char c :: 8 word) = of_char c"
proof -
  have "(of_char c :: 8 word) = of_nat (of_char c)" by (simp add: of_nat_of_char)
  moreover have "(of_char c :: nat) < 2 ^ LENGTH(8)" by simp
  ultimately show ?thesis by (simp add: unsigned_of_nat take_bit_nat_eq_self)
qed

lemma char_byte_inverse: "char_of_byte (of_char c) = c"
  by (simp add: char_of_byte_def unat_of_char_byte)

lemma of_char_byte_inj: "(of_char c :: 8 word) = of_char d \<longleftrightarrow> c = d"
  by (metis char_byte_inverse)

lemma text_bytes_inverse: "map char_of_byte (text_bytes s) = s"
  by (induction s) (simp_all add: text_bytes_def char_byte_inverse)

lemma separator_byte: "(of_char RecordSeparator :: 8 word) = RecordSeparatorCode"
  by (simp add: RecordSeparator_def RecordSeparatorCode_def)

lemma separator_notin_bytes: "RecordSeparator \<notin> set m \<Longrightarrow> RecordSeparatorCode \<notin> set (text_bytes m)"
  by (auto simp: text_bytes_def separator_byte [symmetric] of_char_byte_inj)

lemma handshake_split_binary:
  assumes "RecordSeparator \<notin> set m"
  shows "handshake_split (JBuf (text_bytes (TextMessageFormat_write m) @ rest)) =
    Inr (TextMessageFormat_write m, if rest = [] then JNull else JBuf rest)"
proof -
  let ?b = "text_bytes m @ RecordSeparatorCode # rest"
  have data: "text_bytes (TextMessageFormat_write m) @ rest = ?b"
    by (simp add: TextMessageFormat_write_def text_bytes_def separator_byte)
  have "index_of ?b [RecordSeparatorCode] = Some (length (text_bytes m))"
    using separator_notin_bytes [OF assms] by (rule index_of_single_append)
  moreover have "map char_of_byte (text_bytes m @ [RecordSeparatorCode]) = TextMessageFormat_write m"
    by (simp add: text_bytes_inverse TextMessageFormat_write_def separator_byte [symmetric] char_byte_inverse)
  ultimately show ?thesis
    unfolding data by (simp add: handshake_split_def Let_def)
qed

section \<open>Properties\<close>

text \<open>
  C4: \<^verbatim>\<open>parseMessages\<close> inverts \<^verbatim>\<open>writeMessage\<close> on every batch of valid messages: any number of hub
  messages written one after the other is read back as the same messages in the same order, with
  nothing logged.
\<close>

theorem hub_messages_roundtrip:
  assumes "list_all valid_message ms"
  shows "parseMessages (JStr (concat (map writeMessage ms))) = ([], Inr ms)"
  using valid_messages_split [OF assms] by (simp add: parseMessages_of_writes)

theorem hub_messages_roundtrip_witness:
  "parseMessages (JStr (concat (map writeMessage
      [JObj [(''type'', JNum 6)], JObj [(''type'', JNum 1), (''target'', JStr ''cmd''), (''arguments'', JArr [JNum 5])]]))) =
   ([], Inr [JObj [(''type'', JNum 6)], JObj [(''type'', JNum 1), (''target'', JStr ''cmd''), (''arguments'', JArr [JNum 5])]])"
  by (rule hub_messages_roundtrip)
    (simp add: valid_message_def checkMessage_def MT_defs isInvocationMessage_def assertNotEmptyString_def)

text \<open>
  the message validation is exact. A received record is kept precisely when it is an object with a
  numeric type that is an invocation with a non-empty target and no or a non-empty invocation id, a
  stream item with an id and an item, a completion with an id and at most one of result and error, a
  ping or a close; and every message \<^verbatim>\<open>parseMessages\<close> returns is of that form.
\<close>

theorem parseMessages_validates:
  "(checkMessage m = Inr True \<longleftrightarrow> well_formed m) \<and>
   (snd (parseMessages d) = Inr ms \<longrightarrow> list_all well_formed ms)"
  using checkMessage_kept_iff parseMessages_kept [of d ms] by (auto simp: kept_def list_all_iff)

theorem parseMessages_validates_witness:
  "snd (parseMessages (JStr [])) = Inr [] \<and> list_all well_formed []"
  using parseMessages_validates [of JNull "JStr []" "[]"] by (simp add: parseMessages_def)

text \<open>
  the record format is exact: \<^verbatim>\<open>TextMessageFormat.parse\<close> returns the records of a text precisely when
  the text is a non-empty sequence of separator-free records, each followed by the separator; every
  other text is refused as incomplete.
\<close>

theorem text_message_format_exact:
  "(TextMessageFormat_parse s = Inr ms \<longleftrightarrow>
      ms \<noteq> [] \<and> list_all (\<lambda>m. RecordSeparator \<notin> set m) ms \<and> s = concat (map TextMessageFormat_write ms)) \<and>
   ((\<forall>r. TextMessageFormat_parse s \<noteq> Inr r) \<longrightarrow> TextMessageFormat_parse s = Inl (Error ''Message is incomplete.''))"
proof -
  have "ms \<noteq> []" if "TextMessageFormat_parse s = Inr ms"
    using that TextMessageFormat_parse_sound [OF that] by (auto simp: TextMessageFormat_parse_def split: if_splits)
  moreover have "TextMessageFormat_parse s = Inl (Error ''Message is incomplete.'') \<or> (\<exists>r. TextMessageFormat_parse s = Inr r)"
    by (simp add: TextMessageFormat_parse_def Let_def)
  ultimately show ?thesis
    using tmf.unframe_frames [of ms] tmf.unframe_sound [of s ms] by auto
qed

theorem text_message_format_exact_witness:
  "TextMessageFormat_parse ''x'' = Inl (Error ''Message is incomplete.'') \<and>
   TextMessageFormat_parse (''x'' @ [RecordSeparator]) = Inr [''x'']"
proof -
  have "\<forall>r. TextMessageFormat_parse ''x'' \<noteq> Inr r"
    by (simp add: TextMessageFormat_parse_def RecordSeparator_def)
  with text_message_format_exact [of "''x''"] text_message_format_exact [of "''x'' @ [RecordSeparator]" "[''x'']"]
  show ?thesis by (simp add: TextMessageFormat_write_def RecordSeparator_def)
qed

text \<open>
  the handshake response is separated from the messages that follow it in the same piece of data,
  as text and as bytes alike: the response is parsed back and the rest is returned untouched (\<^verbatim>\<open>null\<close>
  when there is none).
\<close>

theorem handshake_response_split:
  assumes "jsonable resp" and "get_prop resp ''type'' = Inr t" and "\<not> truthy t"
  shows "parseHandshakeResponse (JStr (TextMessageFormat_write (stringify_template resp) @ rest)) =
      Inr (if rest = [] then JNull else JStr rest, resp) \<and>
    parseHandshakeResponse (JBuf (text_bytes (TextMessageFormat_write (stringify_template resp)) @ brest)) =
      Inr (if brest = [] then JNull else JBuf brest, resp)"
  using parseHandshake_record [OF assms handshake_split_text [OF record_of_message]]
    parseHandshake_record [OF assms handshake_split_binary [OF record_of_message]] by simp_all

theorem handshake_response_split_witness:
  "parseHandshakeResponse (JStr (TextMessageFormat_write (stringify_template (JObj [])) @ ''x'')) = Inr (JStr ''x'', JObj []) \<and>
   parseHandshakeResponse (JBuf (text_bytes (TextMessageFormat_write (stringify_template (JObj []))) @ [])) = Inr (JNull, JObj [])"
  using handshake_response_split [of "JObj []" JUndef "''x''" "[]"] by (simp del: append.simps)

end
