(* ===== verification/Sr_HubMessages.thy ===== *)
theory Sr_HubMessages
  imports Sr_Protocol
begin

text \<open>
  The parts of HubConnection.ts that do not depend on the state of the connection: the messages it
  builds, the replacement of streaming arguments, the table of client methods (\<^verbatim>\<open>on\<close>, \<^verbatim>\<open>off\<close>), the
  result of a client method call; Subject.ts with the subscription of Utils.ts; and
  DefaultReconnectPolicy.ts behind the interface \<open>retry_policy\<close>.
\<close>

section \<open>Messages\<close>

definition invocation_object :: "jsval list \<Rightarrow> nat option \<Rightarrow> string list \<Rightarrow> string \<Rightarrow> int \<Rightarrow> jsval" where
  "invocation_object args invocationId streamIds methodName mtype =
     JObj ([(''arguments'', JArr args)]
           @ (case invocationId of None \<Rightarrow> [] | Some i \<Rightarrow> [(''invocationId'', JStr (nat_digits i))])
           @ (if length streamIds \<noteq> 0 then [(''streamIds'', JArr (map JStr streamIds))] else [])
           @ [(''target'', JStr methodName), (''type'', JNum mtype)])"

text \<open>\<^verbatim>\<open>_invocationId\<close> is passed in and returned; a non-blocking invocation does not use one.\<close>

definition createInvocation :: "nat \<Rightarrow> string \<Rightarrow> jsval list \<Rightarrow> bool \<Rightarrow> string list \<Rightarrow> jsval \<times> nat" where
  "createInvocation next_id methodName args nonblocking streamIds =
     (if nonblocking then (invocation_object args None streamIds methodName MT_Invocation, next_id)
      else (invocation_object args (Some next_id) streamIds methodName MT_Invocation, Suc next_id))"

definition createStreamInvocation :: "nat \<Rightarrow> string \<Rightarrow> jsval list \<Rightarrow> string list \<Rightarrow> jsval \<times> nat" where
  "createStreamInvocation next_id methodName args streamIds =
     (invocation_object args (Some next_id) streamIds methodName MT_StreamInvocation, Suc next_id)"

definition createCancelInvocation :: "string \<Rightarrow> jsval" where
  "createCancelInvocation i = JObj [(''invocationId'', JStr i), (''type'', JNum MT_CancelInvocation)]"

definition createStreamItemMessage :: "string \<Rightarrow> jsval \<Rightarrow> jsval" where
  "createStreamItemMessage i item = JObj [(''invocationId'', JStr i), (''item'', item), (''type'', JNum MT_StreamItem)]"

definition createCompletionMessage :: "string \<Rightarrow> jsval \<Rightarrow> jsval \<Rightarrow> jsval" where
  "createCompletionMessage i error result =
     (if truthy error then JObj [(''error'', error), (''invocationId'', JStr i), (''type'', JNum MT_Completion)]
      else JObj [(''invocationId'', JStr i), (''result'', result), (''type'', JNum MT_Completion)])"

section \<open>Streaming arguments\<close>

definition isObservable :: "jsval \<Rightarrow> bool" where
  "isObservable arg =
     (truthy arg \<and> (case get_prop arg ''subscribe'' of Inr s \<Rightarrow> truthy s \<and> js_typeof s = ''function'' | Inl _ \<Rightarrow> False))"

record replaced =
  rp_streams :: "(nat \<times> jsval) list"
  rp_streamIds :: "string list"
  rp_args :: "jsval list"
  rp_next :: nat

text \<open>
  The loop of \<^verbatim>\<open>_replaceStreamingParams\<close>: \<^verbatim>\<open>args.splice(i, 1)\<close> removes the argument and \<^verbatim>\<open>i\<close> moves on.
  A stream's position in \<^verbatim>\<open>streams\<close> is its id.
\<close>

function replace_loop :: "nat \<Rightarrow> replaced \<Rightarrow> replaced" where
  "replace_loop i r =
     (if i < length (rp_args r) then
        (let argument = rp_args r ! i in
         if isObservable argument then
           replace_loop (Suc i)
             (r\<lparr>rp_streams := rp_streams r @ [(rp_next r, argument)],
                rp_streamIds := rp_streamIds r @ [nat_digits (rp_next r)],
                rp_args := take i (rp_args r) @ drop (Suc i) (rp_args r),
                rp_next := Suc (rp_next r)\<rparr>)
         else replace_loop (Suc i) r)
      else r)"
  by auto
termination
  by (relation "measure (\<lambda>(i, r). length (rp_args r) - i)") auto

declare replace_loop.simps [simp del]

definition replaceStreamingParams :: "nat \<Rightarrow> jsval list \<Rightarrow> replaced" where
  "replaceStreamingParams next_id args =
     replace_loop 0 \<lparr>rp_streams = [], rp_streamIds = [], rp_args = args, rp_next = next_id\<rparr>"

text \<open>The message a failed upload stream is completed with; the error is an error object or a value.\<close>

definition upload_error_message :: "js_error + jsval \<Rightarrow> string" where
  "upload_error_message err =
     (case err of
        Inl e \<Rightarrow> if is_error e then err_message e
                 else if err_to_string e \<noteq> [] then err_to_string e else ''Unknown error''
      | Inr v \<Rightarrow> if truthy v then js_to_string v else ''Unknown error'')"

section \<open>Client methods\<close>

text \<open>
  The table \<^verbatim>\<open>_methods\<close> is a plain object, so a lower-case name its prototype has is found there though
  it was never registered; the value is not an array and calling \<^verbatim>\<open>indexOf\<close> or \<^verbatim>\<open>slice\<close> on it throws.
\<close>

type_synonym method_table = "(string \<times> nat list) list"

definition inherited_name :: "string \<Rightarrow> bool" where
  "inherited_name k \<longleftrightarrow> k \<in> {''constructor'', ''__proto__''}"

definition not_a_function :: "string \<Rightarrow> js_error" where
  "not_a_function e = TypeError (e @ '' is not a function'')"

definition hub_on :: "string \<Rightarrow> nat option \<Rightarrow> method_table \<Rightarrow> method_table result" where
  "hub_on methodName newMethod tbl =
     (case newMethod of
        None \<Rightarrow> Inr tbl
      | Some f \<Rightarrow>
          if methodName = [] then Inr tbl
          else (let name = toLowerCase methodName in
                case obj_get tbl name of
                  None \<Rightarrow> if inherited_name name then Inl (not_a_function ''this._methods[methodName].indexOf'')
                          else Inr (obj_set name [f] tbl)
                | Some handlers \<Rightarrow> if f \<in> set handlers then Inr tbl else Inr (obj_set name (handlers @ [f]) tbl)))"

definition hub_off :: "string \<Rightarrow> nat option \<Rightarrow> method_table \<Rightarrow> method_table result" where
  "hub_off methodName method tbl =
     (if methodName = [] then Inr tbl
      else (let name = toLowerCase methodName in
            case obj_get tbl name of
              None \<Rightarrow> if inherited_name name \<and> method \<noteq> None then Inl (not_a_function ''handlers.indexOf'') else Inr tbl
            | Some handlers \<Rightarrow>
                (case method of
                   None \<Rightarrow> Inr (obj_del name tbl)
                 | Some f \<Rightarrow>
                     if f \<in> set handlers then
                       (let handlers' = remove1 f handlers in
                        if length handlers' = 0 then Inr (obj_del name tbl) else Inr (obj_set name handlers' tbl))
                     else Inr tbl)))"

text \<open>
  \<^verbatim>\<open>_invokeClientMethod\<close>: the local variables of its loop, the effect of one handler's outcome, and the
  completion message it ends with. \<open>invocationId\<close> is empty when the server expects no response.
\<close>

record method_call =
  mc_name :: string
  mc_invocationId :: string
  mc_res :: jsval
  mc_exception :: "js_error option"
  mc_completion :: "jsval option"
  mc_log :: "log_entry list"

definition method_call_start :: "string \<Rightarrow> string \<Rightarrow> method_call" where
  "method_call_start methodName invocationId =
     \<lparr>mc_name = methodName, mc_invocationId = invocationId, mc_res = JUndef, mc_exception = None,
      mc_completion = None, mc_log = []\<rparr>"

definition expectsResponse :: "method_call \<Rightarrow> bool" where
  "expectsResponse mc \<longleftrightarrow> mc_invocationId mc \<noteq> []"

definition method_outcome :: "jsval result \<Rightarrow> method_call \<Rightarrow> method_call" where
  "method_outcome outcome mc =
     (case outcome of
        Inl e \<Rightarrow>
          mc\<lparr>mc_exception := Some e,
             mc_log := mc_log mc @ [(LError, ''A callback for the method '' @ sq (mc_name mc) @ '' threw error '' @ sq (err_to_string e) @ ''.'')]\<rparr>
      | Inr v \<Rightarrow>
          (let prevRes = mc_res mc; mc1 = mc\<lparr>mc_res := v\<rparr>;
               mc2 = (if expectsResponse mc \<and> truthy v \<and> truthy prevRes then
                        mc1\<lparr>mc_completion := Some (createCompletionMessage (mc_invocationId mc) (JStr ''Client provided multiple results.'') JNull),
                            mc_log := mc_log mc1 @ [(LError, ''Multiple results provided for '' @ sq (mc_name mc) @ ''. Sending error to server.'')]\<rparr>
                      else mc1)
           in mc2\<lparr>mc_exception := None\<rparr>))"

definition no_result_log :: "string \<Rightarrow> string \<Rightarrow> log_entry" where
  "no_result_log methodName invocationId =
     (LWarning, ''No result given for '' @ sq methodName @ '' method and invocation ID '' @ sq invocationId @ ''.'')"

definition no_result_text :: string where
  "no_result_text = ''Client didn'' @ [CHR 0x27] @ ''t provide a result.''"

text \<open>A thrown empty string is falsy and counts as no exception.\<close>

definition exception_truthy :: "js_error option \<Rightarrow> bool" where
  "exception_truthy e \<longleftrightarrow> e \<noteq> None \<and> e \<noteq> Some (ThrownString [])"

text \<open>After the loop: the message sent to the server, if any, and what is logged.\<close>

definition method_finish :: "method_call \<Rightarrow> jsval option \<times> log_entry list" where
  "method_finish mc =
     (case mc_completion mc of
        Some c \<Rightarrow> (Some c, mc_log mc)
      | None \<Rightarrow>
          if expectsResponse mc then
            (if exception_truthy (mc_exception mc) then
               (Some (createCompletionMessage (mc_invocationId mc) (JStr (opt_err_to_string (mc_exception mc))) JNull), mc_log mc)
             else if mc_res mc \<noteq> JUndef then
               (Some (createCompletionMessage (mc_invocationId mc) JNull (mc_res mc)), mc_log mc)
             else (Some (createCompletionMessage (mc_invocationId mc) (JStr no_result_text) JNull),
                   mc_log mc @ [no_result_log (mc_name mc) (mc_invocationId mc)]))
          else (None, if truthy (mc_res mc)
                      then mc_log mc @ [(LError, ''Result given for '' @ sq (mc_name mc) @ '' method but server is not expecting a result.'')]
                      else mc_log mc))"

text \<open>No handler is registered under the name.\<close>

definition method_missing :: "string \<Rightarrow> string \<Rightarrow> jsval option \<times> log_entry list" where
  "method_missing methodName invocationId =
     (if invocationId \<noteq> [] then
        (Some (createCompletionMessage invocationId (JStr no_result_text) JNull),
         [(LWarning, ''No client method with the name '' @ sq methodName @ '' found.''), no_result_log methodName invocationId])
      else (None, [(LWarning, ''No client method with the name '' @ sq methodName @ '' found.'')]))"

section \<open>DefaultReconnectPolicy.ts\<close>

definition DEFAULT_RETRY_DELAYS_IN_MILLISECONDS :: "jsval list" where
  "DEFAULT_RETRY_DELAYS_IN_MILLISECONDS = [JNum 0, JNum 2000, JNum 10000, JNum 30000, JNull]"

definition DefaultReconnectPolicy_new :: "jsval list option \<Rightarrow> jsval list" where
  "DefaultReconnectPolicy_new retryDelays =
     (case retryDelays of Some ds \<Rightarrow> ds @ [JNull] | None \<Rightarrow> DEFAULT_RETRY_DELAYS_IN_MILLISECONDS)"

text \<open>An index past the end of the array reads \<^verbatim>\<open>undefined\<close>.\<close>

definition DefaultReconnectPolicy_next :: "jsval list \<Rightarrow> nat \<Rightarrow> jsval" where
  "DefaultReconnectPolicy_next delays previousRetryCount =
     (if previousRetryCount < length delays then delays ! previousRetryCount else JUndef)"

section \<open>Subject.ts and SubjectSubscription\<close>

record observer =
  ob_id :: nat
  ob_has_error :: bool
  ob_has_complete :: bool

text \<open>\<open>sj_cancelled\<close> counts the calls of \<^verbatim>\<open>cancelCallback\<close>, when the subject has one.\<close>

record subject =
  sj_observers :: "observer list"
  sj_has_cancel :: bool
  sj_cancelled :: nat

definition Subject_new :: subject where
  "Subject_new = \<lparr>sj_observers = [], sj_has_cancel = False, sj_cancelled = 0\<rparr>"

definition Subject_subscribe :: "observer \<Rightarrow> subject \<Rightarrow> subject" where
  "Subject_subscribe ob s = s\<lparr>sj_observers := sj_observers s @ [ob]\<rparr>"

definition SubjectSubscription_dispose :: "observer \<Rightarrow> subject \<Rightarrow> subject" where
  "SubjectSubscription_dispose ob s =
     (let s1 = s\<lparr>sj_observers := remove1 ob (sj_observers s)\<rparr> in
      if length (sj_observers s1) = 0 \<and> sj_has_cancel s1 then s1\<lparr>sj_cancelled := Suc (sj_cancelled s1)\<rparr> else s1)"

text \<open>
  What an observer's method does to the subject while it runs. The loops iterate over the live array
  by position; \<open>fuel\<close> bounds the number of turns, since a method that subscribes may go on for ever.
\<close>

datatype subject_op = SubscribeOp observer | DisposeOp observer

fun apply_op :: "subject_op \<Rightarrow> subject \<Rightarrow> subject" where
  "apply_op (SubscribeOp ob) s = Subject_subscribe ob s"
| "apply_op (DisposeOp ob) s = SubjectSubscription_dispose ob s"

fun notify :: "nat \<Rightarrow> (observer \<Rightarrow> bool) \<Rightarrow> (observer \<Rightarrow> subject_op list) \<Rightarrow> nat \<Rightarrow> subject \<Rightarrow> (subject \<times> observer list) option" where
  "notify 0 has react i s = None"
| "notify (Suc fuel) has react i s =
     (if i < length (sj_observers s) then
        (let ob = sj_observers s ! i in
         if has ob then map_option (apsnd ((#) ob)) (notify fuel has react (Suc i) (fold apply_op (react ob) s))
         else notify fuel has react (Suc i) s)
      else Some (s, []))"

text \<open>The observers called, in order.\<close>

definition Subject_next :: "nat \<Rightarrow> (observer \<Rightarrow> subject_op list) \<Rightarrow> subject \<Rightarrow> (subject \<times> observer list) option" where
  "Subject_next fuel react s = notify fuel (\<lambda>_. True) react 0 s"

definition Subject_error :: "nat \<Rightarrow> (observer \<Rightarrow> subject_op list) \<Rightarrow> subject \<Rightarrow> (subject \<times> observer list) option" where
  "Subject_error fuel react s = notify fuel ob_has_error react 0 s"

definition Subject_complete :: "nat \<Rightarrow> (observer \<Rightarrow> subject_op list) \<Rightarrow> subject \<Rightarrow> (subject \<times> observer list) option" where
  "Subject_complete fuel react s = notify fuel ob_has_complete react 0 s"

section \<open>The table of client methods\<close>

text \<open>
  A table of handlers by name: what a client of \<^verbatim>\<open>on\<close> and \<^verbatim>\<open>off\<close> relies on. \<open>canon\<close> identifies the names
  that mean the same entry.
\<close>

locale handler_table =
  fixes inv :: "'t \<Rightarrow> bool"
    and handlers :: "'t \<Rightarrow> 'k \<Rightarrow> 'f list"
    and add :: "'k \<Rightarrow> 'f \<Rightarrow> 't \<Rightarrow> 't"
    and remove :: "'k \<Rightarrow> 'f \<Rightarrow> 't \<Rightarrow> 't"
    and canon :: "'k \<Rightarrow> 'k"
    and ok :: "'k \<Rightarrow> bool"
  assumes inv_add: "inv t \<Longrightarrow> inv (add k f t)"
    and inv_remove: "inv t \<Longrightarrow> inv (remove k f t)"
    and distinct_handlers: "inv t \<Longrightarrow> distinct (handlers t k)"
    and handlers_add: "inv t \<Longrightarrow> ok k \<Longrightarrow> handlers (add k f t) k' =
      (if canon k' = canon k \<and> f \<notin> set (handlers t k') then handlers t k' @ [f] else handlers t k')"
    and handlers_remove: "inv t \<Longrightarrow> ok k \<Longrightarrow> handlers (remove k f t) k' =
      (if canon k' = canon k then remove1 f (handlers t k') else handlers t k')"
begin

text \<open>A sequence of registrations (\<open>True\<close>) and removals (\<open>False\<close>).\<close>

fun table_run :: "(bool \<times> 'k \<times> 'f) list \<Rightarrow> 't \<Rightarrow> 't" where
  "table_run [] t = t"
| "table_run ((b, k, f) # ops) t = table_run ops (if b then add k f t else remove k f t)"

fun registered :: "(bool \<times> 'k \<times> 'f) list \<Rightarrow> 'k \<Rightarrow> 'f \<Rightarrow> bool \<Rightarrow> bool" where
  "registered [] k f r = r"
| "registered ((b, k', f') # ops) k f r = registered ops k f (if canon k' = canon k \<and> f' = f then b else r)"

lemma table_run_registered:
  "inv t \<Longrightarrow> list_all (\<lambda>(b, k, f). ok k) ops \<Longrightarrow> inv (table_run ops t) \<and> (f \<in> set (handlers (table_run ops t) k) \<longleftrightarrow> registered ops k f (f \<in> set (handlers t k)))"
proof (induction ops arbitrary: t)
  case (Cons op ops)
  obtain b k' f' where op: "op = (b, k', f')" by (cases op)
  let ?t = "if b then add k' f' t else remove k' f' t"
  have inv: "inv ?t" and ok: "ok k'" using Cons.prems by (simp_all add: op inv_add inv_remove)
  have "f \<in> set (handlers ?t k) \<longleftrightarrow> (if canon k' = canon k \<and> f' = f then b else f \<in> set (handlers t k))"
    using ok Cons.prems(1) distinct_handlers [OF Cons.prems(1), of k] by (auto simp: handlers_add handlers_remove)
  with Cons.IH [OF inv] Cons.prems show ?case by (simp add: op)
qed simp

end

definition table_ok :: "method_table \<Rightarrow> bool" where
  "table_ok tbl \<longleftrightarrow> distinct (obj_keys tbl) \<and>
     (\<forall>(k, hs) \<in> set tbl. k \<noteq> [] \<and> toLowerCase k = k \<and> \<not> inherited_name k \<and> hs \<noteq> [] \<and> distinct hs)"

definition handlers_of :: "method_table \<Rightarrow> string \<Rightarrow> nat list" where
  "handlers_of tbl methodName = (case obj_get tbl (toLowerCase methodName) of None \<Rightarrow> [] | Some hs \<Rightarrow> hs)"

text \<open>A call that throws leaves the table as it is.\<close>

definition after :: "'a result \<Rightarrow> 'a \<Rightarrow> 'a" where
  "after r x = (case r of Inl _ \<Rightarrow> x | Inr y \<Rightarrow> y)"

lemma after_simps [simp]: "after (Inl e) x = x" "after (Inr y) x = y"
  by (simp_all add: after_def)

lemma table_ok_get: "table_ok tbl \<Longrightarrow> obj_get tbl k = Some hs \<Longrightarrow>
    k \<noteq> [] \<and> toLowerCase k = k \<and> \<not> inherited_name k \<and> hs \<noteq> [] \<and> distinct hs"
  by (auto simp: table_ok_def dest: obj_get_Some_mem)

lemma table_ok_set:
  "table_ok tbl \<Longrightarrow> k \<noteq> [] \<Longrightarrow> toLowerCase k = k \<Longrightarrow> \<not> inherited_name k \<Longrightarrow> hs \<noteq> [] \<Longrightarrow> distinct hs \<Longrightarrow>
     table_ok (obj_set k hs tbl)"
  by (auto simp: table_ok_def dest!: obj_set_mem)

lemma table_ok_del: "table_ok tbl \<Longrightarrow> table_ok (obj_del k tbl)"
  using obj_del_subset [of k tbl] by (auto simp: table_ok_def)

lemma table_ok_on: "table_ok tbl \<Longrightarrow> hub_on n f tbl = Inr tbl' \<Longrightarrow> table_ok tbl'"
  by (auto simp: hub_on_def Let_def dest: table_ok_get intro!: table_ok_set split: option.splits if_splits)

lemma table_ok_off: "table_ok tbl \<Longrightarrow> hub_off n f tbl = Inr tbl' \<Longrightarrow> table_ok tbl'"
  by (auto simp: hub_off_def Let_def dest: table_ok_get intro!: table_ok_set table_ok_del split: option.splits if_splits)

lemma table_ok_after: "table_ok tbl \<Longrightarrow> (\<And>t. r = Inr t \<Longrightarrow> table_ok t) \<Longrightarrow> table_ok (after r tbl)"
  by (cases r) simp_all

definition usable_name :: "string \<Rightarrow> bool" where
  "usable_name n \<longleftrightarrow> n \<noteq> [] \<and> \<not> inherited_name (toLowerCase n)"

lemma handlers_of_on:
  assumes "usable_name n"
  shows "handlers_of (after (hub_on n (Some f) tbl) tbl) n' =
    (if toLowerCase n' = toLowerCase n \<and> f \<notin> set (handlers_of tbl n') then handlers_of tbl n' @ [f] else handlers_of tbl n')"
  using assms by (auto simp: usable_name_def hub_on_def handlers_of_def Let_def split: option.split)

lemma handlers_of_off:
  assumes "table_ok tbl" "n \<noteq> []"
  shows "handlers_of (after (hub_off n (Some f) tbl) tbl) n' =
    (if toLowerCase n' = toLowerCase n then remove1 f (handlers_of tbl n') else handlers_of tbl n')"
  using assms
  by (auto simp: hub_off_def handlers_of_def Let_def remove1_idem split: option.split dest: table_ok_get)

lemma distinct_handlers_of: "table_ok tbl \<Longrightarrow> distinct (handlers_of tbl n)"
  by (auto simp: handlers_of_def split: option.split dest: table_ok_get)

text \<open>Registration and removal of one handler, as the hub's user sees them.\<close>

definition reg_on :: "string \<Rightarrow> nat \<Rightarrow> method_table \<Rightarrow> method_table" where
  "reg_on n f tbl = after (hub_on n (Some f) tbl) tbl"

definition reg_off :: "string \<Rightarrow> nat \<Rightarrow> method_table \<Rightarrow> method_table" where
  "reg_off n f tbl = after (hub_off n (Some f) tbl) tbl"

interpretation methods: handler_table table_ok handlers_of reg_on reg_off toLowerCase usable_name
proof
  fix t :: method_table and k f k'
  assume t: "table_ok t"
  show "table_ok (reg_on k f t)"
    unfolding reg_on_def using t by (rule table_ok_after) (rule table_ok_on [OF t])
  show "table_ok (reg_off k f t)"
    unfolding reg_off_def using t by (rule table_ok_after) (rule table_ok_off [OF t])
  show "distinct (handlers_of t k)" using t by (rule distinct_handlers_of)
  assume k: "usable_name k"
  then show "handlers_of (reg_on k f t) k' =
      (if toLowerCase k' = toLowerCase k \<and> f \<notin> set (handlers_of t k') then handlers_of t k' @ [f] else handlers_of t k')"
    unfolding reg_on_def by (rule handlers_of_on)
  show "handlers_of (reg_off k f t) k' =
      (if toLowerCase k' = toLowerCase k then remove1 f (handlers_of t k') else handlers_of t k')"
    unfolding reg_off_def using t k by (intro handlers_of_off) (auto simp: usable_name_def)
qed

section \<open>The reply of a client method\<close>

datatype reply = MultipleResults | Threw js_error | Answer jsval | NoAnswer

fun values_of :: "jsval result list \<Rightarrow> jsval list" where
  "values_of [] = []"
| "values_of (Inr v # os) = v # values_of os"
| "values_of (Inl e # os) = values_of os"

text \<open>Two results in a row that are both truthy.\<close>

fun two_results :: "jsval list \<Rightarrow> bool" where
  "two_results (v # w # vs) = (truthy v \<and> truthy w \<or> two_results (w # vs))"
| "two_results _ = False"

text \<open>
  What the server is told, from the outcomes of the handlers: an error when two results in a row are
  given, else the last handler's error, else the last result, else that there is none.
\<close>

definition reply_spec :: "jsval result list \<Rightarrow> reply" where
  "reply_spec os =
     (if two_results (values_of os) then MultipleResults
      else case last (Inr JUndef # os) of
        Inl e \<Rightarrow> if e \<noteq> ThrownString [] then Threw e
                  else if last (JUndef # values_of os) \<noteq> JUndef then Answer (last (values_of os)) else NoAnswer
      | Inr v \<Rightarrow> if v \<noteq> JUndef then Answer v else NoAnswer)"

fun reply_message :: "string \<Rightarrow> reply \<Rightarrow> jsval" where
  "reply_message i MultipleResults = createCompletionMessage i (JStr ''Client provided multiple results.'') JNull"
| "reply_message i (Threw e) = createCompletionMessage i (JStr (err_to_string e)) JNull"
| "reply_message i (Answer v) = createCompletionMessage i JNull v"
| "reply_message i NoAnswer = createCompletionMessage i (JStr no_result_text) JNull"

lemma values_of_append: "values_of (os @ [o']) = values_of os @ (case o' of Inr v \<Rightarrow> [v] | Inl _ \<Rightarrow> [])"
  by (induction os rule: values_of.induct) (simp_all split: sum.split)

lemma two_results_snoc:
  "two_results (vs @ [v]) \<longleftrightarrow> two_results vs \<or> (truthy (last (JUndef # vs)) \<and> truthy v)"
proof (induction vs rule: two_results.induct)
  case (1 v w vs)
  then show ?case by auto
qed auto

lemma last_Cons_snoc: "last (a # vs @ [v]) = v" "last [a] = a"
  by simp_all

definition calls :: "jsval result list \<Rightarrow> string \<Rightarrow> string \<Rightarrow> method_call" where
  "calls os n i = fold method_outcome os (method_call_start n i)"

lemma calls_snoc: "calls (os @ [o']) n i = method_outcome o' (calls os n i)"
  by (simp add: calls_def)

lemma calls_state:
  "mc_invocationId (calls os n i) = i \<and>
   mc_res (calls os n i) = last (JUndef # values_of os) \<and>
   mc_exception (calls os n i) = (case last (Inr JUndef # os) of Inl e \<Rightarrow> Some e | Inr _ \<Rightarrow> None) \<and>
   mc_completion (calls os n i) =
     (if i \<noteq> [] \<and> two_results (values_of os) then Some (reply_message i MultipleResults) else None)"
proof (induction os rule: rev_induct)
  case Nil
  then show ?case by (simp add: calls_def method_call_start_def)
next
  case (snoc x os)
  then show ?case
    by (cases x; cases "i = []")
      (simp_all add: calls_snoc method_outcome_def expectsResponse_def Let_def values_of_append two_results_snoc
        last_Cons_snoc del: last.simps)
qed

lemma method_reply:
  "fst (method_finish (calls os n i)) = (if i = [] then None else Some (reply_message i (reply_spec os)))"
proof -
  define l x where "l = last (JUndef # values_of os)" and "x = last (Inr JUndef # os)"
  have res: "x = Inr v \<Longrightarrow> l = v" for v
    unfolding l_def x_def by (cases os rule: rev_cases) (auto simp: values_of_append)
  have spec: "reply_spec os =
     (if two_results (values_of os) then MultipleResults
      else case x of Inl e \<Rightarrow> if e \<noteq> ThrownString [] then Threw e else if l \<noteq> JUndef then Answer l else NoAnswer
      | Inr v \<Rightarrow> if v \<noteq> JUndef then Answer v else NoAnswer)"
    unfolding reply_spec_def l_def x_def by (auto split: sum.split)
  show ?thesis
    using calls_state [of os n i, folded l_def x_def] res unfolding spec
    by (cases x; cases "i = []") (simp_all add: method_finish_def expectsResponse_def exception_truthy_def opt_err_to_string_def)
qed

section \<open>Which arguments are streamed\<close>

text \<open>The loop as a recursion over the arguments: after a stream, the next argument is not looked at.\<close>

fun split_args :: "jsval list \<Rightarrow> jsval list \<times> jsval list" where
  "split_args [] = ([], [])"
| "split_args [a] = (if isObservable a then ([a], []) else ([], [a]))"
| "split_args (a # b # as) =
     (if isObservable a then (case split_args as of (ss, ks) \<Rightarrow> (a # ss, b # ks))
      else (case split_args (b # as) of (ss, ks) \<Rightarrow> (ss, a # ks)))"

fun number_from :: "nat \<Rightarrow> 'a list \<Rightarrow> (nat \<times> 'a) list" where
  "number_from n [] = []"
| "number_from n (x # xs) = (n, x) # number_from (Suc n) xs"

lemma number_from_fst: "map fst (number_from n xs) = [n..<n + length xs]"
  by (induction n xs rule: number_from.induct) (simp_all add: upt_conv_Cons del: upt_Suc)

lemma number_from_snd [simp]: "map snd (number_from n xs) = xs"
  by (induction n xs rule: number_from.induct) simp_all

lemma replace_loop_end: "length (rp_args r) \<le> i \<Longrightarrow> replace_loop i r = r"
  by (subst replace_loop.simps) simp

lemma replace_loop_stream:
  "rp_args r = pre @ a # as \<Longrightarrow> length pre = i \<Longrightarrow> isObservable a \<Longrightarrow>
     replace_loop i r = replace_loop (Suc i)
       (r\<lparr>rp_streams := rp_streams r @ [(rp_next r, a)], rp_streamIds := rp_streamIds r @ [nat_digits (rp_next r)],
          rp_args := pre @ as, rp_next := Suc (rp_next r)\<rparr>)"
  by (subst replace_loop.simps) (auto simp: Let_def nth_append)

lemma replace_loop_value:
  "rp_args r = pre @ a # as \<Longrightarrow> length pre = i \<Longrightarrow> \<not> isObservable a \<Longrightarrow> replace_loop i r = replace_loop (Suc i) r"
  by (subst replace_loop.simps) (auto simp: Let_def nth_append)

lemma replace_loop_split:
  assumes "rp_args r = pre @ as" "length pre = i"
  shows "replace_loop i r =
    (case split_args as of (ss, ks) \<Rightarrow>
       r\<lparr>rp_streams := rp_streams r @ number_from (rp_next r) ss,
         rp_streamIds := rp_streamIds r @ map (nat_digits \<circ> fst) (number_from (rp_next r) ss),
         rp_args := pre @ ks, rp_next := rp_next r + length ss\<rparr>)"
  using assms
proof (induction as arbitrary: r pre i rule: split_args.induct)
  case 1
  then show ?case by (simp add: replace_loop_end)
next
  case (2 a)
  then show ?case
    by (cases "isObservable a")
      (simp_all add: replace_loop_stream [of r pre a "[]" i] replace_loop_value [of r pre a "[]" i]
        replace_loop_end)
next
  case (3 a b as)
  obtain ss ks where sk: "split_args as = (ss, ks)" by (cases "split_args as")
  obtain ss' ks' where sk': "split_args (b # as) = (ss', ks')" by (cases "split_args (b # as)")
  show ?case
  proof (cases "isObservable a")
    case True
    let ?r = "r\<lparr>rp_streams := rp_streams r @ [(rp_next r, a)], rp_streamIds := rp_streamIds r @ [nat_digits (rp_next r)],
          rp_args := (pre @ [b]) @ as, rp_next := Suc (rp_next r)\<rparr>"
    have "replace_loop i r = replace_loop (Suc i) ?r"
      using replace_loop_stream [of r pre a "b # as" i] 3(3,4) True by simp
    also have "\<dots> = (case split_args as of (ss, ks) \<Rightarrow>
       ?r\<lparr>rp_streams := rp_streams ?r @ number_from (rp_next ?r) ss,
         rp_streamIds := rp_streamIds ?r @ map (nat_digits \<circ> fst) (number_from (rp_next ?r) ss),
         rp_args := (pre @ [b]) @ ks, rp_next := rp_next ?r + length ss\<rparr>)"
      using 3(4) by (intro 3(1) [OF True]) simp_all
    finally show ?thesis using True by (simp add: sk)
  next
    case False
    have "replace_loop i r = replace_loop (Suc i) r"
      using replace_loop_value [of r pre a "b # as" i] 3(3,4) False by simp
    also have "\<dots> = (case split_args (b # as) of (ss, ks) \<Rightarrow>
       r\<lparr>rp_streams := rp_streams r @ number_from (rp_next r) ss,
         rp_streamIds := rp_streamIds r @ map (nat_digits \<circ> fst) (number_from (rp_next r) ss),
         rp_args := (pre @ [a]) @ ks, rp_next := rp_next r + length ss\<rparr>)"
      using 3(3,4) by (intro 3(2) [OF False]) simp_all
    finally show ?thesis using False by (simp add: sk')
  qed
qed

lemma replaceStreamingParams_split:
  "replaceStreamingParams n args =
     (case split_args args of (ss, ks) \<Rightarrow>
        \<lparr>rp_streams = number_from n ss, rp_streamIds = map nat_digits [n..<n + length ss], rp_args = ks, rp_next = n + length ss\<rparr>)"
  unfolding replaceStreamingParams_def
  by (subst replace_loop_split [of _ "[]" args])
    (auto simp: number_from_fst map_map [symmetric] simp del: map_map split: prod.split)

fun adjacent_streams :: "jsval list \<Rightarrow> bool" where
  "adjacent_streams (a # b # as) = (isObservable a \<and> isObservable b \<or> adjacent_streams (b # as))"
| "adjacent_streams _ = False"

lemma adjacent_streams_Cons: "\<not> adjacent_streams (a # as) \<Longrightarrow> \<not> adjacent_streams as"
  by (cases as) auto

lemma split_args_filter:
  "\<not> adjacent_streams args \<Longrightarrow> split_args args = (filter isObservable args, filter (\<lambda>a. \<not> isObservable a) args)"
proof (induction args rule: split_args.induct)
  case (3 a b as)
  then show ?case
    by (cases "isObservable a") (auto dest: adjacent_streams_Cons)
qed auto

section \<open>Retry policies\<close>

text \<open>
  A policy as the reconnect loop uses it: from the number of previous attempts to a delay, \<^verbatim>\<open>null\<close> to
  give up. \<open>bound\<close> is an attempt count at which it gives up at the latest.
\<close>

locale retry_policy =
  fixes next_delay :: "nat \<Rightarrow> jsval"
    and bound :: nat
  assumes gives_up: "\<exists>n \<le> bound. next_delay n = JNull"
begin

text \<open>The attempt counts the loop asks for: it stops at the first \<^verbatim>\<open>null\<close>.\<close>

definition attempts :: nat where
  "attempts = (LEAST n. next_delay n = JNull)"

lemma attempts_null: "next_delay attempts = JNull"
  unfolding attempts_def using gives_up by (auto intro: LeastI_ex)

lemma attempts_le: "attempts \<le> bound"
proof -
  obtain n where "n \<le> bound" "next_delay n = JNull" using gives_up by blast
  moreover from this(2) have "attempts \<le> n" unfolding attempts_def by (rule Least_le)
  ultimately show ?thesis by simp
qed

lemma before_attempts: "n < attempts \<Longrightarrow> next_delay n \<noteq> JNull"
  unfolding attempts_def by (rule not_less_Least)

end

lemma DefaultReconnectPolicy_last:
  "DefaultReconnectPolicy_next (DefaultReconnectPolicy_new (Some ds)) (length ds) = JNull"
  by (simp add: DefaultReconnectPolicy_next_def DefaultReconnectPolicy_new_def)

interpretation default_policy: retry_policy "DefaultReconnectPolicy_next (DefaultReconnectPolicy_new None)" 4
proof
  have "DefaultReconnectPolicy_next (DefaultReconnectPolicy_new None) 4 = JNull"
    by (simp add: DefaultReconnectPolicy_next_def DefaultReconnectPolicy_new_def DEFAULT_RETRY_DELAYS_IN_MILLISECONDS_def)
  then show "\<exists>n \<le> 4. DefaultReconnectPolicy_next (DefaultReconnectPolicy_new None) n = JNull" by blast
qed

interpretation given_policy: retry_policy "DefaultReconnectPolicy_next (DefaultReconnectPolicy_new (Some ds))" "length ds" for ds
  by unfold_locales (use DefaultReconnectPolicy_last in blast)

section \<open>Subjects\<close>

lemma notify_quiet:
  "length (sj_observers s) - i < fuel \<Longrightarrow> i \<le> length (sj_observers s) \<Longrightarrow>
     notify fuel has (\<lambda>_. []) i s = Some (s, filter has (drop i (sj_observers s)))"
proof (induction fuel arbitrary: i)
  case (Suc fuel)
  show ?case
  proof (cases "i < length (sj_observers s)")
    case True
    with Suc show ?thesis by (simp add: Let_def Cons_nth_drop_Suc [symmetric, OF True])
  next
    case False
    with Suc.prems show ?thesis by simp
  qed
qed simp

section \<open>Invocations on the wire\<close>

lemma jsonable_list_iff: "jsonable_list xs \<longleftrightarrow> list_all jsonable xs"
  by (induction xs) simp_all

lemma jsonable_strings: "list_all jsonable (map JStr ss)"
  by (induction ss) simp_all



lemma invocation_valid:
  assumes "list_all jsonable args" and "methodName \<noteq> []"
  shows "valid_message (invocation_object args i streamIds methodName MT_Invocation)"
  using assms
  by (cases i) (simp_all add: valid_message_def invocation_object_def checkMessage_def MT_defs isInvocationMessage_def
      assertNotEmptyString_def jsonable_list_iff jsonable_strings)

section \<open>Properties\<close>


text \<open>
  after any sequence of \<^verbatim>\<open>on\<close> and \<^verbatim>\<open>off\<close> calls, a handler is called for a method exactly when the
  last call with that handler and that name, ignoring case, was \<^verbatim>\<open>on\<close>; and it is called once, because a
  handler is never in a list twice.
\<close>

theorem handlers_follow_registrations:
  assumes "list_all (\<lambda>(b, n, f). usable_name n) ops"
  shows "(f \<in> set (handlers_of (methods.table_run ops []) n) \<longleftrightarrow> methods.registered ops n f False) \<and>
    distinct (handlers_of (methods.table_run ops []) n)"
proof -
  have empty: "table_ok []" by (simp add: table_ok_def)
  have "handlers_of [] n = []" by (simp add: handlers_of_def)
  with methods.table_run_registered [OF empty assms, of f n] show ?thesis
    by (simp add: methods.distinct_handlers)
qed

theorem handlers_follow_registrations_witness:
  "1 \<in> set (handlers_of (methods.table_run [(True, ''CMD'', 1), (True, ''cmd'', 1), (True, ''Cmd'', 2), (False, ''cmd'', 2)] []) ''cmd'') \<and>
   2 \<notin> set (handlers_of (methods.table_run [(True, ''CMD'', 1), (True, ''cmd'', 1), (True, ''Cmd'', 2), (False, ''cmd'', 2)] []) ''cmd'')"
proof -
  have lc: "toLowerCase ''CMD'' = ''cmd''" "toLowerCase ''cmd'' = ''cmd''" "toLowerCase ''Cmd'' = ''cmd''"
    by code_simp+
  let ?ops = "[(True, ''CMD'', 1), (True, ''cmd'', 1), (True, ''Cmd'', 2), (False, ''cmd'', 2)] :: (bool \<times> string \<times> nat) list"
  have ok: "list_all (\<lambda>(b, n, f). usable_name n) ?ops"
    by (simp add: usable_name_def inherited_name_def lc)
  show ?thesis
    using handlers_follow_registrations [OF ok, of 1 "''cmd''"] handlers_follow_registrations [OF ok, of 2 "''cmd''"]
    by (simp add: lc)
qed

text \<open>
  when no two observable arguments are neighbours, \<^verbatim>\<open>_replaceStreamingParams\<close> takes exactly the
  observables out of the argument list, keeps the order of both kinds, and gives the streams the
  consecutive ids from \<^verbatim>\<open>_invocationId\<close> on, which it advances past them.
\<close>

theorem streaming_params_replaced:
  assumes "\<not> adjacent_streams args"
  shows "rp_args (replaceStreamingParams n args) = filter (\<lambda>a. \<not> isObservable a) args \<and>
    map snd (rp_streams (replaceStreamingParams n args)) = filter isObservable args \<and>
    map fst (rp_streams (replaceStreamingParams n args)) = [n..<rp_next (replaceStreamingParams n args)] \<and>
    rp_streamIds (replaceStreamingParams n args) = map nat_digits [n..<rp_next (replaceStreamingParams n args)]"
  by (simp add: replaceStreamingParams_split split_args_filter [OF assms] number_from_fst)

theorem streaming_params_replaced_witness:
  "rp_args (replaceStreamingParams 7 [JObj [(''subscribe'', JFun 0)], JNum 1]) = [JNum 1] \<and>
   map fst (rp_streams (replaceStreamingParams 7 [JObj [(''subscribe'', JFun 0)], JNum 1])) =
     [7..<rp_next (replaceStreamingParams 7 [JObj [(''subscribe'', JFun 0)], JNum 1])]"
  using streaming_params_replaced [of "[JObj [(''subscribe'', JFun 0)], JNum 1]" 7] by (simp add: isObservable_def)

text \<open>
  of two neighbouring observable arguments only the first is replaced: \<^verbatim>\<open>splice\<close> moves the second into
  the position just examined, so it stays in the argument list and is never subscribed to.
\<close>

theorem second_adjacent_stream_kept:
  assumes "isObservable a" and "isObservable b"
  shows "rp_args (replaceStreamingParams n [a, b]) = [b] \<and> rp_streams (replaceStreamingParams n [a, b]) = [(n, a)]"
  using assms by (simp add: replaceStreamingParams_split)

theorem second_adjacent_stream_kept_witness:
  "rp_args (replaceStreamingParams 0 [JObj [(''subscribe'', JFun 0)], JObj [(''subscribe'', JFun 1)]]) =
     [JObj [(''subscribe'', JFun 1)]]"
  using second_adjacent_stream_kept [of "JObj [(''subscribe'', JFun 0)]" "JObj [(''subscribe'', JFun 1)]" 0]
  by (simp add: isObservable_def)

text \<open>
  an invocation the hub connection creates is a valid message of the protocol: written and parsed
  back it is the same message, with the invocation id (when the call is blocking), the stream ids, the
  target and the arguments it was created from; and each blocking call takes the next id.
\<close>

theorem invocation_on_the_wire:
  assumes "list_all jsonable args" and "methodName \<noteq> []"
  shows "case createInvocation n methodName args nonblocking streamIds of (m, n') \<Rightarrow>
    parseMessages (JStr (writeMessage m)) = ([], Inr [m]) \<and> n' = (if nonblocking then n else Suc n) \<and>
    get_prop m ''arguments'' = Inr (JArr args) \<and> get_prop m ''target'' = Inr (JStr methodName) \<and>
    get_prop m ''invocationId'' = Inr (if nonblocking then JUndef else JStr (nat_digits n)) \<and>
    get_prop m ''streamIds'' = Inr (if streamIds = [] then JUndef else JArr (map JStr streamIds))"
proof -
  have "parseMessages (JStr (writeMessage m)) = ([], Inr [m])"
    if "m = invocation_object args i streamIds methodName MT_Invocation" for m i
    using valid_messages_split [of "[m]"] parseMessages_of_writes [of "[m]"]
      invocation_valid [OF assms, of i streamIds] that by simp
  then show ?thesis by (simp add: createInvocation_def) (simp add: invocation_object_def)
qed

theorem invocation_on_the_wire_witness:
  "parseMessages (JStr (writeMessage (fst (createInvocation 3 ''SendMessage'' [JStr ''hi''] False [])))) =
     ([], Inr [fst (createInvocation 3 ''SendMessage'' [JStr ''hi''] False [])])"
  using invocation_on_the_wire [where args = "[JStr ''hi'']" and methodName = "''SendMessage''" and n = 3
      and nonblocking = False and streamIds = "[]"] by (simp split: prod.splits)

text \<open>
  a \<^verbatim>\<open>Subject\<close> whose observers do not subscribe or dispose while they are called notifies every
  observer exactly once and in the order of subscription: all of them of an item, of an error those that
  have an \<^verbatim>\<open>error\<close> method, of the end those that have \<^verbatim>\<open>complete\<close>.
\<close>

theorem subject_notifies_in_order:
  assumes "length (sj_observers s) < fuel"
  shows "Subject_next fuel (\<lambda>_. []) s = Some (s, sj_observers s) \<and>
    Subject_error fuel (\<lambda>_. []) s = Some (s, filter ob_has_error (sj_observers s)) \<and>
    Subject_complete fuel (\<lambda>_. []) s = Some (s, filter ob_has_complete (sj_observers s))"
  using assms by (simp add: Subject_next_def Subject_error_def Subject_complete_def notify_quiet)

theorem subject_notifies_in_order_witness:
  "Subject_next 2 (\<lambda>_. []) (Subject_subscribe \<lparr>ob_id = 1, ob_has_error = False, ob_has_complete = True\<rparr> Subject_new) =
     Some (Subject_subscribe \<lparr>ob_id = 1, ob_has_error = False, ob_has_complete = True\<rparr> Subject_new,
           [\<lparr>ob_id = 1, ob_has_error = False, ob_has_complete = True\<rparr>])"
  using subject_notifies_in_order [of "Subject_subscribe \<lparr>ob_id = 1, ob_has_error = False, ob_has_complete = True\<rparr> Subject_new" 2]
  by (simp add: Subject_subscribe_def Subject_new_def)

text \<open>
  an observer that disposes of its own subscription while it is called makes the loop skip the
  observer after it: the second of two observers does not get the item.
\<close>

theorem subject_self_dispose_skips:
  assumes "a \<noteq> b"
  shows "Subject_next 3 (\<lambda>ob. if ob = a then [DisposeOp a] else [])
      \<lparr>sj_observers = [a, b], sj_has_cancel = c, sj_cancelled = 0\<rparr> =
    Some (\<lparr>sj_observers = [b], sj_has_cancel = c, sj_cancelled = 0\<rparr>, [a])"
  by (simp add: Subject_next_def SubjectSubscription_dispose_def numeral_3_eq_3)

theorem subject_self_dispose_skips_witness:
  "let a = \<lparr>ob_id = 1, ob_has_error = False, ob_has_complete = False\<rparr>; b = \<lparr>ob_id = 2, ob_has_error = False, ob_has_complete = False\<rparr> in
   Subject_next 3 (\<lambda>ob. if ob = a then [DisposeOp a] else []) \<lparr>sj_observers = [a, b], sj_has_cancel = True, sj_cancelled = 0\<rparr> =
     Some (\<lparr>sj_observers = [b], sj_has_cancel = True, sj_cancelled = 0\<rparr>, [a])"
  unfolding Let_def by (rule subject_self_dispose_skips) simp



end
