(* ===== verification/Sr_SendQueue.thy ===== *)
theory Sr_SendQueue
  imports Sr_Protocol
begin

text \<open>
  \<^verbatim>\<open>TransportSendQueue\<close> and \<^verbatim>\<open>PromiseSource\<close> of HttpConnection.ts. The queue's \<^verbatim>\<open>_sendLoop\<close> is cut at
  its two \<^verbatim>\<open>await\<close>s; a promise is a number, its outcome an entry of \<open>tq_promises\<close>. \<open>tq_sent\<close> records
  the data handed to \<^verbatim>\<open>transport.send\<close>, with the promise of its senders. The interface \<open>batching_queue\<close>
  says that what goes out, cut into the pieces that were put in, is what was put in, in order.
\<close>

section \<open>PromiseSource\<close>

datatype promise_state = Pending | Resolved | Rejected js_error

type_synonym promises = "promise_state list"

text \<open>Only the first settling counts.\<close>

definition PromiseSource_settle :: "promise_state \<Rightarrow> nat \<Rightarrow> promises \<Rightarrow> promises" where
  "PromiseSource_settle st p ps = (if p < length ps \<and> ps ! p = Pending then ps[p := st] else ps)"

definition PromiseSource_resolve :: "nat \<Rightarrow> promises \<Rightarrow> promises" where
  "PromiseSource_resolve p ps = PromiseSource_settle Resolved p ps"

definition PromiseSource_reject :: "js_error \<Rightarrow> nat \<Rightarrow> promises \<Rightarrow> promises" where
  "PromiseSource_reject reason p ps = PromiseSource_settle (Rejected reason) p ps"

section \<open>TransportSendQueue\<close>

text \<open>Data is a string or an \<^verbatim>\<open>ArrayBuffer\<close>.\<close>

datatype wire_data = WText string | WBin "8 word list"

fun wire_typeof :: "wire_data \<Rightarrow> string" where
  "wire_typeof (WText _) = ''string''"
| "wire_typeof (WBin _) = ''object''"

fun wire_text :: "wire_data \<Rightarrow> string" where
  "wire_text (WText s) = s"
| "wire_text (WBin _) = ''[object ArrayBuffer]''"

fun wire_bytes :: "wire_data \<Rightarrow> 8 word list" where
  "wire_bytes (WBin b) = b"
| "wire_bytes (WText _) = []"

datatype loop_at =
    AwaitBuffered
  | AwaitSend "nat option"
  | LoopEnded
  | LoopThrew js_error

record send_queue =
  tq_buffer :: "wire_data list"
  tq_executing :: bool
  tq_sendBufferedData :: bool
  tq_transportResult :: "nat option"
  tq_loop :: loop_at
  tq_promises :: promises
  tq_sent :: "(nat option \<times> wire_data) list"

definition TransportSendQueue_new :: send_queue where
  "TransportSendQueue_new =
     \<lparr>tq_buffer = [], tq_executing = True, tq_sendBufferedData = False, tq_transportResult = Some 0,
      tq_loop = AwaitBuffered, tq_promises = [Pending], tq_sent = []\<rparr>"

definition tq_bufferData :: "wire_data \<Rightarrow> send_queue \<Rightarrow> send_queue result" where
  "tq_bufferData data q =
     (case tq_buffer q of
        d # _ \<Rightarrow>
          if wire_typeof d \<noteq> wire_typeof data then
            Inl (Error (''Expected data to be of type object but was of type '' @ wire_typeof data))
          else Inr (q\<lparr>tq_buffer := tq_buffer q @ [data], tq_sendBufferedData := True\<rparr>)
      | [] \<Rightarrow> Inr (q\<lparr>tq_buffer := [data], tq_sendBufferedData := True\<rparr>))"

text \<open>\<^verbatim>\<open>send\<close> returns the promise of the batch the data will go out with.\<close>

definition tq_send :: "wire_data \<Rightarrow> send_queue \<Rightarrow> (nat \<times> send_queue) result" where
  "tq_send data q =
     rbind (tq_bufferData data q) (\<lambda>q1.
       case tq_transportResult q1 of
         Some p \<Rightarrow> Inr (p, q1)
       | None \<Rightarrow>
           (let p = length (tq_promises q1) in
            Inr (p, q1\<lparr>tq_transportResult := Some p, tq_promises := tq_promises q1 @ [Pending]\<rparr>)))"

definition tq_stop :: "send_queue \<Rightarrow> send_queue" where
  "tq_stop q = q\<lparr>tq_executing := False, tq_sendBufferedData := True\<rparr>"

text \<open>
  \<^verbatim>\<open>_concatBuffers\<close>: the loop copies each item at its offset into a zeroed array of the total length;
  \<^verbatim>\<open>reduce\<close> throws on an empty array.
\<close>

definition set_at :: "nat \<Rightarrow> 'a list \<Rightarrow> 'a list \<Rightarrow> 'a list" where
  "set_at offset item result = take offset result @ item @ drop (offset + length item) result"

fun copy_loop :: "8 word list list \<Rightarrow> nat \<Rightarrow> 8 word list \<Rightarrow> 8 word list" where
  "copy_loop [] offset result = result"
| "copy_loop (item # items) offset result = copy_loop items (offset + length item) (set_at offset item result)"

definition tq_concatBuffers :: "8 word list list \<Rightarrow> (8 word list) result" where
  "tq_concatBuffers arrayBuffers =
     (if arrayBuffers = [] then Inl (TypeError ''Reduce of empty array with no initial value'')
      else (let totalLength = sum_list (map length arrayBuffers) in
            Inr (copy_loop arrayBuffers 0 (replicate totalLength 0))))"

definition tq_batch :: "wire_data list \<Rightarrow> wire_data result" where
  "tq_batch buffer =
     (case buffer of
        WText _ # _ \<Rightarrow> Inr (WText (join [] (map wire_text buffer)))
      | _ \<Rightarrow> rbind (tq_concatBuffers (map wire_bytes buffer)) (\<lambda>b. Inr (WBin b)))"

text \<open>The loop after \<^verbatim>\<open>await this._sendBufferedData.promise\<close>, up to the call of \<^verbatim>\<open>transport.send\<close>.\<close>

definition tq_resume :: "send_queue \<Rightarrow> send_queue" where
  "tq_resume q =
     (if \<not> tq_executing q then
        (case tq_transportResult q of
           Some p \<Rightarrow> q\<lparr>tq_promises := PromiseSource_reject (ThrownString ''Connection stopped.'') p (tq_promises q),
                       tq_loop := LoopEnded\<rparr>
         | None \<Rightarrow> q\<lparr>tq_loop := LoopEnded\<rparr>)
      else
        (let q1 = q\<lparr>tq_sendBufferedData := False, tq_transportResult := None\<rparr> in
         case tq_batch (tq_buffer q1) of
           Inl e \<Rightarrow> q1\<lparr>tq_loop := LoopThrew e\<rparr>
         | Inr data \<Rightarrow>
             q1\<lparr>tq_buffer := [], tq_loop := AwaitSend (tq_transportResult q),
                tq_sent := tq_sent q1 @ [(tq_transportResult q, data)]\<rparr>))"

text \<open>The transport's promise has settled with \<open>r\<close>: settle the senders' promise and loop.\<close>

definition tq_sent_done :: "nat option \<Rightarrow> unit result \<Rightarrow> send_queue \<Rightarrow> send_queue" where
  "tq_sent_done transportResult r q =
     (case transportResult of
        Some p \<Rightarrow>
          q\<lparr>tq_promises := (case r of Inr _ \<Rightarrow> PromiseSource_resolve p (tq_promises q)
                             | Inl e \<Rightarrow> PromiseSource_reject e p (tq_promises q)),
            tq_loop := AwaitBuffered\<rparr>
      | None \<Rightarrow>
          q\<lparr>tq_loop := LoopThrew (TypeError (''Cannot read properties of undefined (reading '' @ sq ''reject'' @ '')''))\<rparr>)"

datatype tq_event =
    TqSend wire_data nat
  | TqSendThrows wire_data js_error
  | TqStop
  | TqResume
  | TqSettled "unit result"

inductive tq_step :: "send_queue \<Rightarrow> tq_event \<Rightarrow> send_queue \<Rightarrow> bool" where
  step_send: "tq_send d q = Inr (p, q') \<Longrightarrow> tq_step q (TqSend d p) q'"
| step_throws: "tq_send d q = Inl e \<Longrightarrow> tq_step q (TqSendThrows d e) q"
| step_stop: "tq_step q TqStop (tq_stop q)"
| step_resume: "tq_loop q = AwaitBuffered \<Longrightarrow> tq_sendBufferedData q \<Longrightarrow> tq_step q TqResume (tq_resume q)"
| step_settled: "tq_loop q = AwaitSend p \<Longrightarrow> tq_step q (TqSettled r) (tq_sent_done p r q)"

inductive_cases tq_stepE: "tq_step q e q'"

section \<open>The concatenated buffers\<close>

lemma copy_loop_concat:
  "length pre = offset \<Longrightarrow>
     copy_loop items offset (pre @ replicate (sum_list (map length items)) 0) = pre @ concat items"
proof (induction items arbitrary: pre offset)
  case (Cons item items)
  have "set_at offset item (pre @ replicate (sum_list (map length (item # items))) 0) =
        (pre @ item) @ replicate (sum_list (map length items)) 0"
    using Cons.prems by (simp add: set_at_def)
  with Cons.IH [of "pre @ item" "offset + length item"] Cons.prems show ?case by simp
qed simp

lemma tq_concatBuffers_eq: "bs \<noteq> [] \<Longrightarrow> tq_concatBuffers bs = Inr (concat bs)"
  using copy_loop_concat [of "[]" 0 bs] by (simp add: tq_concatBuffers_def)

lemma join_Nil: "join [] xs = concat xs"
  by (induction "[] :: 'a list" xs rule: join.induct) simp_all

lemma tq_batch_text: "ts \<noteq> [] \<Longrightarrow> tq_batch (map WText ts) = Inr (WText (concat ts))"
  by (cases ts) (simp_all add: tq_batch_def join_Nil comp_def)

lemma tq_batch_bin: "bs \<noteq> [] \<Longrightarrow> tq_batch (map WBin bs) = Inr (WBin (concat bs))"
  by (cases bs) (simp_all add: tq_batch_def tq_concatBuffers_eq comp_def)

lemma tq_batch_ok: "ds \<noteq> [] \<Longrightarrow> \<exists>d. tq_batch ds = Inr d"
  by (auto simp: tq_batch_def tq_concatBuffers_def Let_def split: list.split wire_data.split)

section \<open>Invariant\<close>

definition settled :: "promise_state \<Rightarrow> bool" where
  "settled st \<longleftrightarrow> st \<noteq> Pending"

definition same_type :: "wire_data list \<Rightarrow> bool" where
  "same_type ds \<longleftrightarrow> (\<forall>d \<in> set ds. wire_typeof d = wire_typeof (hd ds))"

text \<open>
  A promise is pending exactly while its data is buffered or being sent; once the loop has ended, only
  data handed to \<^verbatim>\<open>send\<close> after that can have a pending promise.
\<close>

fun promises_inv :: "loop_at \<Rightarrow> nat option \<Rightarrow> promises \<Rightarrow> bool" where
  "promises_inv AwaitBuffered tr ps = (\<forall>p < length ps. ps ! p = Pending \<longleftrightarrow> tr = Some p)"
| "promises_inv (AwaitSend (Some s)) tr ps =
     (s < length ps \<and> tr \<noteq> Some s \<and> (\<forall>p < length ps. ps ! p = Pending \<longleftrightarrow> p = s \<or> tr = Some p))"
| "promises_inv LoopEnded tr ps = (\<forall>p < length ps. ps ! p = Pending \<longrightarrow> tr = Some p)"
| "promises_inv _ tr ps = False"

text \<open>
  Buffered data has one type and a promise, and the loop is woken when there is data or the queue is
  stopped, and only then.
\<close>

definition tq_inv :: "send_queue \<Rightarrow> bool" where
  "tq_inv q \<longleftrightarrow>
     same_type (tq_buffer q) \<and>
     (tq_buffer q \<noteq> [] \<longrightarrow> tq_sendBufferedData q \<and> tq_transportResult q \<noteq> None) \<and>
     (tq_executing q \<longrightarrow> tq_sendBufferedData q \<longrightarrow> tq_buffer q \<noteq> []) \<and>
     (\<not> tq_executing q \<longrightarrow> tq_sendBufferedData q) \<and>
     (tq_loop q = LoopEnded \<longrightarrow> \<not> tq_executing q) \<and>
     (\<forall>p. tq_transportResult q = Some p \<longrightarrow> p < length (tq_promises q)) \<and>
     promises_inv (tq_loop q) (tq_transportResult q) (tq_promises q)"

lemma tq_inv_new: "tq_inv TransportSendQueue_new"
  by (simp add: tq_inv_def TransportSendQueue_new_def same_type_def)

lemma promises_inv_extend: "promises_inv l None ps \<Longrightarrow> promises_inv l (Some (length ps)) (ps @ [Pending])"
  by (induction l "None :: nat option" ps rule: promises_inv.induct) (auto simp: nth_append less_Suc_eq)

lemma promises_inv_settle:
  assumes "promises_inv (AwaitSend (Some s)) tr ps" "st \<noteq> Pending"
  shows "promises_inv AwaitBuffered tr (PromiseSource_settle st s ps)"
  using assms by (auto simp: PromiseSource_settle_def nth_list_update)

lemma promises_inv_end:
  assumes "promises_inv AwaitBuffered tr ps" "st \<noteq> Pending"
  shows "promises_inv LoopEnded tr (case tr of Some p \<Rightarrow> PromiseSource_settle st p ps | None \<Rightarrow> ps)"
  using assms by (auto simp: PromiseSource_settle_def nth_list_update split: option.split)

lemma length_PromiseSource_settle [simp]: "length (PromiseSource_settle st p ps) = length ps"
  by (simp add: PromiseSource_settle_def)

lemma same_type_snoc: "same_type ds \<Longrightarrow> (ds \<noteq> [] \<Longrightarrow> wire_typeof (hd ds) = wire_typeof x) \<Longrightarrow> same_type (ds @ [x])"
  by (cases ds) (auto simp: same_type_def)

lemma tq_bufferData_eq:
  "tq_bufferData d q =
     (if tq_buffer q \<noteq> [] \<and> wire_typeof (hd (tq_buffer q)) \<noteq> wire_typeof d then
        Inl (Error (''Expected data to be of type object but was of type '' @ wire_typeof d))
      else Inr (q\<lparr>tq_buffer := tq_buffer q @ [d], tq_sendBufferedData := True\<rparr>))"
  by (cases "tq_buffer q") (auto simp: tq_bufferData_def)

lemma tq_send_eq:
  "tq_send d q =
     (if tq_buffer q \<noteq> [] \<and> wire_typeof (hd (tq_buffer q)) \<noteq> wire_typeof d then
        Inl (Error (''Expected data to be of type object but was of type '' @ wire_typeof d))
      else (case tq_transportResult q of
              Some p \<Rightarrow> Inr (p, q\<lparr>tq_buffer := tq_buffer q @ [d], tq_sendBufferedData := True\<rparr>)
            | None \<Rightarrow> Inr (length (tq_promises q),
                q\<lparr>tq_buffer := tq_buffer q @ [d], tq_sendBufferedData := True,
                  tq_transportResult := Some (length (tq_promises q)),
                  tq_promises := tq_promises q @ [Pending]\<rparr>)))"
  by (simp add: tq_send_def tq_bufferData_eq Let_def split: option.split)

lemma tq_inv_send:
  assumes "tq_inv q" "tq_send d q = Inr (p, q')"
  shows "tq_inv q'"
proof -
  have ok: "tq_buffer q \<noteq> [] \<Longrightarrow> wire_typeof (hd (tq_buffer q)) = wire_typeof d"
    using assms(2) by (auto simp: tq_send_eq split: if_splits)
  have st: "same_type (tq_buffer q @ [d])"
    using assms(1) ok by (auto simp: tq_inv_def intro: same_type_snoc)
  show ?thesis
  proof (cases "tq_transportResult q")
    case None
    then have "promises_inv (tq_loop q) (Some (length (tq_promises q))) (tq_promises q @ [Pending])"
      using assms(1) by (auto simp: tq_inv_def intro: promises_inv_extend)
    with None st assms show ?thesis by (auto simp: tq_send_eq tq_inv_def split: if_splits)
  next
    case (Some r)
    with st assms show ?thesis by (auto simp: tq_send_eq tq_inv_def split: if_splits)
  qed
qed

lemma tq_inv_stop: "tq_inv q \<Longrightarrow> tq_inv (tq_stop q)"
  by (auto simp: tq_inv_def tq_stop_def)

lemma tq_inv_resume:
  assumes "tq_inv q" "tq_loop q = AwaitBuffered" "tq_sendBufferedData q"
  shows "tq_inv (tq_resume q)"
proof (cases "tq_executing q")
  case True
  with assms have ne: "tq_buffer q \<noteq> []" and "tq_transportResult q \<noteq> None" by (auto simp: tq_inv_def)
  with tq_batch_ok [OF ne] True assms show ?thesis
    by (auto simp: tq_inv_def tq_resume_def same_type_def)
next
  case False
  have "promises_inv LoopEnded (tq_transportResult q)
     (case tq_transportResult q of
        Some p \<Rightarrow> PromiseSource_settle (Rejected (ThrownString ''Connection stopped.'')) p (tq_promises q)
      | None \<Rightarrow> tq_promises q)"
    using assms(1,2) by (intro promises_inv_end) (auto simp: tq_inv_def)
  with assms False show ?thesis
    by (cases "tq_transportResult q") (auto simp: tq_inv_def tq_resume_def PromiseSource_reject_def)
qed

lemma tq_inv_AwaitSend: "tq_inv q \<Longrightarrow> tq_loop q = AwaitSend r \<Longrightarrow> \<exists>s. r = Some s"
  by (cases r) (simp_all add: tq_inv_def)

lemma tq_inv_settled:
  assumes "tq_inv q" "tq_loop q = AwaitSend r"
  shows "tq_inv (tq_sent_done r x q)"
proof -
  obtain s where s: "r = Some s" using tq_inv_AwaitSend [OF assms] by blast
  have "promises_inv AwaitBuffered (tq_transportResult q) (PromiseSource_settle st s (tq_promises q))"
    if "st \<noteq> Pending" for st
    using assms s that by (intro promises_inv_settle) (auto simp: tq_inv_def)
  with assms s show ?thesis
    by (cases x) (simp_all add: tq_inv_def tq_sent_done_def PromiseSource_resolve_def PromiseSource_reject_def)
qed

lemma tq_inv_step: "tq_inv q \<Longrightarrow> tq_step q e q' \<Longrightarrow> tq_inv q'"
  by (erule tq_stepE) (auto intro: tq_inv_send tq_inv_stop tq_inv_resume tq_inv_settled)

lemma tq_inv_runs: "runs tq_step TransportSendQueue_new es q \<Longrightarrow> tq_inv q"
  by (rule runs_invariant [where P = tq_inv, OF _ tq_inv_new tq_inv_step])

section \<open>What goes out is what was put in\<close>

text \<open>
  A queue that takes data in and sometimes hands everything pending out as one batch. \<open>inp\<close> is the data
  a label puts in, \<open>pend\<close> what is waiting, \<open>out\<close> the batches handed out so far.
\<close>

locale batching_queue =
  fixes step :: "'s \<Rightarrow> 'e \<Rightarrow> 's \<Rightarrow> bool"
    and inv :: "'s \<Rightarrow> bool"
    and inp :: "'e \<Rightarrow> 'd list"
    and pend :: "'s \<Rightarrow> 'd list"
    and out :: "'s \<Rightarrow> 'o list"
    and batch :: "'d list \<Rightarrow> 'o"
  assumes inv_step: "inv s \<Longrightarrow> step s e s' \<Longrightarrow> inv s'"
    and step_io: "inv s \<Longrightarrow> step s e s' \<Longrightarrow>
      (out s' = out s \<and> pend s' = pend s @ inp e) \<or>
      (inp e = [] \<and> pend s \<noteq> [] \<and> pend s' = [] \<and> out s' = out s @ [batch (pend s)])"
begin

lemma runs_inv: "runs step s es s' \<Longrightarrow> inv s \<Longrightarrow> inv s'"
  by (erule runs_invariant) (auto intro: inv_step)

lemma runs_batches:
  assumes "runs step s es s'" "inv s" "pend s = []"
  shows "\<exists>bs. out s' = out s @ map batch bs \<and> concat bs @ pend s' = concat (map inp es) \<and> [] \<notin> set bs"
  using assms
proof (induction rule: runs.induct)
  case (runs_Nil s)
  then show ?case by (intro exI [of _ "[]"]) simp
next
  case (runs_snoc s es s' e s'')
  then obtain bs where bs: "out s' = out s @ map batch bs" "concat bs @ pend s' = concat (map inp es)"
    "[] \<notin> set bs" by blast
  have "inv s'" using runs_snoc.hyps(1) runs_snoc.prems(1) by (rule runs_inv)
  from step_io [OF this runs_snoc.hyps(2)] show ?case
  proof
    assume "out s'' = out s' \<and> pend s'' = pend s' @ inp e"
    moreover have "concat bs @ pend s' @ inp e = concat (map inp (es @ [e]))"
      using bs(2) by (simp add: append_assoc [symmetric] del: append_assoc)
    ultimately show ?thesis using bs by (intro exI [of _ bs]) simp
  next
    assume "inp e = [] \<and> pend s' \<noteq> [] \<and> pend s'' = [] \<and> out s'' = out s' @ [batch (pend s')]"
    with bs show ?thesis by (intro exI [of _ "bs @ [pend s']"]) auto
  qed
qed

end

text \<open>The data accepted along a run, each with the promise its sender got.\<close>

fun tq_input :: "tq_event \<Rightarrow> (nat \<times> wire_data) list" where
  "tq_input (TqSend d p) = [(p, d)]"
| "tq_input _ = []"

definition tq_pending :: "send_queue \<Rightarrow> (nat \<times> wire_data) list" where
  "tq_pending q = (case tq_transportResult q of Some p \<Rightarrow> map (Pair p) (tq_buffer q) | None \<Rightarrow> [])"

definition batch_of :: "(nat \<times> wire_data) list \<Rightarrow> nat option \<times> wire_data" where
  "batch_of pds = (Some (fst (hd pds)), projr (tq_batch (map snd pds)))"

lemma tq_send_io:
  assumes "tq_inv q" "tq_send d q = Inr (p, q')"
  shows "tq_sent q' = tq_sent q \<and> tq_pending q' = tq_pending q @ [(p, d)]"
proof (cases "tq_transportResult q")
  case None
  with assms(1) have "tq_buffer q = []" by (auto simp: tq_inv_def)
  with None assms(2) show ?thesis by (auto simp: tq_send_eq tq_pending_def)
next
  case (Some r)
  with assms(2) show ?thesis by (auto simp: tq_send_eq tq_pending_def split: if_splits)
qed

lemma tq_resume_io:
  assumes "tq_inv q" "tq_loop q = AwaitBuffered" "tq_sendBufferedData q"
  shows "(tq_sent (tq_resume q) = tq_sent q \<and> tq_pending (tq_resume q) = tq_pending q) \<or>
    (tq_pending q \<noteq> [] \<and> tq_pending (tq_resume q) = [] \<and> tq_sent (tq_resume q) = tq_sent q @ [batch_of (tq_pending q)])"
proof (cases "tq_executing q")
  case True
  with assms obtain p where ne: "tq_buffer q \<noteq> []" and p: "tq_transportResult q = Some p" by (auto simp: tq_inv_def)
  obtain d where "tq_batch (tq_buffer q) = Inr d" using tq_batch_ok [OF ne] by blast
  with True p ne show ?thesis
    by (simp add: tq_resume_def tq_pending_def batch_of_def comp_def hd_map)
next
  case False
  then show ?thesis by (simp add: tq_resume_def tq_pending_def split: option.split)
qed

lemma tq_step_io:
  assumes "tq_inv q" "tq_step q e q'"
  shows "(tq_sent q' = tq_sent q \<and> tq_pending q' = tq_pending q @ tq_input e) \<or>
      (tq_input e = [] \<and> tq_pending q \<noteq> [] \<and> tq_pending q' = [] \<and> tq_sent q' = tq_sent q @ [batch_of (tq_pending q)])"
  using assms(2)
proof (cases rule: tq_step.cases)
  case step_stop
  then show ?thesis by (simp add: tq_stop_def tq_pending_def split: option.split)
next
  case step_resume
  with tq_resume_io [OF assms(1)] show ?thesis by simp
next
  case (step_settled p r)
  then show ?thesis by (simp add: tq_sent_done_def tq_pending_def split: option.split)
qed (use assms(1) tq_send_io in auto)

interpretation tq: batching_queue tq_step tq_inv tq_input tq_pending tq_sent batch_of
  by unfold_locales (use tq_inv_step tq_step_io in blast)+

lemma tq_new_io [simp]: "tq_pending TransportSendQueue_new = []" "tq_sent TransportSendQueue_new = []"
  by (simp_all add: TransportSendQueue_new_def tq_pending_def)

lemma tq_batches:
  assumes "runs tq_step TransportSendQueue_new es q"
  shows "\<exists>bs. tq_sent q = map batch_of bs \<and> concat bs @ tq_pending q = concat (map tq_input es) \<and> [] \<notin> set bs"
  using tq.runs_batches [OF assms tq_inv_new] by simp

lemma batch_of_messages:
  "b \<noteq> [] \<Longrightarrow> map snd b = map (WText \<circ> writeMessage) ms \<Longrightarrow>
     snd (batch_of b) = WText (concat (map writeMessage ms))"
  using tq_batch_text [of "map writeMessage ms"] by (cases ms) (auto simp: batch_of_def)

lemma map_snd_concat_split:
  assumes "map snd (concat bs @ r) = map f ms"
  shows "\<exists>mss rest. concat mss @ rest = ms \<and> map snd r = map f rest \<and> list_all2 (\<lambda>b m. map snd b = map f m) bs mss"
  using assms
proof (induction bs arbitrary: ms)
  case (Cons b bs)
  then have eq: "map snd b @ map snd (concat bs @ r) = map f ms" by simp
  then obtain m1 m2 where ms: "ms = m1 @ m2" "map snd b = map f m1" "map snd (concat bs @ r) = map f m2"
    by (auto simp only: append_eq_map_conv)
  from Cons.IH [OF ms(3)] obtain mss rest where "concat mss @ rest = m2" "map snd r = map f rest"
    "list_all2 (\<lambda>b m. map snd b = map f m) bs mss" by blast
  with ms show ?case by (intro exI [of _ "m1 # mss"] exI [of _ rest]) auto
qed auto

lemma list_all2_mono_set:
  "list_all2 P xs ys \<Longrightarrow> (\<And>x y. (x, y) \<in> set (zip xs ys) \<Longrightarrow> P x y \<Longrightarrow> Q x y) \<Longrightarrow> list_all2 Q xs ys"
  by (auto simp: list_all2_iff)

lemma tq_resume_stopped:
  assumes "tq_inv q" "tq_loop q = AwaitBuffered" "\<not> tq_executing q"
  shows "tq_step q TqResume (tq_resume q) \<and> tq_loop (tq_resume q) = LoopEnded \<and> list_all settled (tq_promises (tq_resume q))"
proof -
  have "tq_step q TqResume (tq_resume q)"
    using assms by (intro step_resume) (auto simp: tq_inv_def)
  moreover have "list_all settled (tq_promises (tq_resume q))"
    using assms by (cases "tq_transportResult q")
      (auto simp: tq_inv_def tq_resume_def list_all_length settled_def PromiseSource_reject_def
        PromiseSource_settle_def nth_list_update)
  moreover have "tq_loop (tq_resume q) = LoopEnded"
    using assms(3) by (simp add: tq_resume_def split: option.split)
  ultimately show ?thesis by blast
qed

lemma tq_sent_done_stopped:
  assumes "tq_inv q" "tq_loop q = AwaitSend p" "\<not> tq_executing q"
  shows "tq_step q (TqSettled r) (tq_sent_done p r q) \<and> tq_inv (tq_sent_done p r q) \<and>
    tq_loop (tq_sent_done p r q) = AwaitBuffered \<and> \<not> tq_executing (tq_sent_done p r q)"
  using tq_inv_AwaitSend [OF assms(1,2)] assms tq_inv_settled [OF assms(1,2)] step_settled [OF assms(2)]
  by (auto simp: tq_sent_done_def)

section \<open>Properties\<close>


text \<open>
  C27: once the queue is stopped its loop ends, whatever the transport answers, and no promise that was
  handed out stays pending: the loop is left after the send in flight settles and one more turn.
\<close>

theorem send_queue_stop_settles_all:
  assumes "runs tq_step TransportSendQueue_new es q" and "\<not> tq_executing q"
  shows "case tq_loop q of
      AwaitBuffered \<Rightarrow> tq_step q TqResume (tq_resume q) \<and> tq_loop (tq_resume q) = LoopEnded \<and>
        list_all settled (tq_promises (tq_resume q))
    | AwaitSend p \<Rightarrow>
        (\<forall>r. let q' = tq_sent_done p r q in
           tq_step q (TqSettled r) q' \<and> tq_step q' TqResume (tq_resume q') \<and>
           tq_loop (tq_resume q') = LoopEnded \<and> list_all settled (tq_promises (tq_resume q')))
    | LoopEnded \<Rightarrow> True
    | LoopThrew e \<Rightarrow> False"
proof -
  have inv: "tq_inv q" using assms(1) by (rule tq_inv_runs)
  show ?thesis
  proof (cases "tq_loop q")
    case AwaitBuffered
    with tq_resume_stopped [OF inv _ assms(2)] show ?thesis by simp
  next
    case (AwaitSend p)
    with tq_sent_done_stopped [OF inv AwaitSend assms(2)] tq_resume_stopped show ?thesis by (simp add: Let_def)
  next
    case (LoopThrew e)
    with inv show ?thesis by (simp add: tq_inv_def)
  qed simp
qed

lemma tq_demo_run:
  "runs tq_step TransportSendQueue_new [TqSend (WText ''ab'') 0, TqSend (WText ''c'') 0, TqResume]
     (tq_resume (TransportSendQueue_new\<lparr>tq_buffer := [WText ''ab'', WText ''c''], tq_sendBufferedData := True\<rparr>))"
proof -
  let ?q1 = "TransportSendQueue_new\<lparr>tq_buffer := [WText ''ab''], tq_sendBufferedData := True\<rparr>"
  let ?q2 = "TransportSendQueue_new\<lparr>tq_buffer := [WText ''ab'', WText ''c''], tq_sendBufferedData := True\<rparr>"
  have "tq_step TransportSendQueue_new (TqSend (WText ''ab'') 0) ?q1"
    by (intro step_send) (simp add: tq_send_eq TransportSendQueue_new_def)
  moreover have "tq_step ?q1 (TqSend (WText ''c'') 0) ?q2"
    by (intro step_send) (simp add: tq_send_eq TransportSendQueue_new_def)
  moreover have "tq_step ?q2 TqResume (tq_resume ?q2)"
    by (intro step_resume) (simp_all add: TransportSendQueue_new_def)
  ultimately show ?thesis by (auto intro!: runs_cons [of tq_step] runs_Nil)
qed


theorem send_queue_stop_settles_all_witness:
  "tq_loop (tq_resume (tq_stop TransportSendQueue_new)) = LoopEnded \<and>
   list_all settled (tq_promises (tq_resume (tq_stop TransportSendQueue_new)))"
  using send_queue_stop_settles_all [OF runs_one [of tq_step, OF step_stop [of TransportSendQueue_new]]]
  by (simp add: tq_stop_def TransportSendQueue_new_def)

text \<open>
  C5: the hub connection's messages survive the queue. When the data put in are messages written by
  the JSON hub protocol, every piece of data the transport gets parses, on its own, into a group of
  whole messages, and the groups together with the messages still buffered are the messages in order.
\<close>

theorem send_queue_delivers_messages:
  assumes "runs tq_step TransportSendQueue_new es q"
    and "map snd (concat (map tq_input es)) = map (WText \<circ> writeMessage) ms"
    and "list_all valid_message ms"
  shows "\<exists>groups rest. concat groups @ rest = ms \<and> map snd (tq_pending q) = map (WText \<circ> writeMessage) rest \<and>
    list_all2 (\<lambda>d g. \<exists>t. snd d = WText t \<and> parseMessages (JStr t) = ([], Inr g)) (tq_sent q) groups"
proof -
  obtain bs where bs: "tq_sent q = map batch_of bs" "concat bs @ tq_pending q = concat (map tq_input es)"
    "[] \<notin> set bs" using tq_batches [OF assms(1)] by blast
  then have "map snd (concat bs @ tq_pending q) = map (WText \<circ> writeMessage) ms" using assms(2) by simp
  then obtain mss rest where m: "concat mss @ rest = ms" "map snd (tq_pending q) = map (WText \<circ> writeMessage) rest"
    "list_all2 (\<lambda>b m. map snd b = map (WText \<circ> writeMessage) m) bs mss" using map_snd_concat_split by blast
  have valid: "list_all valid_message g" if "g \<in> set mss" for g
    using assms(3) m(1) that by (auto simp: list_all_iff)
  have "list_all2 (\<lambda>b g. \<exists>t. snd (batch_of b) = WText t \<and> parseMessages (JStr t) = ([], Inr g)) bs mss"
    using m(3)
  proof (rule list_all2_mono_set)
    fix b g assume "(b, g) \<in> set (zip bs mss)" and eq: "map snd b = map (WText \<circ> writeMessage) g"
    then have "b \<in> set bs" "g \<in> set mss" by (auto dest: set_zip_leftD set_zip_rightD)
    with bs(3) have "b \<noteq> []" by auto
    with batch_of_messages [OF _ eq] valid_messages_split [OF valid [OF \<open>g \<in> set mss\<close>]]
    show "\<exists>t. snd (batch_of b) = WText t \<and> parseMessages (JStr t) = ([], Inr g)"
      by (simp add: parseMessages_of_writes)
  qed
  with m bs(1) show ?thesis by (auto simp: list_all2_map1)
qed

theorem send_queue_delivers_messages_witness:
  "let ping = JObj [(''type'', JNum 6)]; d = WText (writeMessage ping);
       q1 = TransportSendQueue_new\<lparr>tq_buffer := [d], tq_sendBufferedData := True\<rparr> in
   runs tq_step TransportSendQueue_new [TqSend d 0] q1 \<and> valid_message ping \<and>
   (\<exists>groups rest. concat groups @ rest = [ping] \<and> map snd (tq_pending q1) = map (WText \<circ> writeMessage) rest \<and>
      list_all2 (\<lambda>d g. \<exists>t. snd d = WText t \<and> parseMessages (JStr t) = ([], Inr g)) (tq_sent q1) groups)"
proof -
  let ?ping = "JObj [(''type'', JNum 6)]"
  let ?d = "WText (writeMessage ?ping)"
  let ?q1 = "TransportSendQueue_new\<lparr>tq_buffer := [?d], tq_sendBufferedData := True\<rparr>"
  have r: "runs tq_step TransportSendQueue_new [TqSend ?d 0] ?q1"
    by (rule runs_one [of tq_step], intro step_send) (simp add: tq_send_eq TransportSendQueue_new_def)
  have v: "valid_message ?ping"
    by (simp add: valid_message_def checkMessage_def MT_defs)
  show ?thesis
    unfolding Let_def using r v send_queue_delivers_messages [OF r, of "[?ping]"] by simp
qed

end
