(* ===== verification/Sr_HubConnection.thy ===== *)
theory Sr_HubConnection
  imports Sr_HubMessages Sr_SendQueue
begin

text \<open>
  The state machine of HubConnection.ts. The fields of the class are grouped in \<open>registry\<close> (invocations
  and handlers), \<open>clock\<close> (time and timers) and \<open>hub\<close>. An \<^verbatim>\<open>async\<close> method is cut at its \<^verbatim>\<open>await\<close>s: a
  suspended call is a \<open>frame\<close>, and one label of the step relation \<open>hub_step\<close> runs one call, callback or
  continuation to its next suspension. The underlying connection is seen through its interface:
  \<open>hc_calls\<close> records the calls of \<^verbatim>\<open>start\<close>, \<^verbatim>\<open>send\<close> and \<^verbatim>\<open>stop\<close>; their outcomes, \<^verbatim>\<open>onreceive\<close> and
  \<^verbatim>\<open>onclose\<close> are labels. Application callbacks are the parameter \<open>he_app\<close>: they may call back into the
  hub while a handler runs.
\<close>

section \<open>State\<close>

definition DEFAULT_TIMEOUT_IN_MS :: int where "DEFAULT_TIMEOUT_IN_MS = 30 * 1000"
definition DEFAULT_PING_INTERVAL_IN_MS :: int where "DEFAULT_PING_INTERVAL_IN_MS = 15 * 1000"

datatype hub_state = Disconnected | Connecting | Connected | Disconnecting | Reconnecting

fun state_name :: "hub_state \<Rightarrow> string" where
  "state_name Disconnected = ''Disconnected''"
| "state_name Connecting = ''Connecting''"
| "state_name Connected = ''Connected''"
| "state_name Disconnecting = ''Disconnecting''"
| "state_name Reconnecting = ''Reconnecting''"

text \<open>
  A callback belongs to the invocation with its number: it settles the promise of \<^verbatim>\<open>invoke\<close> or feeds the
  subject of \<^verbatim>\<open>stream\<close>. \<open>rg_promises\<close> holds the promises of \<^verbatim>\<open>invoke\<close>, \<open>None\<close> while pending, and
  \<open>rg_streams\<close> the numbers of the subjects \<^verbatim>\<open>stream\<close> has returned.
\<close>

datatype callback = InvokeCallback nat | StreamCallback nat

fun callback_id :: "callback \<Rightarrow> nat" where
  "callback_id (InvokeCallback i) = i"
| "callback_id (StreamCallback i) = i"

record registry =
  rg_callbacks :: "(string \<times> callback) list"
  rg_invocationId :: nat
  rg_promises :: "(string \<times> jsval result option) list"
  rg_streams :: "nat list"
  rg_methods :: method_table

datatype timer = TimeoutTimer | PingTimer | DelayTimer nat

text \<open>A timer has its handle, what it does, when it was set and when it is due.\<close>

record clock =
  ck_now :: int
  ck_timers :: "(nat \<times> timer \<times> int \<times> int) list"
  ck_nextHandle :: nat
  ck_timeoutHandle :: "nat option"
  ck_pingServerHandle :: "nat option"
  ck_reconnectDelayHandle :: "nat option"
  ck_nextKeepAlive :: int
  ck_serverTimeout :: int
  ck_keepAliveInterval :: int

datatype conn_call = ConnStart int | ConnSend nat string | ConnStop nat "js_error option"

datatype send_cont =
    SendFrame nat
  | SendPing
  | SendInvoke nat
  | SendStream nat
  | SendUser nat
  | SendCompletion
  | SendChain nat
  | SendCancel

datatype start_at =
    AwaitConnStart nat
  | AwaitHandshakeSend nat nat
  | AwaitHandshake nat
  | AwaitPingSend nat
  | AwaitConnStop nat js_error
  | InnerDone "unit result"

record recon =
  rc_startTime :: int
  rc_attempts :: nat
  rc_delay :: jsval

datatype stop_promise = StopNow | StopConn nat

datatype frame =
    StartFrame start_at
  | ReconnectFrame recon start_at
  | ReconnectDelay recon nat
  | MethodFrame method_call "nat list" "jsval list"
  | StopAwaitStop "stop_promise option" "nat option"
  | StopAwaitStart "nat option"

text \<open>The promise chain of one \<^verbatim>\<open>_launchStreams\<close> call: what is still to be sent, in order.\<close>

record chain =
  ch_streams :: "string list"
  ch_busy :: bool
  ch_failed :: bool
  ch_waiting :: "jsval list"

record hub =
  hc_connectionState :: hub_state
  hc_connectionStarted :: bool
  hc_receivedHandshakeResponse :: bool
  hc_stopDuringStartError :: "js_error option"
  hc_handshakeResolver :: "nat option"
  hc_handshakes :: promises
  hc_reg :: registry
  hc_clock :: clock
  hc_closedCallbacks :: "nat list"
  hc_reconnectingCallbacks :: "nat list"
  hc_reconnectedCallbacks :: "nat list"
  hc_startPromise :: "nat option"
  hc_stopPromise :: "stop_promise option"
  hc_freezeListener :: bool
  hc_frames :: "(nat \<times> frame) list"
  hc_nextFrame :: nat
  hc_sends :: "(nat \<times> send_cont) list"
  hc_nextSend :: nat
  hc_nextStop :: nat
  hc_stopResults :: "(nat \<times> unit result) list"
  hc_startResults :: "(nat \<times> unit result) list"
  hc_stopDone :: "(nat \<times> unit result) list"
  hc_chains :: "(nat \<times> chain) list"
  hc_cancels :: "nat list"
  hc_inherentKeepAlive :: bool
  hc_connectionId :: "string option"
  hc_baseUrl :: string
  hc_calls :: "conn_call list"
  hc_log :: "log_entry list"

text \<open>The application code the hub calls, and with what.\<close>

datatype user_call =
    CallMethod nat "jsval list"
  | CallClosed nat "js_error option"
  | CallReconnecting nat "js_error option"
  | CallReconnected nat "string option"
  | CallSubjectNext nat jsval
  | CallSubjectError nat js_error
  | CallSubjectComplete nat
  | CallSubscribe nat string jsval

text \<open>
  What the hub is used with: the application's code, the retry policy (elapsed time, previous attempts,
  reason), whether it runs in a browser, and the engine's stack text of an error.
\<close>

record henv =
  he_app :: "user_call \<Rightarrow> hub \<Rightarrow> hub \<times> jsval result"
  he_policy :: "(int \<Rightarrow> nat \<Rightarrow> js_error \<Rightarrow> jsval result) option"
  he_browser :: bool
  he_stack :: "js_error \<Rightarrow> string"

text \<open>The constructor, for a connection object with the given features and url.\<close>

definition HubConnection_new :: "bool \<Rightarrow> string \<Rightarrow> hub" where
  "HubConnection_new inherentKeepAlive url =
     \<lparr>hc_connectionState = Disconnected, hc_connectionStarted = False, hc_receivedHandshakeResponse = False,
      hc_stopDuringStartError = None, hc_handshakeResolver = None, hc_handshakes = [],
      hc_reg = \<lparr>rg_callbacks = [], rg_invocationId = 0, rg_promises = [], rg_streams = [], rg_methods = []\<rparr>,
      hc_clock = \<lparr>ck_now = 0, ck_timers = [], ck_nextHandle = 1, ck_timeoutHandle = None, ck_pingServerHandle = None,
        ck_reconnectDelayHandle = None, ck_nextKeepAlive = 0, ck_serverTimeout = DEFAULT_TIMEOUT_IN_MS,
        ck_keepAliveInterval = DEFAULT_PING_INTERVAL_IN_MS\<rparr>,
      hc_closedCallbacks = [], hc_reconnectingCallbacks = [], hc_reconnectedCallbacks = [],
      hc_startPromise = None, hc_stopPromise = None, hc_freezeListener = False,
      hc_frames = [], hc_nextFrame = 0, hc_sends = [], hc_nextSend = 0, hc_nextStop = 0, hc_stopResults = [],
      hc_startResults = [], hc_stopDone = [], hc_chains = [], hc_cancels = [],
      hc_inherentKeepAlive = inherentKeepAlive, hc_connectionId = None, hc_baseUrl = url, hc_calls = [], hc_log = []\<rparr>"

definition cachedPingMessage :: string where
  "cachedPingMessage = writeMessage (JObj [(''type'', JNum MT_Ping)])"

section \<open>Logging, timers, sending\<close>

definition hlog :: "log_level \<Rightarrow> string \<Rightarrow> hub \<Rightarrow> hub" where
  "hlog lv m h = h\<lparr>hc_log := hc_log h @ [(lv, m)]\<rparr>"

definition ck_clear :: "nat \<Rightarrow> clock \<Rightarrow> clock" where
  "ck_clear t c = c\<lparr>ck_timers := filter (\<lambda>(t', _). t' \<noteq> t) (ck_timers c)\<rparr>"

text \<open>\<^verbatim>\<open>setTimeout\<close>: a negative delay counts as 0.\<close>

definition ck_set :: "timer \<Rightarrow> int \<Rightarrow> clock \<Rightarrow> clock \<times> nat" where
  "ck_set tm delay c =
     (c\<lparr>ck_timers := ck_timers c @ [(ck_nextHandle c, tm, ck_now c, ck_now c + max 0 delay)],
        ck_nextHandle := Suc (ck_nextHandle c)\<rparr>, ck_nextHandle c)"

definition ck_cleanupPingTimer :: "clock \<Rightarrow> clock" where
  "ck_cleanupPingTimer c =
     (case ck_pingServerHandle c of None \<Rightarrow> c | Some t \<Rightarrow> (ck_clear t c)\<lparr>ck_pingServerHandle := None\<rparr>)"

text \<open>The handle is not reset.\<close>

definition ck_cleanupTimeout :: "clock \<Rightarrow> clock" where
  "ck_cleanupTimeout c = (case ck_timeoutHandle c of None \<Rightarrow> c | Some t \<Rightarrow> ck_clear t c)"

definition ck_resetKeepAlive :: "clock \<Rightarrow> clock" where
  "ck_resetKeepAlive c = ck_cleanupPingTimer (c\<lparr>ck_nextKeepAlive := ck_now c + ck_keepAliveInterval c\<rparr>)"

definition ck_resetTimeout :: "clock \<Rightarrow> clock" where
  "ck_resetTimeout c =
     (let (c1, t) = ck_set TimeoutTimer (ck_serverTimeout c) c; c2 = c1\<lparr>ck_timeoutHandle := Some t\<rparr> in
      if ck_pingServerHandle c2 = None then
        (let nextPing = ck_nextKeepAlive c2 - ck_now c2; nextPing' = (if nextPing < 0 then 0 else nextPing);
             (c3, t') = ck_set PingTimer nextPing' c2 in c3\<lparr>ck_pingServerHandle := Some t'\<rparr>)
      else c2)"

definition on_clock :: "(clock \<Rightarrow> clock) \<Rightarrow> hub \<Rightarrow> hub" where
  "on_clock f h = h\<lparr>hc_clock := f (hc_clock h)\<rparr>"

definition cleanupPingTimer :: "hub \<Rightarrow> hub" where
  "cleanupPingTimer h = on_clock ck_cleanupPingTimer h"

definition cleanupTimeout :: "hub \<Rightarrow> hub" where
  "cleanupTimeout h = on_clock ck_cleanupTimeout h"

definition resetKeepAliveInterval :: "hub \<Rightarrow> hub" where
  "resetKeepAliveInterval h = (if hc_inherentKeepAlive h then h else on_clock ck_resetKeepAlive h)"

definition resetTimeoutPeriod :: "hub \<Rightarrow> hub" where
  "resetTimeoutPeriod h = (if \<not> hc_inherentKeepAlive h then on_clock ck_resetTimeout h else h)"

text \<open>\<^verbatim>\<open>_sendMessage\<close>; \<open>k\<close> is what continues when the connection's promise settles.\<close>

definition sendMessage :: "string \<Rightarrow> send_cont \<Rightarrow> hub \<Rightarrow> hub" where
  "sendMessage message k h =
     (let h1 = resetKeepAliveInterval h in
      h1\<lparr>hc_calls := hc_calls h1 @ [ConnSend (hc_nextSend h1) message],
         hc_sends := hc_sends h1 @ [(hc_nextSend h1, k)], hc_nextSend := Suc (hc_nextSend h1)\<rparr>)"

definition sendWithProtocol :: "jsval \<Rightarrow> send_cont \<Rightarrow> hub \<Rightarrow> hub" where
  "sendWithProtocol message k h = sendMessage (writeMessage message) k h"

definition conn_stop :: "js_error option \<Rightarrow> hub \<Rightarrow> hub \<times> nat" where
  "conn_stop e h = (h\<lparr>hc_calls := hc_calls h @ [ConnStop (hc_nextStop h) e], hc_nextStop := Suc (hc_nextStop h)\<rparr>, hc_nextStop h)"

definition serverTimeout :: "hub \<Rightarrow> hub" where
  "serverTimeout h = fst (conn_stop (Some (Error ''Server timeout elapsed without receiving a message from the server.'')) h)"

definition add_frame :: "frame \<Rightarrow> hub \<Rightarrow> hub" where
  "add_frame f h = h\<lparr>hc_frames := hc_frames h @ [(hc_nextFrame h, f)], hc_nextFrame := Suc (hc_nextFrame h)\<rparr>"

definition set_frame :: "nat \<Rightarrow> frame option \<Rightarrow> hub \<Rightarrow> hub" where
  "set_frame i f h =
     h\<lparr>hc_frames := (case f of None \<Rightarrow> filter (\<lambda>(j, _). j \<noteq> i) (hc_frames h)
                      | Some x \<Rightarrow> map (\<lambda>(j, y). if j = i then (j, x) else (j, y)) (hc_frames h))\<rparr>"

section \<open>Invocations\<close>

definition on_reg :: "(registry \<Rightarrow> registry) \<Rightarrow> hub \<Rightarrow> hub" where
  "on_reg f h = h\<lparr>hc_reg := f (hc_reg h)\<rparr>"

text \<open>\<^verbatim>\<open>resolve\<close> and \<^verbatim>\<open>reject\<close> of the promise of an \<^verbatim>\<open>invoke\<close>: only the first call has an effect.\<close>

definition rg_settle :: "nat \<Rightarrow> jsval result \<Rightarrow> registry \<Rightarrow> registry" where
  "rg_settle i r g =
     (if obj_get (rg_promises g) (nat_digits i) = Some None
      then g\<lparr>rg_promises := obj_set (nat_digits i) (Some r) (rg_promises g)\<rparr> else g)"

definition rg_delete :: "string \<Rightarrow> registry \<Rightarrow> registry" where
  "rg_delete k g = g\<lparr>rg_callbacks := obj_del k (rg_callbacks g)\<rparr>"

definition message_prop :: "jsval \<Rightarrow> string \<Rightarrow> jsval" where
  "message_prop m k = (case get_prop m k of Inr v \<Rightarrow> v | Inl _ \<Rightarrow> JUndef)"

text \<open>The closure \<^verbatim>\<open>invoke\<close> stores: called with a message, or with an error.\<close>

definition invoke_callback :: "nat \<Rightarrow> jsval + js_error \<Rightarrow> registry \<Rightarrow> registry" where
  "invoke_callback i arg g =
     (case arg of
        Inr error \<Rightarrow> rg_settle i (Inl error) g
      | Inl event \<Rightarrow>
          if message_prop event ''type'' = JNum MT_Completion then
            (if truthy (message_prop event ''error'')
             then rg_settle i (Inl (Error (js_to_string (message_prop event ''error'')))) g
             else rg_settle i (Inr (message_prop event ''result'')) g)
          else rg_settle i (Inl (Error (''Unexpected message type: '' @ js_to_string (message_prop event ''type'')))) g)"

text \<open>The closure \<^verbatim>\<open>stream\<close> stores: what it calls on its subject.\<close>

definition stream_call :: "nat \<Rightarrow> jsval + js_error \<Rightarrow> user_call" where
  "stream_call i arg =
     (case arg of
        Inr error \<Rightarrow> CallSubjectError i error
      | Inl event \<Rightarrow>
          if message_prop event ''type'' = JNum MT_Completion then
            (if truthy (message_prop event ''error'')
             then CallSubjectError i (Error (js_to_string (message_prop event ''error'')))
             else CallSubjectComplete i)
          else CallSubjectNext i (message_prop event ''item''))"

definition run_callback :: "henv \<Rightarrow> callback \<Rightarrow> jsval + js_error \<Rightarrow> hub \<Rightarrow> hub \<times> js_error option" where
  "run_callback env cb arg h =
     (case cb of
        InvokeCallback i \<Rightarrow> (on_reg (invoke_callback i arg) h, None)
      | StreamCallback i \<Rightarrow>
          (case he_app env (stream_call i arg) h of (h', Inl e) \<Rightarrow> (h', Some e) | (h', Inr _) \<Rightarrow> (h', None)))"

fun cancel_loop :: "henv \<Rightarrow> js_error \<Rightarrow> (string \<times> callback) list \<Rightarrow> hub \<Rightarrow> hub" where
  "cancel_loop env error [] h = h"
| "cancel_loop env error ((k, cb) # cbs) h =
     (case run_callback env cb (Inr error) h of
        (h1, None) \<Rightarrow> cancel_loop env error cbs h1
      | (h1, Some e) \<Rightarrow>
          cancel_loop env error cbs
            (hlog LError (''Stream '' @ sq ''error'' @ '' callback called with '' @ sq (err_to_string error)
               @ '' threw error: '' @ getErrorString (he_stack env e) e) h1))"

text \<open>
  \<^verbatim>\<open>_cancelCallbacksWithError\<close>: the table is replaced first. \<^verbatim>\<open>Object.keys\<close> lists the numeric keys in
  ascending order, which is the order they were added in.
\<close>

definition cancelCallbacksWithError :: "henv \<Rightarrow> js_error \<Rightarrow> hub \<Rightarrow> hub" where
  "cancelCallbacksWithError env error h =
     cancel_loop env error (rg_callbacks (hc_reg h)) (on_reg (\<lambda>g. g\<lparr>rg_callbacks := []\<rparr>) h)"

section \<open>Closing\<close>

text \<open>\<^verbatim>\<open>forEach\<close> over application callbacks inside a \<^verbatim>\<open>try\<close>: the first that throws ends the loop.\<close>

fun call_all :: "henv \<Rightarrow> user_call list \<Rightarrow> hub \<Rightarrow> hub \<times> js_error option" where
  "call_all env [] h = (h, None)"
| "call_all env (c # cs) h =
     (case he_app env c h of (h', Inl e) \<Rightarrow> (h', Some e) | (h', Inr _) \<Rightarrow> call_all env cs h')"

definition completeClose :: "henv \<Rightarrow> js_error option \<Rightarrow> hub \<Rightarrow> hub" where
  "completeClose env error h =
     (if hc_connectionStarted h then
        (let h1 = h\<lparr>hc_connectionState := Disconnected, hc_connectionStarted := False,
                    hc_freezeListener := (if he_browser env then False else hc_freezeListener h)\<rparr> in
         case call_all env (map (\<lambda>c. CallClosed c error) (hc_closedCallbacks h1)) h1 of
           (h2, None) \<Rightarrow> h2
         | (h2, Some e) \<Rightarrow> hlog LError (''An onclose callback called with error '' @ sq (opt_err_to_string error)
                             @ '' threw error '' @ sq (err_to_string e) @ ''.'') h2)
      else h)"

definition stopInternal :: "henv \<Rightarrow> js_error option \<Rightarrow> hub \<Rightarrow> hub \<times> stop_promise option" where
  "stopInternal env error h =
     (if hc_connectionState h = Disconnected then
        (hlog LDebug (''Call to HubConnection.stop('' @ opt_err_to_string error
           @ '') ignored because it is already in the disconnected state.'') h, Some StopNow)
      else if hc_connectionState h = Disconnecting then
        (hlog LDebug (''Call to HttpConnection.stop('' @ opt_err_to_string error
           @ '') ignored because the connection is already in the disconnecting state.'') h, hc_stopPromise h)
      else
        (let h1 = hlog LDebug ''Stopping HubConnection.'' (h\<lparr>hc_connectionState := Disconnecting\<rparr>) in
         case ck_reconnectDelayHandle (hc_clock h1) of
           Some t \<Rightarrow>
             (let h2 = hlog LDebug ''Connection stopped during reconnect delay. Done reconnecting.'' h1;
                  h3 = on_clock (\<lambda>c. (ck_clear t c)\<lparr>ck_reconnectDelayHandle := None\<rparr>) h2
              in (completeClose env None h3, Some StopNow))
         | None \<Rightarrow>
             (let h2 = cleanupPingTimer (cleanupTimeout h1);
                  h3 = h2\<lparr>hc_stopDuringStartError := Some (case error of Some e \<Rightarrow> e
                       | None \<Rightarrow> AbortError ''The connection was stopped before the hub handshake could complete.'')\<rparr>;
                  (h4, k) = conn_stop error h3
              in (h4, Some (StopConn k)))))"

section \<open>Reconnecting\<close>

definition getNextRetryDelay :: "henv \<Rightarrow> nat \<Rightarrow> int \<Rightarrow> js_error \<Rightarrow> hub \<Rightarrow> hub \<times> jsval" where
  "getNextRetryDelay env previousRetryCount elapsedMilliseconds retryReason h =
     (case (case he_policy env of
              Some f \<Rightarrow> f elapsedMilliseconds previousRetryCount retryReason
            | None \<Rightarrow> Inl (TypeError (''Cannot read properties of undefined (reading '' @ sq ''nextRetryDelayInMilliseconds'' @ '')''))) of
        Inr d \<Rightarrow> (h, d)
      | Inl e \<Rightarrow> (hlog LError (''IRetryPolicy.nextRetryDelayInMilliseconds('' @ nat_digits previousRetryCount @ '', ''
                     @ int_to_string elapsedMilliseconds @ '') threw error '' @ sq (err_to_string e) @ ''.'') h, JNull))"

definition delay_ms :: "jsval \<Rightarrow> int" where
  "delay_ms v = (case v of JNum n \<Rightarrow> n | JBool True \<Rightarrow> 1 | _ \<Rightarrow> 0)"

text \<open>
  The body of the loop up to the delay: frame \<open>i\<close> waits for its timer. When the policy gives up, the
  loop ends and the connection closes.
\<close>

definition reconnect_turn :: "henv \<Rightarrow> nat \<Rightarrow> recon \<Rightarrow> hub \<Rightarrow> hub" where
  "reconnect_turn env i rc h =
     (if rc_delay rc \<noteq> JNull then
        (let h1 = hlog LInformation (''Reconnect attempt number '' @ nat_digits (rc_attempts rc) @ '' will start in ''
                    @ js_to_string (rc_delay rc) @ '' ms.'') h;
             (c, t) = ck_set (DelayTimer i) (delay_ms (rc_delay rc)) (hc_clock h1)
         in set_frame i (Some (ReconnectDelay rc t)) (h1\<lparr>hc_clock := c\<lparr>ck_reconnectDelayHandle := Some t\<rparr>\<rparr>))
      else
        completeClose env None
          (set_frame i None
            (hlog LInformation (''Reconnect retries have been exhausted after ''
               @ int_to_string (ck_now (hc_clock h) - rc_startTime rc) @ '' ms and '' @ nat_digits (rc_attempts rc)
               @ '' failed attempts. Connection disconnecting.'') h)))"

definition reconnect :: "henv \<Rightarrow> js_error option \<Rightarrow> hub \<Rightarrow> hub" where
  "reconnect env error h =
     (let reconnectStartTime = ck_now (hc_clock h);
          retryError = (case error of Some e \<Rightarrow> e | None \<Rightarrow> Error ''Attempting to reconnect due to a unknown error.'');
          (h1, nextRetryDelay) = getNextRetryDelay env 0 0 retryError h
      in if nextRetryDelay = JNull then
           completeClose env error
             (hlog LDebug ''Connection not reconnecting because the IRetryPolicy returned null on the first reconnect attempt.'' h1)
         else
           (let h2 = hlog LInformation
                  (case error of Some e \<Rightarrow> ''Connection reconnecting because of error '' @ sq (err_to_string e) @ ''.''
                   | None \<Rightarrow> ''Connection reconnecting.'') (h1\<lparr>hc_connectionState := Reconnecting\<rparr>);
                h3 = (case call_all env (map (\<lambda>c. CallReconnecting c error) (hc_reconnectingCallbacks h2)) h2 of
                        (g, None) \<Rightarrow> g
                      | (g, Some e) \<Rightarrow> hlog LError (''An onreconnecting callback called with error '' @ sq (opt_err_to_string error)
                                         @ '' threw error '' @ sq (err_to_string e) @ ''.'') g)
            in if hc_reconnectingCallbacks h2 \<noteq> [] \<and> hc_connectionState h3 \<noteq> Reconnecting then
                 hlog LDebug ''Connection left the reconnecting state in onreconnecting callback. Done reconnecting.'' h3
               else
                 (let rc = \<lparr>rc_startTime = reconnectStartTime, rc_attempts = 1, rc_delay = nextRetryDelay\<rparr>;
                      i = hc_nextFrame h3
                  in reconnect_turn env i rc (add_frame (ReconnectDelay rc 0) h3))))"

definition connectionClosed :: "henv \<Rightarrow> js_error option \<Rightarrow> hub \<Rightarrow> hub" where
  "connectionClosed env error h =
     (let h1 = hlog LDebug (''HubConnection.connectionClosed('' @ opt_err_to_string error @ '') called while in state ''
                 @ state_name (hc_connectionState h) @ ''.'') h;
          h2 = h1\<lparr>hc_stopDuringStartError := Some (case hc_stopDuringStartError h1 of Some e \<Rightarrow> e
                  | None \<Rightarrow> (case error of Some e \<Rightarrow> e
                      | None \<Rightarrow> AbortError ''The underlying connection was closed before the hub handshake could complete.''))\<rparr>;
          h3 = (case hc_handshakeResolver h2 of
                  Some p \<Rightarrow> h2\<lparr>hc_handshakes := PromiseSource_resolve p (hc_handshakes h2)\<rparr> | None \<Rightarrow> h2);
          h4 = cancelCallbacksWithError env
                 (case error of Some e \<Rightarrow> e
                  | None \<Rightarrow> Error ''Invocation canceled due to the underlying connection being closed.'') h3;
          h5 = cleanupPingTimer (cleanupTimeout h4)
      in if hc_connectionState h5 = Disconnecting then completeClose env error h5
         else if hc_connectionState h5 = Connected \<and> he_policy env \<noteq> None then reconnect env error h5
         else if hc_connectionState h5 = Connected then completeClose env error h5
         else h5)"

section \<open>Starting\<close>

text \<open>\<^verbatim>\<open>_startInternal\<close> up to \<^verbatim>\<open>await this.connection.start\<close>: a new handshake promise and the call.\<close>

definition startInternal :: "hub \<Rightarrow> hub \<times> start_at" where
  "startInternal h =
     (let hp = length (hc_handshakes h) in
      (h\<lparr>hc_stopDuringStartError := None, hc_receivedHandshakeResponse := False,
         hc_handshakes := hc_handshakes h @ [Pending], hc_handshakeResolver := Some hp,
         hc_calls := hc_calls h @ [ConnStart (pr_transferFormat JsonHubProtocol)]\<rparr>,
       AwaitConnStart hp))"

text \<open>The \<^verbatim>\<open>catch\<close> block up to \<^verbatim>\<open>await this.connection.stop(e)\<close>.\<close>

definition start_failed :: "js_error \<Rightarrow> hub \<Rightarrow> hub \<times> start_at" where
  "start_failed e h =
     (let h1 = hlog LDebug (''Hub handshake failed with error '' @ sq (err_to_string e)
                 @ '' during start(). Stopping HubConnection.'') h;
          (h2, k) = conn_stop (Some e) (cleanupPingTimer (cleanupTimeout h1))
      in (h2, AwaitConnStop k e))"

definition handshakeRequest :: jsval where
  "handshakeRequest = JObj [(''protocol'', JStr (pr_name JsonHubProtocol)), (''version'', JNum (pr_version JsonHubProtocol))]"

text \<open>The continuations of \<^verbatim>\<open>_startInternal\<close> in frame \<open>i\<close>, one per \<^verbatim>\<open>await\<close>.\<close>

definition after_conn_start :: "nat \<Rightarrow> nat \<Rightarrow> unit result \<Rightarrow> hub \<Rightarrow> hub \<times> start_at" where
  "after_conn_start i hp r h =
     (case r of
        Inl e \<Rightarrow> (h, InnerDone (Inl e))
      | Inr _ \<Rightarrow>
          (let h1 = hlog LDebug ''Sending handshake request.'' h in
           (sendMessage (writeHandshakeRequest handshakeRequest) (SendFrame i) h1, AwaitHandshakeSend hp (hc_nextSend h1))))"

definition after_handshake_send :: "nat \<Rightarrow> unit result \<Rightarrow> hub \<Rightarrow> hub \<times> start_at" where
  "after_handshake_send hp r h =
     (case r of
        Inl e \<Rightarrow> start_failed e h
      | Inr _ \<Rightarrow>
          (let h1 = hlog LInformation (''Using HubProtocol '' @ sq (pr_name JsonHubProtocol) @ ''.'') h in
           (resetKeepAliveInterval (resetTimeoutPeriod (cleanupTimeout h1)), AwaitHandshake hp)))"

definition after_handshake :: "nat \<Rightarrow> promise_state \<Rightarrow> hub \<Rightarrow> hub \<times> start_at" where
  "after_handshake i st h =
     (case st of
        Rejected e \<Rightarrow> start_failed e h
      | _ \<Rightarrow>
          (case hc_stopDuringStartError h of
             Some e \<Rightarrow> start_failed e h
           | None \<Rightarrow>
               if \<not> hc_inherentKeepAlive h then
                 (sendMessage cachedPingMessage (SendFrame i) h, AwaitPingSend (hc_nextSend h))
               else (h, InnerDone (Inr ()))))"

definition after_ping_send :: "unit result \<Rightarrow> hub \<Rightarrow> hub \<times> start_at" where
  "after_ping_send r h = (case r of Inl e \<Rightarrow> start_failed e h | Inr _ \<Rightarrow> (h, InnerDone (Inr ())))"

definition after_conn_stop :: "js_error \<Rightarrow> unit result \<Rightarrow> hub \<Rightarrow> hub \<times> start_at" where
  "after_conn_stop e r h = (case r of Inl e' \<Rightarrow> (h, InnerDone (Inl e')) | Inr _ \<Rightarrow> (h, InnerDone (Inl e)))"

text \<open>\<^verbatim>\<open>start\<close>: the promise is the number of its frame.\<close>

definition hub_start :: "hub \<Rightarrow> hub" where
  "hub_start h =
     (let i = hc_nextFrame h; h0 = h\<lparr>hc_startPromise := Some i\<rparr> in
      if hc_connectionState h \<noteq> Disconnected then
        h0\<lparr>hc_nextFrame := Suc i, hc_startResults := hc_startResults h0
             @ [(i, Inl (Error (''Cannot start a HubConnection that is not in the '' @ sq ''Disconnected'' @ '' state.'')))]\<rparr>
      else
        (let (h1, at) = startInternal (hlog LDebug ''Starting HubConnection.'' (h0\<lparr>hc_connectionState := Connecting\<rparr>))
         in add_frame (StartFrame at) h1))"

text \<open>The rest of \<^verbatim>\<open>_startWithStateTransitions\<close> after \<^verbatim>\<open>await this._startInternal()\<close>.\<close>

definition start_done :: "henv \<Rightarrow> nat \<Rightarrow> unit result \<Rightarrow> hub \<Rightarrow> hub" where
  "start_done env i r h =
     (case r of
        Inr _ \<Rightarrow>
          (let h1 = h\<lparr>hc_freezeListener := (if he_browser env then True else hc_freezeListener h),
                      hc_connectionState := Connected, hc_connectionStarted := True\<rparr>;
               h2 = hlog LDebug ''HubConnection connected successfully.'' h1
           in (set_frame i None h2)\<lparr>hc_startResults := hc_startResults h2 @ [(i, Inr ())]\<rparr>)
      | Inl e \<Rightarrow>
          (let h1 = hlog LDebug (''HubConnection failed to start successfully because of error '' @ sq (err_to_string e) @ ''.'')
                      (h\<lparr>hc_connectionState := Disconnected\<rparr>)
           in (set_frame i None h1)\<lparr>hc_startResults := hc_startResults h1 @ [(i, Inl e)]\<rparr>))"

text \<open>The rest of the loop body of \<^verbatim>\<open>_reconnect\<close> after \<^verbatim>\<open>await this._startInternal()\<close>.\<close>

definition reconnect_done :: "henv \<Rightarrow> nat \<Rightarrow> recon \<Rightarrow> unit result \<Rightarrow> hub \<Rightarrow> hub" where
  "reconnect_done env i rc r h =
     (case r of
        Inr _ \<Rightarrow>
          (let h1 = set_frame i None (hlog LInformation ''HubConnection reconnected successfully.''
                      (h\<lparr>hc_connectionState := Connected\<rparr>))
           in case call_all env (map (\<lambda>c. CallReconnected c (hc_connectionId h1)) (hc_reconnectedCallbacks h1)) h1 of
                (h2, None) \<Rightarrow> h2
              | (h2, Some e) \<Rightarrow> hlog LError (''An onreconnected callback called with connectionId ''
                   @ [CHR 0x27] @ (case hc_connectionId h2 of None \<Rightarrow> ''undefined'' | Some c \<Rightarrow> c)
                   @ ''; threw error '' @ sq (err_to_string e) @ ''.'') h2)
      | Inl e \<Rightarrow>
          (let h1 = hlog LInformation (''Reconnect attempt failed because of error '' @ sq (err_to_string e) @ ''.'') h in
           if hc_connectionState h1 \<noteq> Reconnecting then
             (let h2 = set_frame i None (hlog LDebug (''Connection moved to the '' @ sq (state_name (hc_connectionState h1))
                         @ '' from the reconnecting state during reconnect attempt. Done reconnecting.'') h1)
              in if hc_connectionState h2 = Disconnecting then completeClose env None h2 else h2)
           else
             (let retryError = (if is_error e then e else Error (err_to_string e));
                  (h2, d) = getNextRetryDelay env (rc_attempts rc) (ck_now (hc_clock h1) - rc_startTime rc) retryError h1
              in reconnect_turn env i (rc\<lparr>rc_attempts := Suc (rc_attempts rc), rc_delay := d\<rparr>) h2)))"

text \<open>The loop body after the delay: the timer of frame \<open>i\<close> has fired.\<close>

definition delay_over :: "nat \<Rightarrow> recon \<Rightarrow> hub \<Rightarrow> hub" where
  "delay_over i rc h =
     (let h1 = on_clock (\<lambda>c. c\<lparr>ck_reconnectDelayHandle := None\<rparr>) h in
      if hc_connectionState h1 \<noteq> Reconnecting then
        set_frame i None (hlog LDebug ''Connection left the reconnecting state during reconnect delay. Done reconnecting.'' h1)
      else (let (h2, at) = startInternal h1 in set_frame i (Some (ReconnectFrame rc at)) h2))"

section \<open>Stopping\<close>

definition hub_stop :: "henv \<Rightarrow> hub \<Rightarrow> hub" where
  "hub_stop env h =
     (let startPromise = hc_startPromise h; (h1, sp) = stopInternal env None h
      in add_frame (StopAwaitStop sp startPromise) (h1\<lparr>hc_stopPromise := sp\<rparr>))"

text \<open>The value of a promise the frame of a \<^verbatim>\<open>stop\<close> call waits for, \<open>None\<close> while it is pending.\<close>

definition stop_outcome :: "hub \<Rightarrow> stop_promise option \<Rightarrow> unit result option" where
  "stop_outcome h sp =
     (case sp of Some (StopConn k) \<Rightarrow> map_of (hc_stopResults h) k | _ \<Rightarrow> Some (Inr ()))"

definition start_outcome :: "hub \<Rightarrow> nat option \<Rightarrow> unit result option" where
  "start_outcome h p = (case p of None \<Rightarrow> Some (Inr ()) | Some i \<Rightarrow> map_of (hc_startResults h) i)"

definition stop_continues :: "nat \<Rightarrow> unit result \<Rightarrow> nat option \<Rightarrow> hub \<Rightarrow> hub" where
  "stop_continues i r startPromise h =
     (case r of
        Inl e \<Rightarrow> (set_frame i None h)\<lparr>hc_stopDone := hc_stopDone h @ [(i, Inl e)]\<rparr>
      | Inr _ \<Rightarrow> set_frame i (Some (StopAwaitStart startPromise)) h)"

definition stop_ends :: "nat \<Rightarrow> hub \<Rightarrow> hub" where
  "stop_ends i h = (set_frame i None h)\<lparr>hc_stopDone := hc_stopDone h @ [(i, Inr ())]\<rparr>"

section \<open>Calls of the application\<close>

text \<open>The calls of \<^verbatim>\<open>subscribe\<close>; one that throws ends the loop and the calling method.\<close>

definition launchStreams :: "henv \<Rightarrow> nat \<Rightarrow> (nat \<times> jsval) list \<Rightarrow> hub \<Rightarrow> hub \<times> js_error option" where
  "launchStreams env cid streams h =
     (if streams = [] then (h, None)
      else call_all env (map (\<lambda>(s, obs). CallSubscribe cid (nat_digits s) obs) streams)
             (h\<lparr>hc_chains := hc_chains h @ [(cid, \<lparr>ch_streams = map (nat_digits \<circ> fst) streams, ch_busy = True, ch_failed = False, ch_waiting = []\<rparr>)]\<rparr>))"

text \<open>
  \<^verbatim>\<open>send\<close>, \<^verbatim>\<open>invoke\<close> and \<^verbatim>\<open>stream\<close>. The number of the connection's send identifies the promise chain of
  the streams, which starts when that send is done. What \<^verbatim>\<open>invoke\<close> does runs in the executor of its promise,
  which a thrown error rejects.
\<close>

definition hub_send :: "henv \<Rightarrow> string \<Rightarrow> jsval list \<Rightarrow> hub \<Rightarrow> hub \<times> js_error option" where
  "hub_send env methodName args h =
     (let rp = replaceStreamingParams (rg_invocationId (hc_reg h)) args;
          (m, n) = createInvocation (rp_next rp) methodName (rp_args rp) True (rp_streamIds rp);
          h1 = on_reg (\<lambda>g. g\<lparr>rg_invocationId := n\<rparr>) h; cid = hc_nextSend h1
      in launchStreams env cid (rp_streams rp) (sendWithProtocol m (SendUser cid) h1))"

definition hub_invoke :: "henv \<Rightarrow> string \<Rightarrow> jsval list \<Rightarrow> hub \<Rightarrow> hub" where
  "hub_invoke env methodName args h =
     (let rp = replaceStreamingParams (rg_invocationId (hc_reg h)) args; i = rp_next rp;
          (m, n) = createInvocation i methodName (rp_args rp) False (rp_streamIds rp);
          h1 = on_reg (\<lambda>g. g\<lparr>rg_invocationId := n,
                 rg_promises := obj_set (nat_digits i) None (rg_promises g),
                 rg_callbacks := obj_set (nat_digits i) (InvokeCallback i) (rg_callbacks g)\<rparr>) h;
          cid = hc_nextSend h1
      in case launchStreams env cid (rp_streams rp) (sendWithProtocol m (SendInvoke i) h1) of
           (h2, None) \<Rightarrow> h2
         | (h2, Some e) \<Rightarrow> on_reg (rg_settle i (Inl e)) h2)"

definition hub_stream :: "henv \<Rightarrow> string \<Rightarrow> jsval list \<Rightarrow> hub \<Rightarrow> hub \<times> js_error option" where
  "hub_stream env methodName args h =
     (let rp = replaceStreamingParams (rg_invocationId (hc_reg h)) args; i = rp_next rp;
          (m, n) = createStreamInvocation i methodName (rp_args rp) (rp_streamIds rp);
          h1 = on_reg (\<lambda>g. g\<lparr>rg_invocationId := n,
                 rg_callbacks := obj_set (nat_digits i) (StreamCallback i) (rg_callbacks g),
                 rg_streams := rg_streams g @ [i]\<rparr>) h;
          cid = hc_nextSend h1
      in launchStreams env cid (rp_streams rp) (sendWithProtocol m (SendStream i) h1))"

text \<open>The subject's \<^verbatim>\<open>cancelCallback\<close>: the message is sent once the invocation has been.\<close>

definition hub_cancel :: "nat \<Rightarrow> hub \<Rightarrow> hub" where
  "hub_cancel i h = (on_reg (rg_delete (nat_digits i)) h)\<lparr>hc_cancels := hc_cancels h @ [i]\<rparr>"

text \<open>An observable argument calls its observer: the message joins the chain.\<close>

datatype upload = UploadNext jsval | UploadError "js_error + jsval" | UploadComplete

definition upload_message :: "string \<Rightarrow> upload \<Rightarrow> jsval" where
  "upload_message streamId u =
     (case u of
        UploadNext item \<Rightarrow> createStreamItemMessage streamId item
      | UploadError e \<Rightarrow> createCompletionMessage streamId (JStr (upload_error_message e)) JUndef
      | UploadComplete \<Rightarrow> createCompletionMessage streamId JUndef JUndef)"

definition on_chain :: "nat \<Rightarrow> (chain \<Rightarrow> chain) \<Rightarrow> hub \<Rightarrow> hub" where
  "on_chain cid f h = h\<lparr>hc_chains := map (\<lambda>(c, ch). if c = cid then (c, f ch) else (c, ch)) (hc_chains h)\<rparr>"

definition hub_upload :: "nat \<Rightarrow> string \<Rightarrow> upload \<Rightarrow> hub \<Rightarrow> hub" where
  "hub_upload cid streamId u h = on_chain cid (\<lambda>ch. ch\<lparr>ch_waiting := ch_waiting ch @ [upload_message streamId u]\<rparr>) h"

definition add_handler :: "string \<Rightarrow> nat option \<Rightarrow> hub \<Rightarrow> hub result" where
  "add_handler methodName newMethod h =
     rbind (hub_on methodName newMethod (rg_methods (hc_reg h))) (\<lambda>t. Inr (on_reg (\<lambda>g. g\<lparr>rg_methods := t\<rparr>) h))"

definition remove_handler :: "string \<Rightarrow> nat option \<Rightarrow> hub \<Rightarrow> hub result" where
  "remove_handler methodName method h =
     rbind (hub_off methodName method (rg_methods (hc_reg h))) (\<lambda>t. Inr (on_reg (\<lambda>g. g\<lparr>rg_methods := t\<rparr>) h))"

definition hub_onclose :: "nat \<Rightarrow> hub \<Rightarrow> hub" where
  "hub_onclose f h = h\<lparr>hc_closedCallbacks := hc_closedCallbacks h @ [f]\<rparr>"

definition hub_onreconnecting :: "nat \<Rightarrow> hub \<Rightarrow> hub" where
  "hub_onreconnecting f h = h\<lparr>hc_reconnectingCallbacks := hc_reconnectingCallbacks h @ [f]\<rparr>"

definition hub_onreconnected :: "nat \<Rightarrow> hub \<Rightarrow> hub" where
  "hub_onreconnected f h = h\<lparr>hc_reconnectedCallbacks := hc_reconnectedCallbacks h @ [f]\<rparr>"

definition get_connectionId :: "hub \<Rightarrow> jsval" where
  "get_connectionId h = (case hc_connectionId h of Some c \<Rightarrow> if c \<noteq> [] then JStr c else JNull | None \<Rightarrow> JNull)"

definition set_baseUrl :: "string \<Rightarrow> hub \<Rightarrow> hub result" where
  "set_baseUrl url h =
     (if hc_connectionState h \<noteq> Disconnected \<and> hc_connectionState h \<noteq> Reconnecting then
        Inl (Error ''The HubConnection must be in the Disconnected or Reconnecting state to change the url.'')
      else if url = [] then Inl (Error ''The HubConnection url must be a valid url.'')
      else Inr (h\<lparr>hc_baseUrl := url\<rparr>))"

section \<open>Incoming data\<close>

text \<open>The second argument of \<^verbatim>\<open>apply\<close>: an array, or nothing; a primitive value throws.\<close>

definition apply_args :: "jsval \<Rightarrow> jsval list result" where
  "apply_args v =
     (case v of
        JArr xs \<Rightarrow> Inr xs
      | JUndef \<Rightarrow> Inr []
      | JNull \<Rightarrow> Inr []
      | JObj ps \<Rightarrow> if obj_get ps ''length'' = None then Inr [] else Inl OutsideModel
      | _ \<Rightarrow> Inl (TypeError ''CreateListFromArrayLike called on non-object''))"

definition log_all :: "log_entry list \<Rightarrow> hub \<Rightarrow> hub" where
  "log_all es h = h\<lparr>hc_log := hc_log h @ es\<rparr>"

definition send_reply :: "jsval option \<times> log_entry list \<Rightarrow> hub \<Rightarrow> hub" where
  "send_reply rl h =
     (case rl of (r, es) \<Rightarrow>
        (case r of None \<Rightarrow> log_all es h | Some m \<Rightarrow> sendWithProtocol m SendCompletion (log_all es h)))"

text \<open>
  The loop of \<^verbatim>\<open>_invokeClientMethod\<close> from the call of a handler to the next \<^verbatim>\<open>await\<close>, or to the end. What
  one such call logs is recorded when it ends.
\<close>

fun run_methods :: "henv \<Rightarrow> jsval list result \<Rightarrow> method_call \<Rightarrow> nat list \<Rightarrow> hub \<Rightarrow> hub" where
  "run_methods env args mc [] h = send_reply (method_finish mc) h"
| "run_methods env args mc (m # ms) h =
     (case args of
        Inl e \<Rightarrow> run_methods env args (method_outcome (Inl e) mc) ms h
      | Inr xs \<Rightarrow>
          (case he_app env (CallMethod m xs) h of
             (h1, Inl e) \<Rightarrow> run_methods env args (method_outcome (Inl e) mc) ms h1
           | (h1, Inr _) \<Rightarrow> add_frame (MethodFrame mc ms xs) h1))"

definition invokeClientMethod :: "henv \<Rightarrow> jsval \<Rightarrow> hub \<Rightarrow> hub" where
  "invokeClientMethod env message h =
     (let methodName = toLowerCase (js_to_string (message_prop message ''target''));
          invocationId = (case message_prop message ''invocationId'' of JStr s \<Rightarrow> s | _ \<Rightarrow> [])
      in case obj_get (rg_methods (hc_reg h)) methodName of
           None \<Rightarrow> if inherited_name methodName then h else send_reply (method_missing methodName invocationId) h
         | Some ms \<Rightarrow>
             run_methods env (apply_args (message_prop message ''arguments''))
               (method_call_start methodName invocationId) ms h)"

definition stream_or_completion :: "henv \<Rightarrow> jsval \<Rightarrow> hub \<Rightarrow> hub" where
  "stream_or_completion env message h =
     (let k = js_to_string (message_prop message ''invocationId'') in
      case obj_get (rg_callbacks (hc_reg h)) k of
        None \<Rightarrow> h
      | Some cb \<Rightarrow>
          (let h1 = (if message_prop message ''type'' = JNum MT_Completion then on_reg (rg_delete k) h else h) in
           case run_callback env cb (Inl message) h1 of
             (h2, None) \<Rightarrow> h2
           | (h2, Some e) \<Rightarrow> hlog LError (''Stream callback threw error: '' @ getErrorString (he_stack env e) e) h2))"

definition close_message :: "henv \<Rightarrow> jsval \<Rightarrow> hub \<Rightarrow> hub" where
  "close_message env message h =
     (let h1 = hlog LInformation ''Close message received from server.'' h;
          e = message_prop message ''error'';
          error = (if truthy e then Some (Error (''Server returned an error on close: '' @ js_to_string e)) else None)
      in if message_prop message ''allowReconnect'' = JBool True then fst (conn_stop error h1)
         else (case stopInternal env error h1 of (h2, sp) \<Rightarrow> h2\<lparr>hc_stopPromise := sp\<rparr>))"

definition process_message :: "henv \<Rightarrow> jsval \<Rightarrow> hub \<Rightarrow> hub" where
  "process_message env message h =
     (case message_prop message ''type'' of
        JNum n \<Rightarrow>
          if n = MT_Invocation then invokeClientMethod env message h
          else if n = MT_StreamItem \<or> n = MT_Completion then stream_or_completion env message h
          else if n = MT_Ping then h
          else if n = MT_Close then close_message env message h
          else hlog LWarning (''Invalid message type: '' @ int_to_string n @ ''.'') h
      | v \<Rightarrow> hlog LWarning (''Invalid message type: '' @ js_to_string v @ ''.'') h)"

text \<open>\<^verbatim>\<open>this._handshakeRejecter(error)\<close> and \<^verbatim>\<open>this._handshakeResolver()\<close>.\<close>

definition settle_handshake :: "promise_state \<Rightarrow> hub \<Rightarrow> hub" where
  "settle_handshake st h =
     (case hc_handshakeResolver h of
        Some p \<Rightarrow> h\<lparr>hc_handshakes := PromiseSource_settle st p (hc_handshakes h)\<rparr> | None \<Rightarrow> h)"

definition handshake_error :: "string \<Rightarrow> hub \<Rightarrow> hub \<times> jsval result" where
  "handshake_error message h =
     (settle_handshake (Rejected (Error message)) (hlog LError message h), Inl (Error message))"

definition processHandshakeResponse :: "jsval \<Rightarrow> hub \<Rightarrow> hub \<times> jsval result" where
  "processHandshakeResponse data h =
     (case parseHandshakeResponse data of
        Inl e \<Rightarrow> handshake_error (''Error parsing handshake response: '' @ err_to_string e) h
      | Inr (remainingData, responseMessage) \<Rightarrow>
          (let e = message_prop responseMessage ''error'' in
           if truthy e then handshake_error (''Server returned handshake error: '' @ js_to_string e) h
           else (settle_handshake Resolved (hlog LDebug ''Server handshake complete.'' h), Inr remainingData)))"

text \<open>The messages in the data are handled in order; a text that does not parse throws.\<close>

definition processIncomingData :: "henv \<Rightarrow> jsval \<Rightarrow> hub \<Rightarrow> hub \<times> unit result" where
  "processIncomingData env data h =
     (let h1 = cleanupTimeout h;
          (h2, r) = (if \<not> hc_receivedHandshakeResponse h1 then processHandshakeResponse data h1 else (h1, Inr data))
      in case r of
           Inl e \<Rightarrow> (h2, Inl e)
         | Inr rest \<Rightarrow>
             (let h3 = h2\<lparr>hc_receivedHandshakeResponse := True\<rparr> in
              if truthy rest then
                (case parseMessages rest of
                   (es, Inl e) \<Rightarrow> (log_all es h3, Inl e)
                 | (es, Inr messages) \<Rightarrow>
                     (resetTimeoutPeriod (fold (process_message env) messages (log_all es h3)), Inr ()))
              else (resetTimeoutPeriod h3, Inr ())))"

section \<open>Continuations of sends and the step relation\<close>

definition chain_ready :: "nat \<Rightarrow> bool \<Rightarrow> hub \<Rightarrow> hub" where
  "chain_ready cid failed h = on_chain cid (\<lambda>ch. ch\<lparr>ch_busy := False, ch_failed := ch_failed ch \<or> failed\<rparr>) h"

text \<open>What follows when send \<open>s\<close> is done; the frames of \<^verbatim>\<open>_startInternal\<close> have their own steps.\<close>

definition send_done :: "henv \<Rightarrow> nat \<Rightarrow> send_cont \<Rightarrow> unit result \<Rightarrow> hub \<Rightarrow> hub" where
  "send_done env s k r h =
     (let h1 = h\<lparr>hc_sends := filter (\<lambda>(s', _). s' \<noteq> s) (hc_sends h)\<rparr> in
      case k of
        SendFrame i \<Rightarrow> h1
      | SendPing \<Rightarrow> (case r of Inl _ \<Rightarrow> cleanupPingTimer h1 | Inr _ \<Rightarrow> h1)
      | SendInvoke i \<Rightarrow>
          chain_ready s False
            (case r of Inl e \<Rightarrow> on_reg (\<lambda>g. rg_delete (nat_digits i) (rg_settle i (Inl e) g)) h1 | Inr _ \<Rightarrow> h1)
      | SendStream i \<Rightarrow>
          (case r of
             Inr _ \<Rightarrow> chain_ready s False h1
           | Inl e \<Rightarrow>
               (case he_app env (CallSubjectError i e) h1 of
                  (h2, Inr _) \<Rightarrow> chain_ready s False (on_reg (rg_delete (nat_digits i)) h2)
                | (h2, Inl _) \<Rightarrow> chain_ready s True h2))
      | SendUser c \<Rightarrow> chain_ready s (case r of Inl _ \<Rightarrow> True | Inr _ \<Rightarrow> False) h1
      | SendCompletion \<Rightarrow> h1
      | SendChain c \<Rightarrow> chain_ready c (case r of Inl _ \<Rightarrow> True | Inr _ \<Rightarrow> False) h1
      | SendCancel \<Rightarrow> h1)"

text \<open>The next message of a chain is sent.\<close>

definition chain_turn :: "nat \<Rightarrow> chain \<Rightarrow> hub \<Rightarrow> hub" where
  "chain_turn cid ch h =
     (case ch_waiting ch of
        [] \<Rightarrow> h
      | m # ms \<Rightarrow> sendWithProtocol m (SendChain cid) (on_chain cid (\<lambda>_. ch\<lparr>ch_busy := True, ch_waiting := ms\<rparr>) h))"

definition timer_fires :: "timer \<Rightarrow> hub \<Rightarrow> hub" where
  "timer_fires tm h =
     (case tm of
        TimeoutTimer \<Rightarrow> serverTimeout h
      | PingTimer \<Rightarrow> if hc_connectionState h = Connected then sendMessage cachedPingMessage SendPing h else h
      | DelayTimer i \<Rightarrow> (case map_of (hc_frames h) i of Some (ReconnectDelay rc t) \<Rightarrow> delay_over i rc h | _ \<Rightarrow> h))"

definition set_start_at :: "nat \<Rightarrow> frame \<Rightarrow> hub \<times> start_at \<Rightarrow> hub" where
  "set_start_at i f ha =
     (case ha of (h, at) \<Rightarrow>
        set_frame i (Some (case f of ReconnectFrame rc _ \<Rightarrow> ReconnectFrame rc at | _ \<Rightarrow> StartFrame at)) h)"

fun frame_at :: "frame \<Rightarrow> start_at option" where
  "frame_at (StartFrame at) = Some at"
| "frame_at (ReconnectFrame rc at) = Some at"
| "frame_at _ = None"

definition inner_done :: "henv \<Rightarrow> nat \<Rightarrow> frame \<Rightarrow> unit result \<Rightarrow> hub \<Rightarrow> hub" where
  "inner_done env i f r h =
     (case f of ReconnectFrame rc _ \<Rightarrow> reconnect_done env i rc r h | _ \<Rightarrow> start_done env i r h)"

text \<open>
  What the application may call, also from inside a callback. A subject can be cancelled by its holder
  only, that is, after \<^verbatim>\<open>stream\<close> has returned it.
\<close>

datatype api_call =
    ApiStart
  | ApiStop
  | ApiSend string "jsval list"
  | ApiInvoke string "jsval list"
  | ApiStream string "jsval list"
  | ApiCancel nat
  | ApiUpload nat string upload
  | ApiOn string "nat option"
  | ApiOff string "nat option"
  | ApiOnClose nat
  | ApiOnReconnecting nat
  | ApiOnReconnected nat
  | ApiSetUrl string

fun api_do :: "henv \<Rightarrow> api_call \<Rightarrow> hub \<Rightarrow> hub" where
  "api_do env ApiStart h = hub_start h"
| "api_do env ApiStop h = hub_stop env h"
| "api_do env (ApiSend m as) h = fst (hub_send env m as h)"
| "api_do env (ApiInvoke m as) h = hub_invoke env m as h"
| "api_do env (ApiStream m as) h = fst (hub_stream env m as h)"
| "api_do env (ApiCancel i) h = (if i \<in> set (rg_streams (hc_reg h)) then hub_cancel i h else h)"
| "api_do env (ApiUpload c s u) h = hub_upload c s u h"
| "api_do env (ApiOn n f) h = after (add_handler n f h) h"
| "api_do env (ApiOff n f) h = after (remove_handler n f h) h"
| "api_do env (ApiOnClose f) h = hub_onclose f h"
| "api_do env (ApiOnReconnecting f) h = hub_onreconnecting f h"
| "api_do env (ApiOnReconnected f) h = hub_onreconnected f h"
| "api_do env (ApiSetUrl u) h = after (set_baseUrl u h) h"

text \<open>
  An application as the list of calls each of its callbacks makes and how it ends. Callbacks may be
  nested (\<^verbatim>\<open>stop\<close> can call an \<^verbatim>\<open>onclose\<close> callback); \<open>depth\<close> bounds the nesting.
\<close>

type_synonym scripts = "user_call \<Rightarrow> api_call list \<times> jsval result"

fun script_app :: "nat \<Rightarrow> henv \<Rightarrow> scripts \<Rightarrow> user_call \<Rightarrow> hub \<Rightarrow> hub \<times> jsval result" where
  "script_app 0 env scripts c h = (h, snd (scripts c))"
| "script_app (Suc depth) env scripts c h =
     (fold (api_do (env\<lparr>he_app := script_app depth env scripts\<rparr>)) (fst (scripts c)) h, snd (scripts c))"

definition script_env :: "nat \<Rightarrow> scripts \<Rightarrow> henv \<Rightarrow> henv" where
  "script_env depth scripts env = env\<lparr>he_app := script_app depth env scripts\<rparr>"

datatype hub_event =
    EvApi api_call
  | EvReceive jsval
  | EvClosed "js_error option"
  | EvFeatures bool "string option"
  | EvTick int
  | EvTimer nat
  | EvConnStarted nat "unit result"
  | EvSendDone nat "unit result"
  | EvConnStopped nat "unit result"
  | EvContinue nat
  | EvMethodDone nat "jsval result"
  | EvChain nat
  | EvCancelTurn nat

inductive hub_step :: "henv \<Rightarrow> hub \<Rightarrow> hub_event \<Rightarrow> hub \<Rightarrow> bool" for env :: henv where
  st_api: "hub_step env h (EvApi a) (api_do env a h)"
| st_receive: "hub_step env h (EvReceive d) (fst (processIncomingData env d h))"
| st_closed: "hub_step env h (EvClosed e) (connectionClosed env e h)"
| st_features: "hub_step env h (EvFeatures ka cid) (h\<lparr>hc_inherentKeepAlive := ka, hc_connectionId := cid\<rparr>)"
| st_tick: "0 \<le> d \<Longrightarrow> hub_step env h (EvTick d) (on_clock (\<lambda>c. c\<lparr>ck_now := ck_now c + d\<rparr>) h)"
| st_timer: "(t, tm, since, due) \<in> set (ck_timers (hc_clock h)) \<Longrightarrow> due \<le> ck_now (hc_clock h) \<Longrightarrow>
    hub_step env h (EvTimer t) (timer_fires tm (on_clock (ck_clear t) h))"
| st_connStarted: "(i, f) \<in> set (hc_frames h) \<Longrightarrow> frame_at f = Some (AwaitConnStart hp) \<Longrightarrow>
    hub_step env h (EvConnStarted i r) (set_start_at i f (after_conn_start i hp r h))"
| st_handshakeSent: "(i, f) \<in> set (hc_frames h) \<Longrightarrow> frame_at f = Some (AwaitHandshakeSend hp s) \<Longrightarrow>
    (s, SendFrame i) \<in> set (hc_sends h) \<Longrightarrow>
    hub_step env h (EvSendDone s r) (set_start_at i f (after_handshake_send hp r (send_done env s (SendFrame i) r h)))"
| st_pingSent: "(i, f) \<in> set (hc_frames h) \<Longrightarrow> frame_at f = Some (AwaitPingSend s) \<Longrightarrow>
    (s, SendFrame i) \<in> set (hc_sends h) \<Longrightarrow>
    hub_step env h (EvSendDone s r) (set_start_at i f (after_ping_send r (send_done env s (SendFrame i) r h)))"
| st_sendDone: "(s, k) \<in> set (hc_sends h) \<Longrightarrow> (\<forall>i. k \<noteq> SendFrame i) \<Longrightarrow>
    hub_step env h (EvSendDone s r) (send_done env s k r h)"
| st_connStopped: "s < hc_nextStop h \<Longrightarrow> map_of (hc_stopResults h) s = None \<Longrightarrow>
    hub_step env h (EvConnStopped s r) (h\<lparr>hc_stopResults := hc_stopResults h @ [(s, r)]\<rparr>)"
| st_handshake: "(i, f) \<in> set (hc_frames h) \<Longrightarrow> frame_at f = Some (AwaitHandshake hp) \<Longrightarrow>
    hp < length (hc_handshakes h) \<Longrightarrow> hc_handshakes h ! hp \<noteq> Pending \<Longrightarrow>
    hub_step env h (EvContinue i) (set_start_at i f (after_handshake i (hc_handshakes h ! hp) h))"
| st_stopped: "(i, f) \<in> set (hc_frames h) \<Longrightarrow> frame_at f = Some (AwaitConnStop s e) \<Longrightarrow>
    map_of (hc_stopResults h) s = Some r \<Longrightarrow>
    hub_step env h (EvContinue i) (set_start_at i f (after_conn_stop e r h))"
| st_inner: "(i, f) \<in> set (hc_frames h) \<Longrightarrow> frame_at f = Some (InnerDone r) \<Longrightarrow>
    hub_step env h (EvContinue i) (inner_done env i f r h)"
| st_stopContinues: "(i, StopAwaitStop sp p) \<in> set (hc_frames h) \<Longrightarrow> stop_outcome h sp = Some r \<Longrightarrow>
    hub_step env h (EvContinue i) (stop_continues i r p h)"
| st_stopEnds: "(i, StopAwaitStart p) \<in> set (hc_frames h) \<Longrightarrow> start_outcome h p = Some r \<Longrightarrow>
    hub_step env h (EvContinue i) (stop_ends i h)"
| st_methodDone: "(i, MethodFrame mc ms as) \<in> set (hc_frames h) \<Longrightarrow>
    hub_step env h (EvMethodDone i r) (run_methods env (Inr as) (method_outcome r mc) ms (set_frame i None h))"
| st_chain: "(c, ch) \<in> set (hc_chains h) \<Longrightarrow> \<not> ch_busy ch \<Longrightarrow> \<not> ch_failed ch \<Longrightarrow>
    hub_step env h (EvChain c) (chain_turn c ch h)"
| st_cancelTurn: "i \<in> set (hc_cancels h) \<Longrightarrow> (\<forall>(s, k) \<in> set (hc_sends h). k \<noteq> SendStream i) \<Longrightarrow>
    hub_step env h (EvCancelTurn i)
      (sendWithProtocol (createCancelInvocation (nat_digits i)) SendCancel (h\<lparr>hc_cancels := remove1 i (hc_cancels h)\<rparr>))"

end
