(* ===== verification/Sr_HubInvariants.thy ===== *)
theory Sr_HubInvariants
  imports Sr_HubConnection
begin

text \<open>
  Invariants of the hub connection. The predicate \<open>hub_inv\<close> is parametrised so that it can be carried
  through application callbacks that run in the middle of a handler: \<open>P\<close> are the invocations that are
  being rejected just now, \<open>T\<close> a time before which no server timeout was set, \<open>b\<close> says that none is
  set at all. The locale \<open>application\<close> is what the hub needs of the code it calls; every scripted
  application satisfies it.
\<close>

lemma nat_digits_inj [simp]: "nat_digits m = nat_digits n \<longleftrightarrow> m = n"
proof
  assume eq: "nat_digits m = nat_digits n"
  have "JSON_parse (nat_digits k) = Inr (JNum (int k))" for k
    using JSON_roundtrip [of "JNum (int k)"] by (simp add: int_to_string_def)
  with eq show "m = n" by (metis jsval.inject(2) of_nat_eq_iff sum.inject(2))
qed simp

section \<open>The registry\<close>

definition reg_inv :: "nat set \<Rightarrow> registry \<Rightarrow> bool" where
  "reg_inv P g \<longleftrightarrow>
     distinct (obj_keys (rg_callbacks g)) \<and>
     (\<forall>(k, cb) \<in> set (rg_callbacks g). k = nat_digits (callback_id cb) \<and> callback_id cb < rg_invocationId g) \<and>
     (\<forall>(k, r) \<in> set (rg_promises g). \<exists>i < rg_invocationId g. k = nat_digits i) \<and>
     (\<forall>i \<in> set (rg_streams g). i < rg_invocationId g \<and> obj_get (rg_promises g) (nat_digits i) = None) \<and>
     (\<forall>i. obj_get (rg_promises g) (nat_digits i) = Some None \<longrightarrow> i \<notin> P \<longrightarrow>
        obj_get (rg_callbacks g) (nat_digits i) = Some (InvokeCallback i)) \<and>
     table_ok (rg_methods g)"

text \<open>What never goes back: ids are used up, settled promises stay as they are.\<close>

definition reg_le :: "registry \<Rightarrow> registry \<Rightarrow> bool" where
  "reg_le g g' \<longleftrightarrow> rg_invocationId g \<le> rg_invocationId g' \<and> set (rg_streams g) \<subseteq> set (rg_streams g') \<and>
     (\<forall>k r. obj_get (rg_promises g) k = Some (Some r) \<longrightarrow> obj_get (rg_promises g') k = Some (Some r)) \<and>
     (\<forall>k. obj_get (rg_promises g) k \<noteq> None \<longrightarrow> obj_get (rg_promises g') k \<noteq> None)"

lemma reg_le_refl [simp]: "reg_le g g"
  by (simp add: reg_le_def)

lemma reg_le_trans: "reg_le a b \<Longrightarrow> reg_le b c \<Longrightarrow> reg_le a c"
  by (auto simp: reg_le_def)

lemma reg_inv_mono: "reg_inv P g \<Longrightarrow> P \<subseteq> Q \<Longrightarrow> reg_inv Q g"
  unfolding reg_inv_def by blast

lemma reg_inv_settle:
  assumes "reg_inv (insert i P) g"
  shows "reg_inv P (rg_settle i r g)"
proof (cases "obj_get (rg_promises g) (nat_digits i) = Some None")
  case True
  then have "nat_digits i \<in> fst ` set (rg_promises g)"
    by (metis obj_get_None_iff option.distinct(1))
  with assms True show ?thesis
    by (auto simp: reg_inv_def rg_settle_def dest!: obj_set_mem)
next
  case False
  with assms show ?thesis by (auto simp: reg_inv_def rg_settle_def)
qed

lemma reg_inv_settle_same: "reg_inv P g \<Longrightarrow> reg_inv P (rg_settle i r g)"
  by (rule reg_inv_settle) (rule reg_inv_mono, auto)

lemma reg_le_settle: "reg_le g (rg_settle i r g)"
  by (auto simp: reg_le_def rg_settle_def)

lemma reg_inv_delete:
  assumes "reg_inv P g" and "\<And>i. k = nat_digits i \<Longrightarrow> i \<notin> P \<Longrightarrow> obj_get (rg_promises g) k \<noteq> Some None"
  shows "reg_inv P (rg_delete k g)"
  using assms obj_del_subset [of k "rg_callbacks g"]
  by (auto simp: reg_inv_def rg_delete_def)

lemma reg_le_delete: "reg_le g (rg_delete k g)"
  by (simp add: reg_le_def rg_delete_def)

lemma reg_inv_clear:
  "reg_inv P g \<Longrightarrow> reg_inv (P \<union> {i. (nat_digits i, InvokeCallback i) \<in> set (rg_callbacks g)}) (g\<lparr>rg_callbacks := []\<rparr>)"
  by (auto simp: reg_inv_def dest: obj_get_Some_mem)

lemma reg_inv_advance: "reg_inv P g \<Longrightarrow> rg_invocationId g \<le> n \<Longrightarrow> reg_inv P (g\<lparr>rg_invocationId := n\<rparr>)"
  unfolding reg_inv_def by (auto dest: order_less_le_trans)

lemma reg_inv_fresh:
  "reg_inv P g \<Longrightarrow> rg_invocationId g \<le> i \<Longrightarrow>
     obj_get (rg_promises g) (nat_digits i) = None \<and> obj_get (rg_callbacks g) (nat_digits i) = None \<and> i \<notin> set (rg_streams g)"
  by (fastforce simp: reg_inv_def obj_get_None_iff)

lemma reg_inv_invoke:
  assumes "reg_inv P g" "rg_invocationId g \<le> i"
  shows "reg_inv P (g\<lparr>rg_invocationId := Suc i, rg_promises := obj_set (nat_digits i) None (rg_promises g),
    rg_callbacks := obj_set (nat_digits i) (InvokeCallback i) (rg_callbacks g)\<rparr>)"
  using reg_inv_advance [OF assms(1), of "Suc i"] assms(2) reg_inv_fresh [OF assms]
  by (auto simp: reg_inv_def dest!: obj_set_mem)

lemma reg_inv_stream:
  assumes "reg_inv P g" "rg_invocationId g \<le> i"
  shows "reg_inv P (g\<lparr>rg_invocationId := Suc i,
    rg_callbacks := obj_set (nat_digits i) (StreamCallback i) (rg_callbacks g), rg_streams := rg_streams g @ [i]\<rparr>)"
  using reg_inv_advance [OF assms(1), of "Suc i"] assms(2) reg_inv_fresh [OF assms]
  by (auto simp: reg_inv_def dest!: obj_set_mem)

lemma reg_inv_stream_promise: "reg_inv P g \<Longrightarrow> i \<in> set (rg_streams g) \<Longrightarrow> obj_get (rg_promises g) (nat_digits i) = None"
  by (simp add: reg_inv_def)

lemma reg_inv_methods: "reg_inv P g \<Longrightarrow> table_ok t \<Longrightarrow> reg_inv P (g\<lparr>rg_methods := t\<rparr>)"
  by (simp add: reg_inv_def)

lemma reg_inv_table: "reg_inv P g \<Longrightarrow> table_ok (rg_methods g)"
  by (simp add: reg_inv_def)

lemma reg_le_simps [simp]:
  "reg_le g (g\<lparr>rg_methods := t\<rparr>)" "reg_le g (g\<lparr>rg_callbacks := c\<rparr>)"
  "rg_invocationId g \<le> n \<Longrightarrow> reg_le g (g\<lparr>rg_invocationId := n\<rparr>)"
  by (simp_all add: reg_le_def)

lemma reg_le_invoke:
  assumes "reg_inv P g" "rg_invocationId g \<le> i"
  shows "reg_le g (g\<lparr>rg_invocationId := Suc i, rg_promises := obj_set (nat_digits i) None (rg_promises g),
    rg_callbacks := cbs\<rparr>)"
  using reg_inv_fresh [OF assms] assms(2) by (auto simp: reg_le_def)

lemma reg_le_stream:
  "rg_invocationId g \<le> i \<Longrightarrow> reg_le g (g\<lparr>rg_invocationId := Suc i, rg_callbacks := cbs, rg_streams := rg_streams g @ [i]\<rparr>)"
  by (auto simp: reg_le_def)

section \<open>The clock\<close>

definition clock_inv :: "int \<Rightarrow> bool \<Rightarrow> clock \<Rightarrow> bool" where
  "clock_inv T b c \<longleftrightarrow> T \<le> ck_now c \<and> distinct (map fst (ck_timers c)) \<and>
     (\<forall>(t, tm, since, due) \<in> set (ck_timers c). t < ck_nextHandle c \<and>
        (tm = TimeoutTimer \<longrightarrow> \<not> b \<and> ck_timeoutHandle c = Some t \<and> T \<le> since \<and> due = since + max 0 (ck_serverTimeout c)))"

lemma clock_inv_False: "clock_inv T b c \<Longrightarrow> clock_inv T False c"
  by (auto simp: clock_inv_def)

lemma clock_inv_clear: "clock_inv T b c \<Longrightarrow> clock_inv T b (ck_clear t c)"
  by (auto simp: clock_inv_def ck_clear_def case_prod_unfold intro: distinct_map_filter)

lemma clock_inv_ping: "clock_inv T b c \<Longrightarrow> clock_inv T b (ck_cleanupPingTimer c)"
  using clock_inv_clear [of T b c] by (auto simp: ck_cleanupPingTimer_def clock_inv_def split: option.split)

lemma clock_inv_cleanup: "clock_inv T b c \<Longrightarrow> clock_inv (ck_now c) True (ck_cleanupTimeout c)"
  by (fastforce simp: clock_inv_def ck_cleanupTimeout_def ck_clear_def case_prod_unfold intro: distinct_map_filter
      split: option.split)

lemma clock_inv_cleanup_same: "clock_inv T b c \<Longrightarrow> clock_inv T b (ck_cleanupTimeout c)"
  by (auto simp: ck_cleanupTimeout_def intro: clock_inv_clear split: option.split)

lemma clock_inv_keepAlive: "clock_inv T b c \<Longrightarrow> clock_inv T b (ck_resetKeepAlive c)"
  unfolding ck_resetKeepAlive_def by (rule clock_inv_ping) (auto simp: clock_inv_def)

lemma clock_inv_set:
  "clock_inv T b c \<Longrightarrow> tm \<noteq> TimeoutTimer \<Longrightarrow> clock_inv T b (fst (ck_set tm d c))"
  by (auto simp: clock_inv_def ck_set_def less_Suc_eq)

lemma clock_inv_set_timeout:
  "clock_inv T True c \<Longrightarrow>
     clock_inv T False ((fst (ck_set TimeoutTimer (ck_serverTimeout c) c))\<lparr>ck_timeoutHandle := h\<rparr>)"
  if "h = Some (snd (ck_set TimeoutTimer (ck_serverTimeout c) c))"
  using that by (auto simp: clock_inv_def ck_set_def less_Suc_eq)

lemma clock_inv_handles:
  "clock_inv T b c \<Longrightarrow> clock_inv T b (c\<lparr>ck_pingServerHandle := p\<rparr>)"
  "clock_inv T b c \<Longrightarrow> clock_inv T b (c\<lparr>ck_reconnectDelayHandle := p\<rparr>)"
  "clock_inv T b c \<Longrightarrow> 0 \<le> d \<Longrightarrow> clock_inv T b (c\<lparr>ck_now := ck_now c + d\<rparr>)"
  by (auto simp: clock_inv_def)

lemma clock_inv_reset:
  assumes "clock_inv T True c" shows "clock_inv T False (ck_resetTimeout c)"
  using clock_inv_set_timeout [OF refl assms]
  by (auto simp: ck_resetTimeout_def Let_def case_prod_unfold intro!: clock_inv_handles clock_inv_set)

section \<open>The life cycle\<close>

fun is_start :: "frame \<Rightarrow> bool" where
  "is_start (StartFrame _) = True"
| "is_start _ = False"

text \<open>
  A call of \<^verbatim>\<open>start\<close> that is under way excludes the disconnected state, a second one and a started
  connection; the connecting state is that of such a call.
\<close>

definition starts :: "(nat \<times> frame) list \<Rightarrow> nat list" where
  "starts frs = map fst (filter (\<lambda>(i, f). is_start f) frs)"

definition life_inv :: "hub_state \<Rightarrow> bool \<Rightarrow> (nat \<times> frame) list \<Rightarrow> nat \<Rightarrow> bool" where
  "life_inv st started frs n \<longleftrightarrow>
     distinct (map fst frs) \<and> (\<forall>i \<in> set (map fst frs). i < n) \<and>
     length (starts frs) \<le> 1 \<and>
     (st = Disconnected \<longrightarrow> \<not> started \<and> starts frs = []) \<and>
     (starts frs \<noteq> [] \<longrightarrow> \<not> started) \<and>
     (st = Connecting \<longrightarrow> starts frs \<noteq> [])"

definition sends_inv :: "hub \<Rightarrow> bool" where
  "sends_inv h \<longleftrightarrow> (\<forall>(s, k) \<in> set (hc_sends h). \<forall>i. k = SendStream i \<longrightarrow> i \<in> set (rg_streams (hc_reg h)))"

definition hub_inv :: "nat set \<Rightarrow> int \<Rightarrow> bool \<Rightarrow> hub \<Rightarrow> bool" where
  "hub_inv P T b h \<longleftrightarrow> reg_inv P (hc_reg h) \<and> clock_inv T b (hc_clock h) \<and> sends_inv h \<and>
     life_inv (hc_connectionState h) (hc_connectionStarted h) (hc_frames h) (hc_nextFrame h)"

definition hub_le :: "hub \<Rightarrow> hub \<Rightarrow> bool" where
  "hub_le h h' \<longleftrightarrow> reg_le (hc_reg h) (hc_reg h')"

definition keeps :: "hub \<Rightarrow> hub \<Rightarrow> bool" where
  "keeps h h' \<longleftrightarrow> (\<forall>P T b. hub_inv P T b h \<longrightarrow> hub_inv P T b h' \<and> hub_le h h')"

lemma keeps_refl [simp]: "keeps h h"
  by (simp add: keeps_def hub_le_def)

lemma keeps_trans: "keeps a b \<Longrightarrow> keeps b c \<Longrightarrow> keeps a c"
  unfolding keeps_def hub_le_def using reg_le_trans by blast

text \<open>Changes that touch none of the parts the invariant reads.\<close>

definition same_view :: "hub \<Rightarrow> hub \<Rightarrow> bool" where
  "same_view h h' \<longleftrightarrow> hc_reg h' = hc_reg h \<and> hc_clock h' = hc_clock h \<and> hc_sends h' = hc_sends h \<and>
     hc_connectionState h' = hc_connectionState h \<and> hc_connectionStarted h' = hc_connectionStarted h \<and>
     hc_frames h' = hc_frames h \<and> hc_nextFrame h' = hc_nextFrame h"

lemma keeps_same: "same_view h h' \<Longrightarrow> keeps h h'"
  by (simp add: keeps_def hub_inv_def hub_le_def same_view_def sends_inv_def)

lemma keeps_clock: "(\<And>T b c. clock_inv T b c \<Longrightarrow> clock_inv T b (f c)) \<Longrightarrow> keeps h (on_clock f h)"
  by (simp add: keeps_def hub_inv_def hub_le_def on_clock_def sends_inv_def)

lemma sends_inv_mono:
  "sends_inv h \<Longrightarrow> hc_sends h' = hc_sends h \<Longrightarrow> set (rg_streams (hc_reg h)) \<subseteq> set (rg_streams (hc_reg h')) \<Longrightarrow> sends_inv h'"
  unfolding sends_inv_def by fastforce

lemma keeps_reg_at:
  assumes "\<And>P. reg_inv P (hc_reg h) \<Longrightarrow> reg_inv P (f (hc_reg h)) \<and> reg_le (hc_reg h) (f (hc_reg h))"
  shows "keeps h (on_reg f h)"
  unfolding keeps_def
proof (intro allI impI)
  fix P T b
  assume inv: "hub_inv P T b h"
  then have "reg_inv P (hc_reg h)" and si: "sends_inv h" by (simp_all add: hub_inv_def)
  then have f: "reg_inv P (f (hc_reg h))" and le: "reg_le (hc_reg h) (f (hc_reg h))"
    using assms [of P] by simp_all
  from le have "set (rg_streams (hc_reg h)) \<subseteq> set (rg_streams (f (hc_reg h)))" by (simp add: reg_le_def)
  with si have "sends_inv (on_reg f h)"
    by - (rule sends_inv_mono [of h], simp_all add: on_reg_def)
  with inv f le show "hub_inv P T b (on_reg f h) \<and> hub_le h (on_reg f h)"
    by (simp add: hub_inv_def hub_le_def on_reg_def)
qed

lemma keeps_reg:
  "(\<And>P g. reg_inv P g \<Longrightarrow> reg_inv P (f g) \<and> reg_le g (f g)) \<Longrightarrow> keeps h (on_reg f h)"
  by (rule keeps_reg_at) blast

lemma keepsI: "(\<And>P T b. hub_inv P T b h \<Longrightarrow> keeps h h') \<Longrightarrow> keeps h h'"
  by (auto simp: keeps_def)

lemma keepsD: "keeps h h' \<Longrightarrow> hub_inv P T b h \<Longrightarrow> hub_inv P T b h' \<and> hub_le h h'"
  by (auto simp: keeps_def)

section \<open>The operations that call no application code\<close>

named_theorems keeping \<open>operations that keep the invariant\<close>

lemma keeps_hlog [keeping]: "keeps h (hlog lv m h)"
  by (rule keeps_same) (simp add: same_view_def hlog_def)

lemma keeps_log_all [keeping]: "keeps h (log_all es h)"
  by (rule keeps_same) (simp add: same_view_def log_all_def)

lemma keeps_conn_stop [keeping]: "keeps h (fst (conn_stop e h))"
  by (rule keeps_same) (simp add: same_view_def conn_stop_def)

lemma keeps_settle_handshake [keeping]: "keeps h (settle_handshake st h)"
  by (rule keeps_same) (simp add: same_view_def settle_handshake_def split: option.split)

lemma keeps_on_chain [keeping]: "keeps h (on_chain c f h)"
  by (rule keeps_same) (simp add: same_view_def on_chain_def)

lemma keeps_chain_ready [keeping]: "keeps h (chain_ready c f h)"
  unfolding chain_ready_def by (rule keeps_on_chain)

lemma keeps_cleanupPingTimer [keeping]: "keeps h (cleanupPingTimer h)"
  unfolding cleanupPingTimer_def by (rule keeps_clock) (rule clock_inv_ping)

lemma keeps_cleanupTimeout [keeping]: "keeps h (cleanupTimeout h)"
  unfolding cleanupTimeout_def by (rule keeps_clock) (rule clock_inv_cleanup_same)

lemma keeps_resetKeepAlive [keeping]: "keeps h (resetKeepAliveInterval h)"
  unfolding resetKeepAliveInterval_def by (auto intro: keeps_clock clock_inv_keepAlive)

lemma keeps_push_send:
  assumes "\<And>i. k = SendStream i \<Longrightarrow> i \<in> set (rg_streams (hc_reg h))"
  shows "keeps h (h\<lparr>hc_calls := cs, hc_sends := hc_sends h @ [(s, k)], hc_nextSend := n\<rparr>)"
  using assms by (auto simp: keeps_def hub_inv_def hub_le_def sends_inv_def)

lemma reg_resetKeepAlive [simp]: "hc_reg (resetKeepAliveInterval h) = hc_reg h"
  by (simp add: resetKeepAliveInterval_def on_clock_def)

lemma keeps_sendMessage:
  "(\<And>i. k = SendStream i \<Longrightarrow> i \<in> set (rg_streams (hc_reg h))) \<Longrightarrow> keeps h (sendMessage m k h)"
  unfolding sendMessage_def Let_def
  by (rule keeps_trans [OF keeps_resetKeepAlive], rule keeps_push_send) simp

lemma keeps_sendWithProtocol:
  "(\<And>i. k = SendStream i \<Longrightarrow> i \<in> set (rg_streams (hc_reg h))) \<Longrightarrow> keeps h (sendWithProtocol m k h)"
  unfolding sendWithProtocol_def by (rule keeps_sendMessage)

subsection \<open>Frames and states\<close>

lemma starts_append [simp]: "starts (frs @ [(i, f)]) = starts frs @ (if is_start f then [i] else [])"
  by (simp add: starts_def)

lemma starts_remove: "(\<And>f. (i, f) \<in> set frs \<Longrightarrow> \<not> is_start f) \<Longrightarrow> starts (filter (\<lambda>(j, _). j \<noteq> i) frs) = starts frs"
  unfolding starts_def by (rule arg_cong [where f = "map fst"]) (induction frs, auto)

lemma starts_mem: "i \<in> set (starts frs) \<longleftrightarrow> (\<exists>f. (i, f) \<in> set frs \<and> is_start f)"
  by (force simp: starts_def)

lemma starts_remove_start: "starts (filter (\<lambda>(j, _). j \<noteq> i) frs) = filter (\<lambda>j. j \<noteq> i) (starts frs)"
  by (induction frs) (auto simp: starts_def)

abbreviation put_frame :: "nat \<Rightarrow> frame \<Rightarrow> (nat \<times> frame) list \<Rightarrow> (nat \<times> frame) list" where
  "put_frame i x frs \<equiv> map (\<lambda>(j, y). if j = i then (j, x) else (j, y)) frs"

lemma put_frame_fst [simp]: "map fst (put_frame i x frs) = map fst frs"
  by (induction frs) auto

lemma starts_put: "(\<And>f. (i, f) \<in> set frs \<Longrightarrow> is_start f = is_start x) \<Longrightarrow> starts (put_frame i x frs) = starts frs"
  unfolding starts_def by (induction frs) (auto split: if_splits)

lemma life_add: "life_inv st s frs n \<Longrightarrow> \<not> is_start f \<Longrightarrow> life_inv st s (frs @ [(n, f)]) (Suc n)"
  by (auto simp: life_inv_def less_Suc_eq)

lemma life_filter_ids:
  "life_inv st s frs n \<Longrightarrow> distinct (map fst (filter (\<lambda>(j, _). j \<noteq> i) frs)) \<and> (\<forall>k \<in> set (map fst (filter (\<lambda>(j, _). j \<noteq> i) frs)). k < n)"
  by (auto simp: life_inv_def distinct_map_filter)

lemma life_remove:
  assumes "life_inv st s frs n" "\<And>f. (i, f) \<in> set frs \<Longrightarrow> \<not> is_start f"
  shows "life_inv st s (filter (\<lambda>(j, _). j \<noteq> i) frs) n"
  using assms(1) life_filter_ids [OF assms(1), of i] starts_remove [of i frs, OF assms(2)]
  unfolding life_inv_def by simp

lemma life_update:
  assumes "life_inv st s frs n" "\<And>f. (i, f) \<in> set frs \<Longrightarrow> is_start f = is_start x"
  shows "life_inv st s (put_frame i x frs) n"
  using assms(1) starts_put [of i frs x, OF assms(2)] unfolding life_inv_def put_frame_fst by simp

lemma life_state:
  "life_inv st s frs n \<Longrightarrow> st' \<noteq> Disconnected \<Longrightarrow> st' \<noteq> Connecting \<Longrightarrow> life_inv st' s frs n"
  by (auto simp: life_inv_def)

lemma life_close: "life_inv st True frs n \<Longrightarrow> life_inv Disconnected False frs n"
  by (auto simp: life_inv_def)

lemma keeps_life:
  assumes "\<And>n'. life_inv (hc_connectionState h) (hc_connectionStarted h) (hc_frames h) (hc_nextFrame h) \<Longrightarrow>
      life_inv (hc_connectionState h') (hc_connectionStarted h') (hc_frames h') (hc_nextFrame h')"
    and "hc_reg h' = hc_reg h" "hc_clock h' = hc_clock h" "hc_sends h' = hc_sends h"
  shows "keeps h h'"
  using assms by (simp add: keeps_def hub_inv_def hub_le_def sends_inv_def)

lemma keeps_add_frame: "\<not> is_start f \<Longrightarrow> keeps h (add_frame f h)"
  by (rule keeps_life) (simp_all add: add_frame_def life_add)

lemma keeps_remove_frame:
  "(\<And>f. (i, f) \<in> set (hc_frames h) \<Longrightarrow> \<not> is_start f) \<Longrightarrow> keeps h (set_frame i None h)"
  by (rule keeps_life) (simp_all add: set_frame_def life_remove)

lemma keeps_put_frame:
  "(\<And>f. (i, f) \<in> set (hc_frames h) \<Longrightarrow> is_start f = is_start x) \<Longrightarrow> keeps h (set_frame i (Some x) h)"
  by (rule keeps_life) (simp_all add: set_frame_def life_update)

lemma keeps_state: "st \<noteq> Disconnected \<Longrightarrow> st \<noteq> Connecting \<Longrightarrow> keeps h (h\<lparr>hc_connectionState := st\<rparr>)"
  by (rule keeps_life) (auto intro: life_state)

text \<open>A frame is determined by its number.\<close>

lemma inv_frame_unique:
  "hub_inv P T b h \<Longrightarrow> (i, f) \<in> set (hc_frames h) \<Longrightarrow> (i, g) \<in> set (hc_frames h) \<Longrightarrow> f = g"
  by (auto simp: hub_inv_def life_inv_def dest: eq_key_imp_eq_value)

lemma inv_frame_less: "hub_inv P T b h \<Longrightarrow> (i, f) \<in> set (hc_frames h) \<Longrightarrow> i < hc_nextFrame h"
  by (auto simp: hub_inv_def life_inv_def)

section \<open>The operations that call application code\<close>

text \<open>What the hub relies on: the application changes the hub only in ways that keep its invariant.\<close>

locale application =
  fixes env :: henv
  assumes app_keeps: "keeps h (fst (he_app env c h))"
begin

lemma keeps_call_all: "keeps h (fst (call_all env cs h))"
proof (induction cs arbitrary: h)
  case (Cons c cs)
  obtain h1 r where app: "he_app env c h = (h1, r)" by fastforce
  with app_keeps [of h c] have "keeps h h1" by simp
  with Cons.IH [of h1] app show ?case by (cases r) (auto intro: keeps_trans)
qed simp

lemma keeps_try:
  assumes "\<And>e g. keeps g (f e g)"
  shows "keeps h (case call_all env cs h of (g, None) \<Rightarrow> g | (g, Some e) \<Rightarrow> f e g)"
  using keeps_call_all [of h cs] assms by (auto intro: keeps_trans split: prod.split option.split)

lemma keeps_completeClose: "keeps h (completeClose env error h)"
proof (cases "hc_connectionStarted h")
  case True
  let ?h1 = "h\<lparr>hc_connectionState := Disconnected, hc_connectionStarted := False,
    hc_freezeListener := (if he_browser env then False else hc_freezeListener h)\<rparr>"
  have "keeps h ?h1" using True by (intro keeps_life) (auto intro: life_close)
  then show ?thesis
    using True unfolding completeClose_def Let_def
    by (auto intro!: keeps_trans [of h ?h1] keeps_try [OF keeps_hlog, unfolded comp_def] simp del: split_paired_All)
qed (simp add: completeClose_def)

lemma keeps_stopInternal: "keeps h (fst (stopInternal env error h))"
proof -
  let ?h1 = "hlog LDebug ''Stopping HubConnection.'' (h\<lparr>hc_connectionState := Disconnecting\<rparr>)"
  have h1: "keeps h ?h1" by (rule keeps_trans [OF keeps_state keeps_hlog]) simp_all
  have delay: "keeps ?h1 (completeClose env None (on_clock (\<lambda>c. (ck_clear t c)\<lparr>ck_reconnectDelayHandle := None\<rparr>) (hlog LDebug m ?h1)))" for t m
    by (rule keeps_trans [OF keeps_hlog], rule keeps_trans [OF keeps_clock keeps_completeClose])
      (intro clock_inv_handles clock_inv_clear)
  have same: "keeps g (g\<lparr>hc_stopDuringStartError := x\<rparr>)" for g x by (rule keeps_same) (simp add: same_view_def)
  have conn: "keeps ?h1 (fst (conn_stop e ((cleanupPingTimer (cleanupTimeout ?h1))\<lparr>hc_stopDuringStartError := x\<rparr>)))" for x e
    by (rule keeps_trans [OF keeps_cleanupTimeout], rule keeps_trans [OF keeps_cleanupPingTimer],
        rule keeps_trans [OF same keeps_conn_stop])
  show ?thesis
    unfolding stopInternal_def Let_def
    by (auto intro: keeps_hlog keeps_trans [OF h1 delay] keeps_trans [OF h1 conn] simp: case_prod_unfold split: option.split)
qed

lemma keeps_reconnect_turn:
  assumes "\<And>f. (i, f) \<in> set (hc_frames h) \<Longrightarrow> \<not> is_start f"
  shows "keeps h (reconnect_turn env i rc h)"
proof (cases "rc_delay rc = JNull")
  case True
  have "keeps h (completeClose env None (set_frame i None (hlog LInformation m h)))" for m
    by (rule keeps_trans [OF keeps_hlog], rule keeps_trans [OF keeps_remove_frame keeps_completeClose])
      (use assms in \<open>auto simp: hlog_def\<close>)
  with True show ?thesis by (simp add: reconnect_turn_def)
next
  case False
  let ?t = "\<lambda>g. g\<lparr>hc_clock := (fst (ck_set (DelayTimer i) (delay_ms (rc_delay rc)) (hc_clock g)))
               \<lparr>ck_reconnectDelayHandle := Some (snd (ck_set (DelayTimer i) (delay_ms (rc_delay rc)) (hc_clock g)))\<rparr>\<rparr>"
  have t: "keeps g (?t g)" for g
    using keeps_clock [of "\<lambda>c. (fst (ck_set (DelayTimer i) (delay_ms (rc_delay rc)) c))
      \<lparr>ck_reconnectDelayHandle := Some (snd (ck_set (DelayTimer i) (delay_ms (rc_delay rc)) c))\<rparr>" g]
    by (simp add: on_clock_def clock_inv_handles clock_inv_set)
  have put: "keeps (?t (hlog LInformation m h)) (set_frame i (Some (ReconnectDelay rc x)) (?t (hlog LInformation m h)))" for m x
    by (rule keeps_put_frame) (use assms in \<open>simp add: hlog_def\<close>)
  have "keeps h (set_frame i (Some (ReconnectDelay rc x)) (?t (hlog LInformation m h)))" for m x
    by (rule keeps_trans [OF keeps_hlog keeps_trans [OF t put]])
  with False show ?thesis by (simp add: reconnect_turn_def Let_def case_prod_unfold)
qed

lemma keeps_getNextRetryDelay: "keeps h (fst (getNextRetryDelay env n t e h))"
  by (auto simp: getNextRetryDelay_def intro: keeps_hlog split: option.split sum.split)

lemma keeps_reconnect: "keeps h (reconnect env error h)"
proof (cases "getNextRetryDelay env 0 0 (case error of Some e \<Rightarrow> e | None \<Rightarrow> Error ''Attempting to reconnect due to a unknown error.'') h")
  case (Pair h1 d)
  with keeps_getNextRetryDelay [of h 0 0 "case error of Some e \<Rightarrow> e | None \<Rightarrow> Error ''Attempting to reconnect due to a unknown error.''"]
  have h1: "keeps h h1" by simp
  show ?thesis
  proof (cases "d = JNull")
    case True
    with Pair show ?thesis
      by (simp add: reconnect_def Let_def keeps_trans [OF h1 keeps_trans [OF keeps_hlog keeps_completeClose]])
  next
    case False
    define m1 where "m1 = (case error of Some e \<Rightarrow> ''Connection reconnecting because of error '' @ sq (err_to_string e) @ ''.''
                   | None \<Rightarrow> ''Connection reconnecting.'')"
    define h2 where "h2 = hlog LInformation m1 (h1\<lparr>hc_connectionState := Reconnecting\<rparr>)"
    define h3 where "h3 = (case call_all env (map (\<lambda>c. CallReconnecting c error) (hc_reconnectingCallbacks h2)) h2 of
                        (g, None) \<Rightarrow> g
                      | (g, Some e) \<Rightarrow> hlog LError (''An onreconnecting callback called with error '' @ sq (opt_err_to_string error)
                                         @ '' threw error '' @ sq (err_to_string e) @ ''.'') g)"
    define rc where "rc = \<lparr>rc_startTime = ck_now (hc_clock h), rc_attempts = 1, rc_delay = d\<rparr>"
    have "keeps h h2" unfolding h2_def by (rule keeps_trans [OF h1 keeps_trans [OF keeps_state keeps_hlog]]) simp_all
    moreover have "keeps h2 h3" unfolding h3_def by (rule keeps_try) (rule keeps_hlog)
    ultimately have h3: "keeps h h3" by (rule keeps_trans)
    have turn: "keeps h3 (reconnect_turn env (hc_nextFrame h3) rc (add_frame (ReconnectDelay rc 0) h3))"
    proof (rule keepsI)
      fix P T b assume "hub_inv P T b h3"
      then have "(i, f) \<in> set (hc_frames h3) \<Longrightarrow> i < hc_nextFrame h3" for i f by (rule inv_frame_less)
      then have "\<And>f. (hc_nextFrame h3, f) \<in> set (hc_frames (add_frame (ReconnectDelay rc 0) h3)) \<Longrightarrow> \<not> is_start f"
        by (auto simp: add_frame_def)
      then show "keeps h3 (reconnect_turn env (hc_nextFrame h3) rc (add_frame (ReconnectDelay rc 0) h3))"
        by (intro keeps_trans [OF keeps_add_frame keeps_reconnect_turn]) simp_all
    qed
    have "reconnect env error h =
      (if hc_reconnectingCallbacks h2 \<noteq> [] \<and> hc_connectionState h3 \<noteq> Reconnecting then
         hlog LDebug ''Connection left the reconnecting state in onreconnecting callback. Done reconnecting.'' h3
       else reconnect_turn env (hc_nextFrame h3) rc (add_frame (ReconnectDelay rc 0) h3))"
      unfolding reconnect_def Let_def Pair rc_def h3_def h2_def m1_def using False
      by (simp only: prod.case if_False)
    then show ?thesis using keeps_trans [OF h3 keeps_hlog] keeps_trans [OF h3 turn] by simp
  qed
qed

subsection \<open>Rejecting the invocations\<close>

definition invokes :: "(string \<times> callback) list \<Rightarrow> nat set" where
  "invokes cbs = {i. InvokeCallback i \<in> snd ` set cbs}"

lemma invokes_Cons:
  "invokes ((k, InvokeCallback i) # cbs) = insert i (invokes cbs)"
  "invokes ((k, StreamCallback i) # cbs) = invokes cbs"
  by (auto simp: invokes_def)

lemma keeps_run_callback:
  "keeps h (fst (run_callback env cb arg h))"
proof (cases cb)
  case (InvokeCallback i)
  then show ?thesis
    by (auto simp: run_callback_def invoke_callback_def intro!: keeps_reg reg_inv_settle_same reg_le_settle split: sum.split)
next
  case (StreamCallback i)
  then show ?thesis using app_keeps [of h "stream_call i arg"]
    by (auto simp: run_callback_def split: prod.split sum.split)
qed

lemma run_callback_invoke:
  assumes "hub_inv (insert i P) T b h"
  shows "hub_inv P T b (fst (run_callback env (InvokeCallback i) (Inr e) h))"
  using assms reg_inv_settle [of i P "hc_reg h" "Inl e"]
  by (auto simp: hub_inv_def run_callback_def invoke_callback_def on_reg_def sends_inv_def rg_settle_def)

lemma cancel_loop_inv:
  "hub_inv (P \<union> invokes cbs) T b h \<Longrightarrow>
     hub_inv P T b (cancel_loop env e cbs h) \<and> hub_le h (cancel_loop env e cbs h)"
proof (induction cbs arbitrary: h)
  case Nil
  then show ?case by (simp add: invokes_def hub_le_def)
next
  case (Cons kcb cbs)
  obtain k cb where kcb: "kcb = (k, cb)" by (cases kcb)
  obtain h1 x where run: "run_callback env cb (Inr e) h = (h1, x)" by fastforce
  have le1: "hub_le h h1" and inv1: "hub_inv (P \<union> invokes cbs) T b h1"
  proof -
    have "keeps h h1" using keeps_run_callback [of h cb "Inr e"] run by simp
    from keepsD [OF this Cons.prems] show "hub_le h h1" by simp
    show "hub_inv (P \<union> invokes cbs) T b h1"
    proof (cases cb)
      case (InvokeCallback i)
      then have "hub_inv (insert i (P \<union> invokes cbs)) T b h"
        using Cons.prems by (simp add: kcb invokes_Cons)
      from run_callback_invoke [OF this, of e] run InvokeCallback show ?thesis by simp
    next
      case (StreamCallback i)
      then have "hub_inv (P \<union> invokes cbs) T b h" using Cons.prems by (simp add: kcb invokes_Cons)
      with keepsD [OF \<open>keeps h h1\<close>] show ?thesis by blast
    qed
  qed
  define h2 where "h2 = (case x of None \<Rightarrow> h1 | Some e' \<Rightarrow>
      hlog LError (''Stream '' @ sq ''error'' @ '' callback called with '' @ sq (err_to_string e)
               @ '' threw error: '' @ getErrorString (he_stack env e') e') h1)"
  have "keeps h1 h2" by (auto simp: h2_def intro: keeps_hlog split: option.split)
  from keepsD [OF this inv1] have h2: "hub_inv (P \<union> invokes cbs) T b h2" "hub_le h1 h2" by simp_all
  have "cancel_loop env e (kcb # cbs) h = cancel_loop env e cbs h2"
    by (cases x) (simp_all add: kcb run h2_def)
  with Cons.IH [OF h2(1)] le1 h2(2) show ?case unfolding hub_le_def using reg_le_trans by metis
qed

lemma reg_clear:
  assumes "hub_inv P T b h"
  shows "hub_inv (P \<union> invokes (rg_callbacks (hc_reg h))) T b (on_reg (\<lambda>g. g\<lparr>rg_callbacks := []\<rparr>) h)"
proof -
  have "reg_inv (P \<union> {i. (nat_digits i, InvokeCallback i) \<in> set (rg_callbacks (hc_reg h))}) ((hc_reg h)\<lparr>rg_callbacks := []\<rparr>)"
    using assms by (intro reg_inv_clear) (simp add: hub_inv_def)
  then have "reg_inv (P \<union> invokes (rg_callbacks (hc_reg h))) ((hc_reg h)\<lparr>rg_callbacks := []\<rparr>)"
    by (rule reg_inv_mono) (force simp: invokes_def)
  with assms show ?thesis by (simp add: hub_inv_def on_reg_def sends_inv_def)
qed

lemma keeps_cancelCallbacks: "keeps h (cancelCallbacksWithError env e h)"
  unfolding keeps_def cancelCallbacksWithError_def
  using cancel_loop_inv [OF reg_clear] by (auto simp: hub_le_def on_reg_def reg_le_def)

lemma keeps_connectionClosed: "keeps h (connectionClosed env error h)"
proof -
  define h3 where "h3 = (let h1 = hlog LDebug (''HubConnection.connectionClosed('' @ opt_err_to_string error @ '') called while in state ''
                 @ state_name (hc_connectionState h) @ ''.'') h;
          h2 = h1\<lparr>hc_stopDuringStartError := Some (case hc_stopDuringStartError h1 of Some e \<Rightarrow> e
                  | None \<Rightarrow> (case error of Some e \<Rightarrow> e
                      | None \<Rightarrow> AbortError ''The underlying connection was closed before the hub handshake could complete.''))\<rparr>
     in (case hc_handshakeResolver h2 of
                  Some p \<Rightarrow> h2\<lparr>hc_handshakes := PromiseSource_resolve p (hc_handshakes h2)\<rparr> | None \<Rightarrow> h2))"
  define h5 where "h5 = cleanupPingTimer (cleanupTimeout (cancelCallbacksWithError env
                 (case error of Some e \<Rightarrow> e
                  | None \<Rightarrow> Error ''Invocation canceled due to the underlying connection being closed.'') h3))"
  have "keeps h h3"
    by (rule keeps_same) (simp add: h3_def same_view_def hlog_def Let_def split: option.split)
  then have h5: "keeps h h5"
    unfolding h5_def
    using keeps_trans [OF keeps_cancelCallbacks keeps_trans [OF keeps_cleanupTimeout keeps_cleanupPingTimer]]
    by (rule keeps_trans)
  have "connectionClosed env error h =
      (if hc_connectionState h5 = Disconnecting then completeClose env error h5
         else if hc_connectionState h5 = Connected \<and> he_policy env \<noteq> None then reconnect env error h5
         else if hc_connectionState h5 = Connected then completeClose env error h5
         else h5)"
    unfolding connectionClosed_def h5_def h3_def Let_def ..
  then show ?thesis
    using keeps_trans [OF h5 keeps_completeClose] keeps_trans [OF h5 keeps_reconnect] h5 by simp
qed

subsection \<open>The calls of the application\<close>

lemma keeps_same_upd [keeping]:
  "keeps h (h\<lparr>hc_stopPromise := p\<rparr>)" "keeps h (h\<lparr>hc_chains := c\<rparr>)" "keeps h (h\<lparr>hc_cancels := cs\<rparr>)"
  "keeps h (h\<lparr>hc_baseUrl := u\<rparr>)" "keeps h (h\<lparr>hc_receivedHandshakeResponse := r\<rparr>)"
  by (rule keeps_same, simp add: same_view_def)+

lemma keeps_startInternal: "keeps h (fst (startInternal h))"
  by (rule keeps_same) (simp add: same_view_def startInternal_def Let_def)

lemma keeps_hub_start: "keeps h (hub_start h)"
  by (rule keeps_life)
    (auto simp: hub_start_def startInternal_def Let_def hlog_def add_frame_def life_inv_def less_Suc_eq)

lemma keeps_hub_stop: "keeps h (hub_stop env h)"
  using keeps_stopInternal [of h None] unfolding hub_stop_def Let_def
  by (auto simp: case_prod_unfold intro!: keeps_trans [of h "fst (stopInternal env None h)"]
      keeps_trans [OF _ keeps_add_frame] keeping)

lemma keeps_launchStreams: "keeps h (fst (launchStreams env cid streams h))"
  unfolding launchStreams_def by (auto intro!: keeps_trans [OF _ keeps_call_all] keeping)

lemma rp_next_le: "n \<le> rp_next (replaceStreamingParams n args)"
  by (simp add: replaceStreamingParams_split split: prod.split)

lemma keeps_hub_send: "keeps h (fst (hub_send env m as h))"
proof -
  let ?rp = "replaceStreamingParams (rg_invocationId (hc_reg h)) as"
  let ?h1 = "on_reg (\<lambda>g. g\<lparr>rg_invocationId := rp_next ?rp\<rparr>) h"
  have 1: "keeps h ?h1"
    by (rule keeps_reg_at) (simp add: reg_inv_advance rp_next_le)
  have "keeps ?h1 (sendWithProtocol msg (SendUser c) ?h1)" for msg c
    by (rule keeps_sendWithProtocol) simp
  from keeps_trans [OF 1 keeps_trans [OF this keeps_launchStreams]] show ?thesis
    by (simp add: hub_send_def Let_def createInvocation_def)
qed

lemma keeps_hub_invoke: "keeps h (hub_invoke env m as h)"
proof -
  let ?rp = "replaceStreamingParams (rg_invocationId (hc_reg h)) as"
  let ?h1 = "on_reg (\<lambda>g. g\<lparr>rg_invocationId := Suc (rp_next ?rp),
                 rg_promises := obj_set (nat_digits (rp_next ?rp)) None (rg_promises g),
                 rg_callbacks := obj_set (nat_digits (rp_next ?rp)) (InvokeCallback (rp_next ?rp)) (rg_callbacks g)\<rparr>) h"
  have 1: "keeps h ?h1"
    by (rule keeps_reg_at) (simp add: reg_inv_invoke reg_le_invoke rp_next_le)
  have 2: "keeps ?h1 (sendWithProtocol msg (SendInvoke i) ?h1)" for msg i
    by (rule keeps_sendWithProtocol) simp
  have 3: "keeps h (fst (launchStreams env c ss (sendWithProtocol msg (SendInvoke i) ?h1)))" for c ss msg i
    by (rule keeps_trans [OF 1 keeps_trans [OF 2 keeps_launchStreams]])
  have 4: "keeps g (on_reg (rg_settle i r) g)" for g i r
    by (rule keeps_reg) (simp add: reg_inv_settle_same reg_le_settle)
  obtain h2 x where l: "launchStreams env (hc_nextSend ?h1) (rp_streams ?rp)
      (sendWithProtocol (invocation_object (rp_args ?rp) (Some (rp_next ?rp)) (rp_streamIds ?rp) m MT_Invocation) (SendInvoke (rp_next ?rp)) ?h1) = (h2, x)"
    by fastforce
  have "keeps h h2"
    using 3 [of "hc_nextSend ?h1" "rp_streams ?rp" "invocation_object (rp_args ?rp) (Some (rp_next ?rp)) (rp_streamIds ?rp) m MT_Invocation" "rp_next ?rp"]
    unfolding l by (simp only: fst_conv)
  moreover have "hub_invoke env m as h =
      (case x of None \<Rightarrow> h2 | Some e \<Rightarrow> on_reg (rg_settle (rp_next ?rp) (Inl e)) h2)"
    unfolding hub_invoke_def Let_def createInvocation_def if_False prod.case l ..
  ultimately show ?thesis by (cases x) (simp_all only: option.case keeps_trans [OF _ 4])
qed

lemma keeps_hub_stream: "keeps h (fst (hub_stream env m as h))"
proof -
  let ?rp = "replaceStreamingParams (rg_invocationId (hc_reg h)) as"
  let ?h1 = "on_reg (\<lambda>g. g\<lparr>rg_invocationId := Suc (rp_next ?rp),
                 rg_callbacks := obj_set (nat_digits (rp_next ?rp)) (StreamCallback (rp_next ?rp)) (rg_callbacks g),
                 rg_streams := rg_streams g @ [rp_next ?rp]\<rparr>) h"
  have 1: "keeps h ?h1"
    by (rule keeps_reg_at) (simp add: reg_inv_stream reg_le_stream rp_next_le)
  have "keeps ?h1 (sendWithProtocol msg (SendStream (rp_next ?rp)) ?h1)" for msg
    by (rule keeps_sendWithProtocol) (simp add: on_reg_def)
  from keeps_trans [OF 1 keeps_trans [OF this keeps_launchStreams]] show ?thesis
    by (simp add: hub_stream_def Let_def createStreamInvocation_def)
qed

lemma keeps_delete_stream:
  assumes "i \<in> set (rg_streams (hc_reg h))"
  shows "keeps h (on_reg (rg_delete (nat_digits i)) h)"
proof (rule keeps_reg_at)
  fix P assume inv: "reg_inv P (hc_reg h)"
  then have "reg_inv P (rg_delete (nat_digits i) (hc_reg h))"
    by (rule reg_inv_delete) (simp add: reg_inv_stream_promise [OF inv assms])
  then show "reg_inv P (rg_delete (nat_digits i) (hc_reg h)) \<and> reg_le (hc_reg h) (rg_delete (nat_digits i) (hc_reg h))"
    by (simp add: reg_le_delete)
qed

lemma keeps_hub_cancel: "i \<in> set (rg_streams (hc_reg h)) \<Longrightarrow> keeps h (hub_cancel i h)"
  unfolding hub_cancel_def by (rule keeps_trans [OF keeps_delete_stream keeps_same_upd(3)])

lemma keeps_methods:
  "(\<And>t. r = Inr t \<Longrightarrow> table_ok (rg_methods (hc_reg h)) \<Longrightarrow> table_ok t) \<Longrightarrow>
     keeps h (after (rbind r (\<lambda>t. Inr (on_reg (\<lambda>g. g\<lparr>rg_methods := t\<rparr>) h))) h)"
  by (cases r) (auto intro!: keeps_reg_at reg_inv_methods dest: reg_inv_table)

lemma keeps_api: "keeps h (api_do env a h)"
proof (cases a)
  case (ApiCancel i)
  then show ?thesis using keeps_hub_cancel by simp
next
  case (ApiOn n f)
  then show ?thesis unfolding add_handler_def api_do.simps
    by (auto simp: add_handler_def intro: keeps_methods table_ok_on)
next
  case (ApiOff n f)
  then show ?thesis
    by (auto simp: remove_handler_def intro: keeps_methods table_ok_off)
next
  case (ApiSetUrl u)
  then show ?thesis by (auto simp: set_baseUrl_def intro: keeping)
qed (auto intro: keeps_hub_start keeps_hub_stop keeps_hub_send keeps_hub_invoke keeps_hub_stream keeps_same
    simp: hub_upload_def on_chain_def hub_onclose_def hub_onreconnecting_def hub_onreconnected_def same_view_def)

lemma keeps_fold_api: "keeps h (fold (api_do env) as h)"
  by (induction as arbitrary: h) (auto intro: keeps_trans keeps_api)

end

text \<open>Every scripted application, at every depth of nesting, keeps the invariant.\<close>

lemma script_app_keeps: "keeps h (fst (script_app depth env scripts c h))"
proof (induction depth arbitrary: h c)
  case (Suc depth)
  have "application (env\<lparr>he_app := script_app depth env scripts\<rparr>)"
    by unfold_locales (simp add: Suc.IH)
  from application.keeps_fold_api [OF this] show ?case by simp
qed simp

interpretation script: application "script_env depth scripts env" for depth scripts env
  by unfold_locales (simp add: script_env_def script_app_keeps)

section \<open>Incoming messages\<close>

context application begin

lemma keeps_send_reply: "keeps h (send_reply rl h)"
  by (auto simp: send_reply_def intro: keeping keeps_trans [OF keeps_log_all keeps_sendWithProtocol] split: prod.split option.split)

lemma keeps_run_methods: "keeps h (run_methods env args mc ms h)"
proof (induction ms arbitrary: mc h)
  case (Cons m ms)
  show ?case
  proof (cases args)
    case (Inl e)
    with Cons.IH show ?thesis by simp
  next
    case (Inr xs)
    obtain h1 r where app: "he_app env (CallMethod m xs) h = (h1, r)" by fastforce
    with app_keeps [of h "CallMethod m xs"] have 1: "keeps h h1" by simp
    show ?thesis
    proof (cases r)
      case (Inl e)
      with Inr app Cons.IH [of h1 "method_outcome (Inl e) mc"] 1 show ?thesis by (simp add: keeps_trans)
    next
      case (Inr v)
      with \<open>args = Inr xs\<close> app keeps_trans [OF 1 keeps_add_frame] show ?thesis by simp
    qed
  qed
qed (simp add: keeps_send_reply)

lemma keeps_invokeClientMethod: "keeps h (invokeClientMethod env m h)"
  by (auto simp: invokeClientMethod_def Let_def intro: keeps_send_reply keeps_run_methods split: option.split)

lemma reg_inv_completion:
  assumes inv: "reg_inv P g" and cb: "obj_get (rg_callbacks g) k = Some cb"
  shows "case cb of InvokeCallback i \<Rightarrow> reg_inv (insert i P) (rg_delete k g) | StreamCallback i \<Rightarrow> reg_inv P (rg_delete k g)"
proof -
  have k: "k = nat_digits (callback_id cb)" using inv obj_get_Some_mem [OF cb] by (auto simp: reg_inv_def)
  have pend: "i \<in> P \<or> cb = InvokeCallback i" if "obj_get (rg_promises g) k = Some None" "k = nat_digits i" for i
    using inv that cb by (auto simp: reg_inv_def)
  show ?thesis
  proof (cases cb)
    case (InvokeCallback i)
    then show ?thesis using pend reg_inv_mono [OF inv, of "insert i P"] by (auto intro!: reg_inv_delete)
  next
    case (StreamCallback i)
    then show ?thesis using pend inv by (auto intro!: reg_inv_delete)
  qed
qed

lemma invoke_callback_settles: "\<exists>r. invoke_callback i arg g = rg_settle i r g"
  by (auto simp: invoke_callback_def split: sum.split)

lemma keeps_completion:
  assumes cb: "obj_get (rg_callbacks (hc_reg h)) k = Some cb"
  shows "keeps h (fst (run_callback env cb arg (on_reg (rg_delete k) h)))"
proof (cases cb)
  case (InvokeCallback i)
  obtain r where r: "invoke_callback i arg (rg_delete k (hc_reg h)) = rg_settle i r (rg_delete k (hc_reg h))"
    using invoke_callback_settles by blast
  have "keeps h (on_reg (\<lambda>g. rg_settle i r (rg_delete k g)) h)"
    by (rule keeps_reg_at)
      (use reg_inv_completion [OF _ cb] InvokeCallback in \<open>auto intro: reg_inv_settle reg_le_trans [OF reg_le_delete reg_le_settle]\<close>)
  with InvokeCallback r show ?thesis by (simp add: run_callback_def on_reg_def)
next
  case (StreamCallback i)
  have "keeps h (on_reg (rg_delete k) h)"
    by (rule keeps_reg_at) (use reg_inv_completion [OF _ cb] StreamCallback in \<open>auto intro: reg_le_delete\<close>)
  then show ?thesis using keeps_run_callback by (rule keeps_trans)
qed

lemma keeps_stream_or_completion: "keeps h (stream_or_completion env m h)"
proof (cases "obj_get (rg_callbacks (hc_reg h)) (js_to_string (message_prop m ''invocationId''))")
  case None
  then show ?thesis by (simp add: stream_or_completion_def)
next
  case (Some cb)
  define h1 where "h1 = (if message_prop m ''type'' = JNum MT_Completion
     then on_reg (rg_delete (js_to_string (message_prop m ''invocationId''))) h else h)"
  have 1: "keeps h (fst (run_callback env cb (Inl m) h1))"
    unfolding h1_def using keeps_completion [OF Some] keeps_run_callback by simp
  obtain h2 x where run: "run_callback env cb (Inl m) h1 = (h2, x)" by fastforce
  with 1 have "keeps h h2" by simp
  moreover have "stream_or_completion env m h = (case x of None \<Rightarrow> h2
      | Some e \<Rightarrow> hlog LError (''Stream callback threw error: '' @ getErrorString (he_stack env e) e) h2)"
    unfolding stream_or_completion_def Let_def Some option.case h1_def [symmetric] run prod.case ..
  ultimately show ?thesis by (cases x) (simp_all add: keeps_trans [OF _ keeps_hlog])
qed

lemma keeps_close_message: "keeps h (close_message env m h)"
  unfolding close_message_def Let_def
  by (auto simp: case_prod_unfold
      intro: keeps_trans [OF keeps_hlog keeps_conn_stop] keeps_trans [OF keeps_hlog keeps_trans [OF keeps_stopInternal keeps_same_upd(1)]])

lemma keeps_process_message: "keeps h (process_message env m h)"
  unfolding process_message_def
  by (auto intro: keeps_invokeClientMethod keeps_stream_or_completion keeps_close_message keeps_hlog split: jsval.split)

lemma keeps_process_messages: "keeps h (fold (process_message env) ms h)"
  by (induction ms arbitrary: h) (auto intro: keeps_trans keeps_process_message)

lemma keeps_handshake: "keeps h (fst (processHandshakeResponse d h))"
  unfolding processHandshakeResponse_def handshake_error_def Let_def
  by (auto intro: keeps_trans [OF keeps_hlog keeps_settle_handshake] split: sum.split prod.split)

text \<open>Data received starts the server timeout anew: no timer set before it is left.\<close>

lemma inv_cleanupTimeout: "hub_inv P T b h \<Longrightarrow> hub_inv P (ck_now (hc_clock h)) True (cleanupTimeout h)"
  by (auto simp: hub_inv_def cleanupTimeout_def on_clock_def sends_inv_def intro: clock_inv_cleanup)

lemma inv_resetTimeout: "hub_inv P T True h \<Longrightarrow> hub_inv P T False (resetTimeoutPeriod h)"
  by (auto simp: hub_inv_def resetTimeoutPeriod_def on_clock_def sends_inv_def intro: clock_inv_reset clock_inv_False)

lemma inv_False: "hub_inv P T b h \<Longrightarrow> hub_inv P T False h"
  by (auto simp: hub_inv_def intro: clock_inv_False)

lemma le_resetTimeout: "hub_le h (resetTimeoutPeriod h)"
  by (simp add: hub_le_def resetTimeoutPeriod_def on_clock_def)

lemma hub_le_trans: "hub_le a b \<Longrightarrow> hub_le b c \<Longrightarrow> hub_le a c"
  unfolding hub_le_def by (rule reg_le_trans)

lemma processIncomingData_inv:
  assumes "hub_inv P T b h"
  shows "hub_inv P (ck_now (hc_clock h)) False (fst (processIncomingData env d h)) \<and> hub_le h (fst (processIncomingData env d h))"
proof -
  define h1 where "h1 = cleanupTimeout h"
  obtain h2 r where h2: "(if \<not> hc_receivedHandshakeResponse h1 then processHandshakeResponse d h1 else (h1, Inr d)) = (h2, r)"
    by fastforce
  define h3 where "h3 = h2\<lparr>hc_receivedHandshakeResponse := True\<rparr>"
  have k1: "keeps h h1" unfolding h1_def by (rule keeps_cleanupTimeout)
  have k2: "keeps h1 h2" using h2 keeps_handshake [of h1 d] by (auto split: if_splits)
  have k3: "keeps h1 h3" unfolding h3_def by (rule keeps_trans [OF k2 keeps_same_upd(5)])
  have le1: "hub_le h h1" using keepsD [OF k1 assms] by simp
  have inv1: "hub_inv P (ck_now (hc_clock h)) True h1" unfolding h1_def using assms by (rule inv_cleanupTimeout)
  have fin: "hub_inv P (ck_now (hc_clock h)) False g \<and> hub_le h g" if "keeps h1 g" for g
    using keepsD [OF that inv1] le1 inv_False hub_le_trans by blast
  have reset: "hub_inv P (ck_now (hc_clock h)) False (resetTimeoutPeriod g) \<and> hub_le h (resetTimeoutPeriod g)" if "keeps h1 g" for g
    using keepsD [OF that inv1] le1 inv_resetTimeout le_resetTimeout hub_le_trans by blast
  have logs: "keeps h1 (log_all es h3)" and msgs: "keeps h1 (fold (process_message env) ms (log_all es h3))" for es ms
    by (rule keeps_trans [OF k3 keeps_log_all], rule keeps_trans [OF k3 keeps_trans [OF keeps_log_all keeps_process_messages]])
  have "fst (processIncomingData env d h) \<in> {h2, resetTimeoutPeriod h3} \<union> range (\<lambda>es. log_all es h3) \<union>
      {resetTimeoutPeriod (fold (process_message env) ms (log_all es h3)) | ms es. True}"
    unfolding processIncomingData_def Let_def h1_def [symmetric] h2 prod.case h3_def [symmetric]
    by (auto split: sum.split prod.split)
  then show ?thesis using fin [OF k2] reset [OF k3] fin [OF logs] reset [OF msgs] by auto
qed

end

section \<open>Steps\<close>

lemma frames_simps [simp]:
  "hc_frames (hlog lv m h) = hc_frames h" "hc_frames (on_clock f h) = hc_frames h"
  "hc_frames (cleanupPingTimer h) = hc_frames h" "hc_frames (cleanupTimeout h) = hc_frames h"
  "hc_frames (fst (conn_stop e h)) = hc_frames h" "hc_frames (resetKeepAliveInterval h) = hc_frames h"
  "hc_frames (resetTimeoutPeriod h) = hc_frames h" "hc_frames (sendMessage m k h) = hc_frames h"
  "hc_frames (fst (startInternal h)) = hc_frames h"
  by (simp_all add: hlog_def on_clock_def cleanupPingTimer_def cleanupTimeout_def conn_stop_def resetKeepAliveInterval_def
      resetTimeoutPeriod_def sendMessage_def startInternal_def Let_def)

lemma start_failed_frames [simp]: "hc_frames (fst (start_failed e h)) = hc_frames h"
  by (simp add: start_failed_def Let_def case_prod_unfold)

lemma keeps_start_failed: "keeps h (fst (start_failed e h))"
  unfolding start_failed_def Let_def
  by (simp add: case_prod_unfold)
    (rule keeps_trans [OF keeps_hlog keeps_trans [OF keeps_cleanupTimeout keeps_trans [OF keeps_cleanupPingTimer keeps_conn_stop]]])

lemma keeps_after_conn_start: "keeps h (fst (after_conn_start i hp r h)) \<and> hc_frames (fst (after_conn_start i hp r h)) = hc_frames h"
  by (auto simp: after_conn_start_def Let_def intro!: keeps_trans [OF keeps_hlog keeps_sendMessage] split: sum.split)

lemma keeps_after_handshake: "keeps h (fst (after_handshake i st h)) \<and> hc_frames (fst (after_handshake i st h)) = hc_frames h"
  by (auto simp: after_handshake_def intro: keeps_start_failed keeps_sendMessage split: promise_state.split option.split)

lemma keeps_after_ping: "keeps h (fst (after_ping_send r h)) \<and> hc_frames (fst (after_ping_send r h)) = hc_frames h"
  by (auto simp: after_ping_send_def intro: keeps_start_failed split: sum.split)

lemma keeps_after_conn_stop: "keeps h (fst (after_conn_stop e r h)) \<and> hc_frames (fst (after_conn_stop e r h)) = hc_frames h"
  by (auto simp: after_conn_stop_def split: sum.split)

text \<open>A frame keeps its kind when its position changes.\<close>

lemma keeps_set_start_at:
  assumes "keeps h (fst ha) \<and> hc_frames (fst ha) = hc_frames h" and "(i, f) \<in> set (hc_frames h)" and "frame_at f = Some at"
  shows "keeps h (set_start_at i f ha)"
proof (rule keepsI)
  fix P T b assume inv: "hub_inv P T b h"
  have kind: "is_start g = is_start (case f of ReconnectFrame rc _ \<Rightarrow> ReconnectFrame rc at' | _ \<Rightarrow> StartFrame at')"
    if "(i, g) \<in> set (hc_frames (fst ha))" for g at'
  proof -
    have "f = g" using inv_frame_unique [OF inv assms(2)] that assms(1) by simp
    with assms(3) show ?thesis by (cases g) simp_all
  qed
  show "keeps h (set_start_at i f ha)"
    unfolding set_start_at_def case_prod_unfold
    using assms(1) kind by (intro keeps_trans [OF _ keeps_put_frame]) auto
qed

lemma inv_start_done:
  assumes inv: "hub_inv P T b h" and fr: "(i, StartFrame at) \<in> set (hc_frames h)"
  shows "hub_inv P T b (start_done env i r h) \<and> hub_le h (start_done env i r h)"
proof -
  have life: "life_inv (hc_connectionState h) (hc_connectionStarted h) (hc_frames h) (hc_nextFrame h)"
    using inv by (simp add: hub_inv_def)
  have "i \<in> set (starts (hc_frames h))" using fr by (auto simp: starts_mem)
  with life have st: "starts (hc_frames h) = [i]" "\<not> hc_connectionStarted h"
    by (auto simp: life_inv_def le_Suc_eq length_Suc_conv)
  then have "starts (filter (\<lambda>(j, _). j \<noteq> i) (hc_frames h)) = []" by (simp add: starts_remove_start)
  then have "life_inv Connected True (filter (\<lambda>(j, _). j \<noteq> i) (hc_frames h)) (hc_nextFrame h)"
    "life_inv Disconnected False (filter (\<lambda>(j, _). j \<noteq> i) (hc_frames h)) (hc_nextFrame h)"
    using life_filter_ids [OF life, of i] by (auto simp: life_inv_def)
  with inv st(2) show ?thesis
    by (cases r) (simp_all add: start_done_def Let_def set_frame_def hlog_def hub_inv_def hub_le_def sends_inv_def)
qed

context application begin

lemma keeps_reconnect_done:
  assumes "(i, ReconnectFrame rc at) \<in> set (hc_frames h)"
  shows "keeps h (reconnect_done env i rc r h)"
proof (rule keepsI)
  fix P T b assume inv: "hub_inv P T b h"
  have kind: "\<not> is_start f" if "(i, f) \<in> set (hc_frames h)" for f
    using inv_frame_unique [OF inv assms that] by auto
  show "keeps h (reconnect_done env i rc r h)"
  proof (cases r)
    case (Inr u)
    have "keeps h (set_frame i None (hlog LInformation m (h\<lparr>hc_connectionState := Connected\<rparr>)))" for m
      by (rule keeps_trans [OF keeps_state keeps_trans [OF keeps_hlog keeps_remove_frame]]) (use kind in auto)
    then show ?thesis
      unfolding reconnect_done_def Inr sum.case Let_def by (rule keeps_trans) (rule keeps_try, rule keeps_hlog)
  next
    case (Inl e)
    define h1 where "h1 = hlog LInformation (''Reconnect attempt failed because of error '' @ sq (err_to_string e) @ ''.'') h"
    have k1: "keeps h h1" unfolding h1_def by (rule keeps_hlog)
    have left: "keeps h (set_frame i None (hlog LDebug m h1))" for m
      by (rule keeps_trans [OF k1 keeps_trans [OF keeps_hlog keeps_remove_frame]]) (use kind in \<open>auto simp: h1_def\<close>)
    have fr: "hc_frames (fst (getNextRetryDelay env n t e' h1)) = hc_frames h" for n t e'
      by (auto simp: getNextRetryDelay_def h1_def split: option.split sum.split)
    have turn: "keeps h (reconnect_turn env i rc' (fst (getNextRetryDelay env n t e' h1)))" for rc' n t e'
      by (rule keeps_trans [OF k1 keeps_trans [OF keeps_getNextRetryDelay keeps_reconnect_turn]]) (use kind fr in auto)
    show ?thesis
      unfolding reconnect_done_def Inl sum.case Let_def h1_def [symmetric]
      by (auto simp: case_prod_unfold intro: left turn keeps_trans [OF left keeps_completeClose])
  qed
qed

lemma keeps_delay_over:
  assumes "(i, ReconnectDelay rc t) \<in> set (hc_frames h)"
  shows "keeps h (delay_over i rc' h)"
proof (rule keepsI)
  fix P T b assume inv: "hub_inv P T b h"
  have kind: "\<not> is_start f" if "(i, f) \<in> set (hc_frames h)" for f
    using inv_frame_unique [OF inv assms that] by auto
  have 1: "keeps h (on_clock (\<lambda>c. c\<lparr>ck_reconnectDelayHandle := None\<rparr>) h)"
    by (rule keeps_clock) (rule clock_inv_handles)
  let ?h1 = "on_clock (\<lambda>c. c\<lparr>ck_reconnectDelayHandle := None\<rparr>) h"
  have 2: "keeps h (set_frame i None (hlog LDebug m ?h1))" for m
    by (rule keeps_trans [OF 1 keeps_trans [OF keeps_hlog keeps_remove_frame]]) (use kind in auto)
  have 3: "keeps h (set_frame i (Some (ReconnectFrame rc' at)) (fst (startInternal ?h1)))" for at
    by (rule keeps_trans [OF 1 keeps_trans [OF keeps_startInternal keeps_put_frame]]) (use kind in auto)
  show "keeps h (delay_over i rc' h)"
    unfolding delay_over_def Let_def using 2 3 by (simp add: case_prod_unfold)
qed

lemma keeps_timer_fires: "keeps h (timer_fires tm h)"
proof (cases tm)
  case (DelayTimer i)
  then show ?thesis
    by (auto simp: timer_fires_def intro: keeps_delay_over dest: map_of_SomeD split: option.split frame.split)
qed (auto simp: timer_fires_def serverTimeout_def intro: keeps_conn_stop keeps_sendMessage)

lemma keeps_remove_send: "keeps h (h\<lparr>hc_sends := filter p (hc_sends h)\<rparr>)"
  by (auto simp: keeps_def hub_inv_def hub_le_def sends_inv_def)

lemma keeps_send_failed_invoke: "keeps h (on_reg (\<lambda>g. rg_delete (nat_digits i) (rg_settle i (Inl e) g)) h)"
proof (rule keeps_reg)
  fix P g assume inv: "reg_inv P g"
  have "obj_get (rg_promises (rg_settle i (Inl e) g)) (nat_digits i) \<noteq> Some None" by (simp add: rg_settle_def)
  then have "reg_inv P (rg_delete (nat_digits i) (rg_settle i (Inl e) g))"
    using reg_inv_settle_same [OF inv] by (auto intro: reg_inv_delete)
  then show "reg_inv P (rg_delete (nat_digits i) (rg_settle i (Inl e) g)) \<and> reg_le g (rg_delete (nat_digits i) (rg_settle i (Inl e) g))"
    by (simp add: reg_le_trans [OF reg_le_settle reg_le_delete])
qed

lemma keeps_send_failed_stream:
  assumes "i \<in> set (rg_streams (hc_reg h))"
  shows "keeps h (on_reg (rg_delete (nat_digits i)) (fst (he_app env c h)))"
proof (rule keepsI)
  fix P T b assume inv: "hub_inv P T b h"
  then have "reg_le (hc_reg h) (hc_reg (fst (he_app env c h)))" using keepsD [OF app_keeps inv] by (simp add: hub_le_def)
  with assms have "i \<in> set (rg_streams (hc_reg (fst (he_app env c h))))" by (auto simp: reg_le_def)
  then show "keeps h (on_reg (rg_delete (nat_digits i)) (fst (he_app env c h)))"
    by (rule keeps_trans [OF app_keeps keeps_delete_stream])
qed

lemma keeps_send_done:
  assumes "(s, k) \<in> set (hc_sends h)"
  shows "keeps h (send_done env s k r h)"
proof (rule keepsI)
  fix P T b assume "hub_inv P T b h"
  then have stream: "k = SendStream i \<Longrightarrow> i \<in> set (rg_streams (hc_reg h))" for i
    using assms by (auto simp: hub_inv_def sends_inv_def)
  define h1 where "h1 = h\<lparr>hc_sends := filter (\<lambda>(s', _). s' \<noteq> s) (hc_sends h)\<rparr>"
  have k1: "keeps h h1" unfolding h1_def by (rule keeps_remove_send)
  have "keeps h1 (send_done env s k r h)"
  proof (cases k)
    case (SendStream i)
    with stream have i: "i \<in> set (rg_streams (hc_reg h1))" by (simp add: h1_def)
    show ?thesis
    proof (cases r)
      case (Inl e)
      obtain h2 x where app: "he_app env (CallSubjectError i e) h1 = (h2, x)" by fastforce
      have "keeps h1 h2" "keeps h1 (on_reg (rg_delete (nat_digits i)) h2)"
        using app_keeps [of h1 "CallSubjectError i e"] keeps_send_failed_stream [OF i, of "CallSubjectError i e"] app by simp_all
      with Inl SendStream app show ?thesis
        by (cases x) (simp_all add: send_done_def h1_def [symmetric] keeps_trans [OF _ keeps_chain_ready])
    qed (simp add: SendStream send_done_def h1_def [symmetric] keeps_chain_ready)
  qed (cases r; simp add: send_done_def h1_def [symmetric] keeps_chain_ready keeps_cleanupPingTimer
      keeps_trans [OF keeps_send_failed_invoke keeps_chain_ready])+
  with k1 show "keeps h (send_done env s k r h)" by (rule keeps_trans)
qed

end

lemma inv_after_handshake_send:
  assumes "hub_inv P T b h"
  shows "hub_inv P T False (fst (after_handshake_send hp r h)) \<and> hub_le h (fst (after_handshake_send hp r h)) \<and>
    hc_frames (fst (after_handshake_send hp r h)) = hc_frames h"
proof (cases r)
  case (Inl e)
  with keepsD [OF keeps_start_failed assms, of e] show ?thesis
    by (auto simp: after_handshake_send_def hub_inv_def intro: clock_inv_False)
next
  case (Inr u)
  let ?m = "''Using HubProtocol '' @ sq (pr_name JsonHubProtocol) @ ''.''"
  have 1: "hub_inv P T b (hlog LInformation ?m h) \<and> hub_le h (hlog LInformation ?m h)"
    by (rule keepsD [OF keeps_hlog assms])
  have now: "T \<le> ck_now (hc_clock h)" using assms by (simp add: hub_inv_def clock_inv_def)
  let ?h1 = "cleanupTimeout (hlog LInformation ?m h)"
  let ?h2 = "resetTimeoutPeriod ?h1"
  have "clock_inv (ck_now (hc_clock h)) True (hc_clock ?h1)"
    using 1 by (auto simp: hub_inv_def cleanupTimeout_def on_clock_def hlog_def intro: clock_inv_cleanup)
  then have "clock_inv T True (hc_clock ?h1)" using now by (fastforce simp: clock_inv_def)
  with 1 have "hub_inv P T True ?h1" by (simp add: hub_inv_def cleanupTimeout_def on_clock_def sends_inv_def)
  then have 2: "hub_inv P T False ?h2"
    by (auto simp: hub_inv_def resetTimeoutPeriod_def on_clock_def sends_inv_def intro: clock_inv_reset clock_inv_False)
  have "hub_le h ?h2" by (simp add: hub_le_def resetTimeoutPeriod_def cleanupTimeout_def on_clock_def hlog_def)
  moreover have "hub_inv P T False (resetKeepAliveInterval ?h2) \<and> hub_le ?h2 (resetKeepAliveInterval ?h2)"
    by (rule keepsD [OF keeps_resetKeepAlive 2])
  ultimately show ?thesis
    using Inr by (auto simp: after_handshake_send_def Let_def hub_le_def intro: reg_le_trans)
qed

lemma inv_put_frame:
  assumes "hub_inv P T b h" "\<And>g. (i, g) \<in> set (hc_frames h) \<Longrightarrow> is_start g = is_start x"
  shows "hub_inv P T b (set_frame i (Some x) h)"
  using keepsD [OF keeps_put_frame assms(1)] assms(2) by blast

lemma hub_le_set_frame [simp]: "hub_le h (set_frame i f g) \<longleftrightarrow> hub_le h g"
  by (simp add: hub_le_def set_frame_def)

context application begin

lemma no_start_frame:
  "hub_inv P T b h \<Longrightarrow> (i, g) \<in> set (hc_frames h) \<Longrightarrow> \<not> is_start g \<Longrightarrow> (i, f) \<in> set (hc_frames h) \<Longrightarrow> \<not> is_start f"
  using inv_frame_unique by blast

lemma keeps_stopDone: "keeps g (g\<lparr>hc_stopDone := x\<rparr>)"
  by (rule keeps_same) (simp add: same_view_def)

lemma handshakeSent_inv:
  assumes inv: "hub_inv {} T False h" and f: "(i, f) \<in> set (hc_frames h)"
    and at: "frame_at f = Some (AwaitHandshakeSend hp s)" and s: "(s, SendFrame i) \<in> set (hc_sends h)"
    and h': "h' = set_start_at i f (after_handshake_send hp r (send_done env s (SendFrame i) r h))"
  shows "hub_inv {} T False h' \<and> hub_le h h'"
proof -
  let ?h1 = "send_done env s (SendFrame i) r h"
  let ?ha = "after_handshake_send hp r ?h1"
  have h1: "hub_inv {} T False ?h1" "hub_le h ?h1" and frs: "hc_frames ?h1 = hc_frames h"
    using keepsD [OF keeps_send_done [OF s] inv] by (auto simp: send_done_def Let_def)
  from inv_after_handshake_send [OF h1(1), of hp r] frs
  have ha: "hub_inv {} T False (fst ?ha)" "hub_le ?h1 (fst ?ha)" "hc_frames (fst ?ha) = hc_frames h" by simp_all
  have "is_start g = is_start (case f of ReconnectFrame rc _ \<Rightarrow> ReconnectFrame rc at' | _ \<Rightarrow> StartFrame at')"
    if "(i, g) \<in> set (hc_frames (fst ?ha))" for g at'
  proof -
    have "f = g" using inv_frame_unique [OF inv f] that ha(3) by simp
    with at show ?thesis by (cases g) simp_all
  qed
  with ha(1) have "hub_inv {} T False (set_start_at i f ?ha)"
    unfolding set_start_at_def case_prod_unfold by (rule inv_put_frame)
  with ha(2) h1(2) show ?thesis
    unfolding h' by (auto simp: set_start_at_def case_prod_unfold intro: hub_le_trans)
qed

lemma pingSent_keeps:
  assumes "(i, f) \<in> set (hc_frames h)" and "frame_at f = Some (AwaitPingSend s)"
    and "(s, SendFrame i) \<in> set (hc_sends h)"
  shows "keeps h (set_start_at i f (after_ping_send r (send_done env s (SendFrame i) r h)))"
proof -
  let ?h1 = "send_done env s (SendFrame i) r h"
  have "keeps h ?h1" and frs: "hc_frames ?h1 = hc_frames h"
    using keeps_send_done [OF assms(3)] by (auto simp: send_done_def Let_def)
  with keeps_after_ping [of ?h1 r] have "keeps h (fst (after_ping_send r ?h1)) \<and> hc_frames (fst (after_ping_send r ?h1)) = hc_frames h"
    by (auto intro: keeps_trans)
  from keeps_set_start_at [OF this assms(1,2)] show ?thesis .
qed

lemma stop_frames_keep:
  assumes inv: "hub_inv {} T False h"
  shows "(i, StopAwaitStop sp p) \<in> set (hc_frames h) \<Longrightarrow> keeps h (stop_continues i r p h)"
    and "(i, StopAwaitStart p) \<in> set (hc_frames h) \<Longrightarrow> keeps h (stop_ends i h)"
    and "(i, MethodFrame mc ms as) \<in> set (hc_frames h) \<Longrightarrow>
      keeps h (run_methods env (Inr as) (method_outcome q mc) ms (set_frame i None h))"
  using no_start_frame [OF inv]
  by (fastforce simp: stop_continues_def stop_ends_def split: sum.split
      intro: keeps_trans [OF keeps_remove_frame keeps_stopDone] keeps_put_frame
        keeps_trans [OF keeps_remove_frame keeps_run_methods])+

lemma step_inv:
  assumes "hub_inv {} T False h" and "hub_step env h e h'"
  shows "hub_inv {} T False h' \<and> hub_le h h'"
  using assms(2)
proof (cases rule: hub_step.cases)
  case (st_api a)
  then show ?thesis using keepsD [OF keeps_api assms(1)] by simp
next
  case (st_receive d)
  have "T \<le> ck_now (hc_clock h)" using assms(1) by (simp add: hub_inv_def clock_inv_def)
  moreover have "hub_inv {} (ck_now (hc_clock h)) False h' \<and> hub_le h h'"
    using processIncomingData_inv [OF assms(1), of d] st_receive by simp
  ultimately show ?thesis by (fastforce simp: hub_inv_def clock_inv_def)
next
  case (st_closed err)
  then show ?thesis using keepsD [OF keeps_connectionClosed assms(1)] by simp
next
  case (st_features ka cid)
  have "keeps h h'" using st_features by (intro keeps_same) (simp add: same_view_def)
  then show ?thesis using assms(1) by (rule keepsD)
next
  case (st_tick d)
  have "keeps h h'" using st_tick by (auto intro!: keeps_clock clock_inv_handles)
  then show ?thesis using assms(1) by (rule keepsD)
next
  case (st_timer t tm since due)
  have "keeps h h'" using st_timer by (auto intro: keeps_trans [OF keeps_clock keeps_timer_fires] clock_inv_clear)
  then show ?thesis using assms(1) by (rule keepsD)
next
  case (st_connStarted i f hp r)
  have "keeps h h'" using keeps_set_start_at [OF keeps_after_conn_start st_connStarted(3,4)] unfolding st_connStarted(2) .
  then show ?thesis using assms(1) by (rule keepsD)
next
  case (st_handshakeSent i f hp s r)
  then show ?thesis using handshakeSent_inv [OF assms(1)] by blast
next
  case (st_pingSent i f s r)
  then have "keeps h h'" using pingSent_keeps by simp
  then show ?thesis using assms(1) by (rule keepsD)
next
  case (st_sendDone s k r)
  then show ?thesis using keepsD [OF keeps_send_done assms(1)] by simp
next
  case (st_connStopped s r)
  have "keeps h h'" using st_connStopped by (intro keeps_same) (simp add: same_view_def)
  then show ?thesis using assms(1) by (rule keepsD)
next
  case (st_handshake i f hp)
  have "keeps h h'" using keeps_set_start_at [OF keeps_after_handshake st_handshake(3,4)] unfolding st_handshake(2) .
  then show ?thesis using assms(1) by (rule keepsD)
next
  case (st_stopped i f s err r)
  have "keeps h h'" using keeps_set_start_at [OF keeps_after_conn_stop st_stopped(3,4)] unfolding st_stopped(2) .
  then show ?thesis using assms(1) by (rule keepsD)
next
  case (st_inner i f r)
  show ?thesis
  proof (cases f)
    case (StartFrame at)
    with st_inner inv_start_done [OF assms(1)] show ?thesis by (simp add: inner_done_def)
  next
    case (ReconnectFrame rc at)
    with st_inner have "keeps h h'" by (simp add: inner_done_def keeps_reconnect_done)
    then show ?thesis using assms(1) by (rule keepsD)
  qed (use st_inner in simp_all)
next
  case (st_stopContinues i sp p r)
  then show ?thesis using keepsD [OF stop_frames_keep(1) assms(1)] assms(1) by simp
next
  case (st_stopEnds i p r)
  then show ?thesis using keepsD [OF stop_frames_keep(2) assms(1)] assms(1) by simp
next
  case (st_methodDone i mc ms as r)
  then show ?thesis using keepsD [OF stop_frames_keep(3) assms(1)] assms(1) by simp
next
  case (st_chain c ch)
  then have "keeps h h'"
    by (auto simp: chain_turn_def intro: keeps_trans [OF keeps_on_chain keeps_sendWithProtocol] split: list.split)
  then show ?thesis using assms(1) by (rule keepsD)
next
  case (st_cancelTurn i)
  then have "keeps h h'" by (auto intro: keeps_trans [OF keeps_same_upd(3) keeps_sendWithProtocol])
  then show ?thesis using assms(1) by (rule keepsD)
qed

lemma runs_inv:
  assumes "runs (hub_step env) h es h'" "hub_inv {} T False h"
  shows "hub_inv {} T False h' \<and> hub_le h h'"
  using assms
proof (induction rule: runs.induct)
  case (runs_Nil s)
  then show ?case by (simp add: hub_le_def)
next
  case (runs_snoc s es s' e s'')
  then have "hub_inv {} T False s'" "hub_le s s'" by simp_all
  with step_inv [OF _ runs_snoc.hyps(2), of T] show ?case by (blast intro: hub_le_trans)
qed

end

lemma inv_new: "T \<le> 0 \<Longrightarrow> hub_inv {} T False (HubConnection_new ka url)"
  by (simp add: hub_inv_def HubConnection_new_def reg_inv_def clock_inv_def sends_inv_def life_inv_def starts_def table_ok_def)

end
