(* ===== verification/Sr_HubProperties.thy ===== *)
theory Sr_HubProperties
  imports Sr_HubInvariants
begin

text \<open>
  What the invariants give for the users of a hub connection: every invocation is settled by its own
  completion or by the close of the connection, the server timeout fires only after silence, calls of
  \<^verbatim>\<open>start\<close> and \<^verbatim>\<open>stop\<close> in each state, and one interleaving that leaves the state wrong.
\<close>

abbreviation hub_runs :: "nat \<Rightarrow> scripts \<Rightarrow> henv \<Rightarrow> hub \<Rightarrow> hub_event list \<Rightarrow> hub \<Rightarrow> bool" where
  "hub_runs depth scripts env \<equiv> runs (hub_step (script_env depth scripts env))"

abbreviation promise_of :: "hub \<Rightarrow> nat \<Rightarrow> jsval result option option" where
  "promise_of h i \<equiv> obj_get (rg_promises (hc_reg h)) (nat_digits i)"

lemma reachable_inv:
  "hub_runs depth scripts env (HubConnection_new ka url) es h \<Longrightarrow> hub_inv {} 0 False h"
  using script.runs_inv [OF _ inv_new] by blast

lemma inv_pending:
  "hub_inv {} T b h \<Longrightarrow> promise_of h i = Some None \<Longrightarrow>
     obj_get (rg_callbacks (hc_reg h)) (nat_digits i) = Some (InvokeCallback i)"
  by (auto simp: hub_inv_def reg_inv_def)

section \<open>Closing settles every invocation\<close>

lemma settle_settles: "obj_get (rg_promises g) (nat_digits i) \<noteq> None \<Longrightarrow>
    \<exists>r'. obj_get (rg_promises (rg_settle i r g)) (nat_digits i) = Some (Some r')"
  by (auto simp: rg_settle_def)

lemma hub_le_settled: "hub_le h h' \<Longrightarrow> \<exists>r. promise_of h i = Some (Some r) \<Longrightarrow> \<exists>r. promise_of h' i = Some (Some r)"
  by (auto simp: hub_le_def reg_le_def)

lemma hub_le_exists: "hub_le h h' \<Longrightarrow> promise_of h i \<noteq> None \<Longrightarrow> promise_of h' i \<noteq> None"
  by (auto simp: hub_le_def reg_le_def)

context application begin

lemma cancel_loop_settles:
  "hub_inv (P \<union> invokes cbs) T b h \<Longrightarrow> i \<in> invokes cbs \<Longrightarrow> promise_of h i \<noteq> None \<Longrightarrow>
     \<exists>r. promise_of (cancel_loop env e cbs h) i = Some (Some r)"
proof (induction cbs arbitrary: h)
  case Nil
  then show ?case by (simp add: invokes_def)
next
  case (Cons kcb cbs)
  obtain k cb where kcb: "kcb = (k, cb)" by (cases kcb)
  obtain h1 x where run: "run_callback env cb (Inr e) h = (h1, x)" by fastforce
  have k1: "keeps h h1" using keeps_run_callback [of h cb "Inr e"] run by simp
  define h2 where "h2 = (case x of None \<Rightarrow> h1 | Some e' \<Rightarrow>
      hlog LError (''Stream '' @ sq ''error'' @ '' callback called with '' @ sq (err_to_string e)
               @ '' threw error: '' @ getErrorString (he_stack env e') e') h1)"
  have reg2: "hc_reg h2 = hc_reg h1" by (auto simp: h2_def hlog_def split: option.split)
  have k2: "keeps h1 h2" by (auto simp: h2_def intro: keeps_hlog split: option.split)
  have eq: "cancel_loop env e (kcb # cbs) h = cancel_loop env e cbs h2"
    by (cases x) (simp_all add: kcb run h2_def)
  have inv2: "hub_inv (P \<union> invokes cbs) T b h2"
  proof (cases cb)
    case (InvokeCallback j)
    then have "hub_inv (insert j (P \<union> invokes cbs)) T b h" using Cons.prems(1) by (simp add: kcb invokes_Cons)
    from run_callback_invoke [OF this, of e] have "hub_inv (P \<union> invokes cbs) T b h1"
      using run InvokeCallback by simp
    with keepsD [OF k2] show ?thesis by blast
  next
    case (StreamCallback j)
    then have "hub_inv (P \<union> invokes cbs) T b h" using Cons.prems(1) by (simp add: kcb invokes_Cons)
    with keepsD [OF keeps_trans [OF k1 k2]] show ?thesis by blast
  qed
  have le2: "hub_le h h2" using keepsD [OF keeps_trans [OF k1 k2] Cons.prems(1)] by simp
  show ?case
  proof (cases "i \<in> invokes cbs")
    case True
    with Cons.IH [OF inv2] hub_le_exists [OF le2] Cons.prems(3) show ?thesis by (simp add: eq)
  next
    case False
    with Cons.prems(2) have "cb = InvokeCallback i" by (cases cb) (auto simp: kcb invokes_Cons)
    then have "hc_reg h1 = rg_settle i (Inl e) (hc_reg h)"
      using run by (auto simp: run_callback_def invoke_callback_def on_reg_def)
    with settle_settles [OF Cons.prems(3)] reg2 have "\<exists>r. promise_of h2 i = Some (Some r)" by simp
    with cancel_loop_inv [OF inv2] show ?thesis unfolding eq by (blast intro: hub_le_settled)
  qed
qed

lemma closed_settles:
  assumes inv: "hub_inv {} T False h" and pend: "promise_of h i = Some None"
  shows "\<exists>r. promise_of (connectionClosed env error h) i = Some (Some r)"
proof -
  define e where "e = (case error of Some e \<Rightarrow> e
     | None \<Rightarrow> Error ''Invocation canceled due to the underlying connection being closed.'')"
  obtain h3 h4 where h3: "same_view h h3" and h4: "h4 = cancelCallbacksWithError env e h3"
    and k: "keeps h4 (connectionClosed env error h)"
  proof -
    define g where "g = (let h1 = hlog LDebug (''HubConnection.connectionClosed('' @ opt_err_to_string error @ '') called while in state ''
                 @ state_name (hc_connectionState h) @ ''.'') h;
          h2 = h1\<lparr>hc_stopDuringStartError := Some (case hc_stopDuringStartError h1 of Some e \<Rightarrow> e
                  | None \<Rightarrow> (case error of Some e \<Rightarrow> e
                      | None \<Rightarrow> AbortError ''The underlying connection was closed before the hub handshake could complete.''))\<rparr>
     in (case hc_handshakeResolver h2 of
                  Some p \<Rightarrow> h2\<lparr>hc_handshakes := PromiseSource_resolve p (hc_handshakes h2)\<rparr> | None \<Rightarrow> h2))"
    define h5 where "h5 = cleanupPingTimer (cleanupTimeout (cancelCallbacksWithError env e g))"
    have "same_view h g" by (simp add: g_def same_view_def hlog_def Let_def split: option.split)
    moreover have "connectionClosed env error h =
      (if hc_connectionState h5 = Disconnecting then completeClose env error h5
         else if hc_connectionState h5 = Connected \<and> he_policy env \<noteq> None then reconnect env error h5
         else if hc_connectionState h5 = Connected then completeClose env error h5
         else h5)"
      unfolding connectionClosed_def h5_def g_def e_def Let_def ..
    moreover have h5: "keeps (cancelCallbacksWithError env e g) h5"
      unfolding h5_def by (rule keeps_trans [OF keeps_cleanupTimeout keeps_cleanupPingTimer])
    ultimately show ?thesis
      using that [of g] keeps_trans [OF h5 keeps_completeClose] keeps_trans [OF h5 keeps_reconnect] h5 by simp
  qed
  have inv3: "hub_inv {} T False h3" using keepsD [OF keeps_same [OF h3] inv] by simp
  have pend3: "promise_of h3 i = Some None" using h3 pend by (simp add: same_view_def)
  let ?c = "on_reg (\<lambda>g. g\<lparr>rg_callbacks := []\<rparr>) h3"
  have "i \<in> invokes (rg_callbacks (hc_reg h3))"
    using obj_get_Some_mem [OF inv_pending [OF inv3 pend3]] by (force simp: invokes_def)
  moreover have "promise_of ?c i \<noteq> None" using pend3 by (simp add: on_reg_def)
  ultimately have "\<exists>r. promise_of h4 i = Some (Some r)"
    unfolding h4 cancelCallbacksWithError_def using cancel_loop_settles [OF reg_clear [OF inv3]] by simp
  moreover have "hub_inv {} T False h4" unfolding h4 using keepsD [OF keeps_cancelCallbacks inv3] by simp
  ultimately show ?thesis using keepsD [OF k] hub_le_settled by blast
qed

end

section \<open>Completions\<close>

definition completion_outcome :: "jsval \<Rightarrow> jsval result" where
  "completion_outcome m =
     (if truthy (message_prop m ''error'') then Inl (Error (js_to_string (message_prop m ''error'')))
      else Inr (message_prop m ''result''))"

lemma process_completion:
  assumes inv: "hub_inv {} T b h" and pend: "promise_of h i = Some None"
    and m: "message_prop m ''type'' = JNum MT_Completion" "message_prop m ''invocationId'' = JStr (nat_digits i)"
  shows "hc_reg (process_message env m h) =
    (hc_reg h)\<lparr>rg_callbacks := obj_del (nat_digits i) (rg_callbacks (hc_reg h)),
       rg_promises := obj_set (nat_digits i) (Some (completion_outcome m)) (rg_promises (hc_reg h))\<rparr>"
proof -
  note cb = inv_pending [OF inv pend]
  have "process_message env m h = stream_or_completion env m h"
    using m(1) by (simp add: process_message_def MT_defs)
  also have "\<dots> = on_reg (\<lambda>g. invoke_callback i (Inl m) (rg_delete (nat_digits i) g)) h"
    using m cb by (simp add: stream_or_completion_def run_callback_def on_reg_def)
  finally show ?thesis
    using pend m(1) by (simp add: on_reg_def invoke_callback_def rg_delete_def rg_settle_def completion_outcome_def)
qed

section \<open>Properties\<close>

text \<open>
  C1: in every run of a hub connection, with an application that calls back into it from any of its
  callbacks: the invocation ids are fresh (every registered callback stands under its own id, below
  the next one), a promise of \<^verbatim>\<open>invoke\<close> that is pending has its callback registered, so it can still be
  settled; at most one call of \<^verbatim>\<open>start\<close> is under way, and the disconnected state excludes it.
\<close>

theorem hub_connection_invariant:
  assumes "hub_runs depth scripts env (HubConnection_new ka url) es h"
  shows "distinct (obj_keys (rg_callbacks (hc_reg h))) \<and>
    (\<forall>(k, cb) \<in> set (rg_callbacks (hc_reg h)). k = nat_digits (callback_id cb) \<and> callback_id cb < rg_invocationId (hc_reg h)) \<and>
    (\<forall>i. promise_of h i = Some None \<longrightarrow> obj_get (rg_callbacks (hc_reg h)) (nat_digits i) = Some (InvokeCallback i)) \<and>
    length (starts (hc_frames h)) \<le> 1 \<and>
    (hc_connectionState h = Disconnected \<longrightarrow> \<not> hc_connectionStarted h \<and> starts (hc_frames h) = []) \<and>
    (hc_connectionState h = Connecting \<longrightarrow> starts (hc_frames h) \<noteq> [])"
  using reachable_inv [OF assms] by (auto simp: hub_inv_def reg_inv_def life_inv_def)

definition quiet_env :: henv where
  "quiet_env = \<lparr>he_app = (\<lambda>c h. (h, Inr JUndef)), he_policy = None, he_browser = False, he_stack = (\<lambda>_. [])\<rparr>"

definition quiet_scripts :: scripts where
  "quiet_scripts c = ([], Inr JUndef)"

definition demo_hub :: hub where
  "demo_hub = api_do (script_env 0 quiet_scripts quiet_env) (ApiInvoke ''Add'' [JNum 1]) (HubConnection_new False [])"

lemma demo_run: "hub_runs 0 quiet_scripts quiet_env (HubConnection_new False []) [EvApi (ApiInvoke ''Add'' [JNum 1])] demo_hub"
  unfolding demo_hub_def by (rule runs_one [of "hub_step (script_env 0 quiet_scripts quiet_env)"], rule st_api)

lemma demo_pending: "promise_of demo_hub 0 = Some None"
  by code_simp

theorem hub_connection_invariant_witness:
  "promise_of demo_hub 0 = Some None \<and> obj_get (rg_callbacks (hc_reg demo_hub)) (nat_digits 0) = Some (InvokeCallback 0)"
  using hub_connection_invariant [OF demo_run] demo_pending by blast

text \<open>
  C2: no invocation is left hanging. Whenever the underlying connection closes, every promise of
  \<^verbatim>\<open>invoke\<close> that was pending is settled when \<^verbatim>\<open>_connectionClosed\<close> returns, whatever the application's
  callbacks do meanwhile.
\<close>

theorem close_settles_every_invocation:
  assumes "hub_runs depth scripts env (HubConnection_new ka url) es h" and "promise_of h i = Some None"
  shows "\<exists>r. promise_of (connectionClosed (script_env depth scripts env) error h) i = Some (Some r)"
  using script.closed_settles [OF reachable_inv [OF assms(1)] assms(2)] .

theorem close_settles_every_invocation_witness:
  "\<exists>r. promise_of (connectionClosed (script_env 0 quiet_scripts quiet_env) None demo_hub) 0 = Some (Some r)"
  by (rule close_settles_every_invocation [OF demo_run demo_pending])

text \<open>
  C3: a completion settles its invocation and no other. When a completion with the id of a pending
  invocation arrives, its promise is rejected with the server's error or resolved with the result, its
  callback is removed, and every other callback, every other promise and every handler stays as it is.
\<close>

theorem completion_settles_its_invocation:
  assumes "hub_runs depth scripts env (HubConnection_new ka url) es h" and "promise_of h i = Some None"
    and "message_prop m ''type'' = JNum MT_Completion" and "message_prop m ''invocationId'' = JStr (nat_digits i)"
  shows "let h' = process_message (script_env depth scripts env) m h in
    promise_of h' i = Some (Some (completion_outcome m)) \<and>
    obj_get (rg_callbacks (hc_reg h')) (nat_digits i) = None \<and>
    (\<forall>j. j \<noteq> i \<longrightarrow> promise_of h' j = promise_of h j \<and>
       obj_get (rg_callbacks (hc_reg h')) (nat_digits j) = obj_get (rg_callbacks (hc_reg h)) (nat_digits j)) \<and>
    rg_methods (hc_reg h') = rg_methods (hc_reg h) \<and> rg_invocationId (hc_reg h') = rg_invocationId (hc_reg h)"
  using process_completion [OF reachable_inv [OF assms(1)] assms(2-4)] by (simp add: Let_def)

theorem completion_settles_its_invocation_witness:
  "promise_of (process_message (script_env 0 quiet_scripts quiet_env)
      (JObj [(''type'', JNum 3), (''invocationId'', JStr (nat_digits 0)), (''result'', JNum 7)]) demo_hub) 0 = Some (Some (Inr (JNum 7)))"
  using completion_settles_its_invocation [OF demo_run demo_pending,
      of "JObj [(''type'', JNum 3), (''invocationId'', JStr (nat_digits 0)), (''result'', JNum 7)]"]
  by (simp add: message_prop_def MT_defs completion_outcome_def Let_def)

text \<open>
  C25: the server timeout fires only after silence. Once data has been received at some time, the timer
  of the server timeout cannot fire before that time plus the timeout, whatever happens in between.
\<close>

theorem server_timeout_only_after_silence:
  assumes "hub_runs depth scripts env (HubConnection_new ka url) es h0"
    and "hub_step (script_env depth scripts env) h0 (EvReceive d) h1"
    and "hub_runs depth scripts env h1 es' h2"
    and "(t, TimeoutTimer, since, due) \<in> set (ck_timers (hc_clock h2))" and "due \<le> ck_now (hc_clock h2)"
  shows "ck_now (hc_clock h0) + max 0 (ck_serverTimeout (hc_clock h2)) \<le> ck_now (hc_clock h2)"
proof -
  have "h1 = fst (processIncomingData (script_env depth scripts env) d h0)"
    using assms(2) by (cases rule: hub_step.cases) simp_all
  with script.processIncomingData_inv [OF reachable_inv [OF assms(1)]]
  have "hub_inv {} (ck_now (hc_clock h0)) False h1" by simp
  from script.runs_inv [OF assms(3) this] have "clock_inv (ck_now (hc_clock h0)) False (hc_clock h2)"
    by (simp add: hub_inv_def)
  with assms(4,5) show ?thesis by (fastforce simp: clock_inv_def)
qed

definition demo_received :: hub where
  "demo_received = fst (processIncomingData (script_env 0 quiet_scripts quiet_env) (JStr (''{}'' @ [RecordSeparator])) (HubConnection_new False []))"

definition demo_waited :: hub where
  "demo_waited = on_clock (\<lambda>c. c\<lparr>ck_now := ck_now c + 30000\<rparr>) demo_received"

theorem server_timeout_only_after_silence_witness:
  "ck_now (hc_clock (HubConnection_new False [])) + max 0 (ck_serverTimeout (hc_clock demo_waited)) \<le> ck_now (hc_clock demo_waited)"
proof (rule server_timeout_only_after_silence)
  show "hub_runs 0 quiet_scripts quiet_env (HubConnection_new False []) [] (HubConnection_new False [])"
    by (rule runs_Nil)
  show "hub_step (script_env 0 quiet_scripts quiet_env) (HubConnection_new False []) (EvReceive (JStr (''{}'' @ [RecordSeparator]))) demo_received"
    unfolding demo_received_def by (rule st_receive)
  show "hub_runs 0 quiet_scripts quiet_env demo_received [EvTick 30000] demo_waited"
    unfolding demo_waited_def by (rule runs_one [of "hub_step (script_env 0 quiet_scripts quiet_env)"], rule st_tick) simp
  show "(1, TimeoutTimer, 0, 30000) \<in> set (ck_timers (hc_clock demo_waited))" by code_simp
  show "30000 \<le> ck_now (hc_clock demo_waited)" by code_simp
qed

section \<open>Start and stop\<close>

text \<open>
  \<^verbatim>\<open>start\<close> does something only in the disconnected state: there it moves to connecting, calls
  \<^verbatim>\<open>connection.start\<close> once and sets up a new pending handshake promise; in every other state it rejects its
  promise and changes neither the state nor the connection, the invocations or the timers.
\<close>

theorem start_only_when_disconnected:
  "if hc_connectionState h = Disconnected then
     hc_connectionState (hub_start h) = Connecting \<and>
     hc_calls (hub_start h) = hc_calls h @ [ConnStart TransferFormat_Text] \<and>
     hc_handshakes (hub_start h) = hc_handshakes h @ [Pending] \<and>
     hc_handshakeResolver (hub_start h) = Some (length (hc_handshakes h)) \<and>
     hc_stopDuringStartError (hub_start h) = None \<and> \<not> hc_receivedHandshakeResponse (hub_start h) \<and>
     hc_frames (hub_start h) = hc_frames h @ [(hc_nextFrame h, StartFrame (AwaitConnStart (length (hc_handshakes h))))]
   else
     hc_startPromise (hub_start h) = Some (hc_nextFrame h) \<and>
     (hc_nextFrame h, Inl (Error (''Cannot start a HubConnection that is not in the '' @ sq ''Disconnected'' @ '' state.'')))
       \<in> set (hc_startResults (hub_start h)) \<and>
     hc_connectionState (hub_start h) = hc_connectionState h \<and> hc_calls (hub_start h) = hc_calls h \<and>
     hc_frames (hub_start h) = hc_frames h \<and> hc_reg (hub_start h) = hc_reg h \<and> hc_clock (hub_start h) = hc_clock h"
  by (simp add: hub_start_def startInternal_def Let_def hlog_def add_frame_def JsonHubProtocol_def)



section \<open>Invocations\<close>

lemma split_args_values: "list_all (\<lambda>a. \<not> isObservable a) args \<Longrightarrow> split_args args = ([], args)"
  by (induction args rule: split_args.induct) simp_all

lemma sendMessage_view:
  "hc_reg (sendMessage m k h) = hc_reg h" "hc_calls (sendMessage m k h) = hc_calls h @ [ConnSend (hc_nextSend h) m]"
  "hc_sends (sendMessage m k h) = hc_sends h @ [(hc_nextSend h, k)]"
  by (simp_all add: sendMessage_def Let_def resetKeepAliveInterval_def on_clock_def)

text \<open>
  C28: \<^verbatim>\<open>invoke\<close> without streaming arguments sends one message, the invocation with the next id, and
  registers a pending promise and its callback under that id, which no earlier invocation has.
\<close>

theorem invoke_sends_and_registers:
  assumes "hub_runs depth scripts env (HubConnection_new ka url) es h" and "list_all (\<lambda>a. \<not> isObservable a) args"
  shows "let n = rg_invocationId (hc_reg h); h' = hub_invoke (script_env depth scripts env) methodName args h in
    hc_calls h' = hc_calls h @ [ConnSend (hc_nextSend h) (writeMessage (invocation_object args (Some n) [] methodName MT_Invocation))] \<and>
    promise_of h n = None \<and> promise_of h' n = Some None \<and>
    obj_get (rg_callbacks (hc_reg h)) (nat_digits n) = None \<and>
    obj_get (rg_callbacks (hc_reg h')) (nat_digits n) = Some (InvokeCallback n) \<and> rg_invocationId (hc_reg h') = Suc n"
proof -
  have "reg_inv {} (hc_reg h)" using reachable_inv [OF assms(1)] by (simp add: hub_inv_def)
  from reg_inv_fresh [OF this order_refl] show ?thesis
    by (simp add: hub_invoke_def Let_def createInvocation_def replaceStreamingParams_split split_args_values [OF assms(2)]
        launchStreams_def sendWithProtocol_def sendMessage_view) (simp add: on_reg_def)
qed

theorem invoke_sends_and_registers_witness:
  "promise_of (hub_invoke (script_env 0 quiet_scripts quiet_env) ''Add'' [] demo_hub) (rg_invocationId (hc_reg demo_hub)) = Some None"
  using invoke_sends_and_registers [OF demo_run, of "[]" "''Add''"] by (simp add: Let_def)

section \<open>Reconnecting\<close>

lemma set_frame_view:
  "hc_connectionState (set_frame i f h) = hc_connectionState h" "hc_clock (set_frame i f h) = hc_clock h"
  by (simp_all add: set_frame_def)

lemma set_frame_mem: "(i, f) \<in> set (hc_frames h) \<Longrightarrow> (i, x) \<in> set (hc_frames (set_frame i (Some x) h))"
  by (force simp: set_frame_def)

definition default_policy_env :: "jsval list \<Rightarrow> henv \<Rightarrow> henv" where
  "default_policy_env ds env =
     env\<lparr>he_policy := Some (\<lambda>t n e. Inr (DefaultReconnectPolicy_next (DefaultReconnectPolicy_new (Some ds)) n))\<rparr>"

text \<open>
  C29: the reconnect loop under the policy with delays \<open>ds\<close>. When attempt number \<open>n\<close> fails while the
  connection is reconnecting, the loop waits exactly the \<open>n\<close>th delay before the next attempt if there is
  one; when the last delay has been used, it makes no further attempt and closes the connection.
\<close>

theorem reconnect_follows_delays:
  assumes "hc_connectionState h = Reconnecting" and "(i, ReconnectFrame rc at) \<in> set (hc_frames h)"
    and "rc_attempts rc \<le> length ds" and "JNull \<notin> set ds"
  shows "let h' = reconnect_done (default_policy_env ds env) i rc (Inl e) h; n = rc_attempts rc; now = ck_now (hc_clock h) in
    if n < length ds then
      hc_connectionState h' = Reconnecting \<and>
      (\<exists>t. (i, ReconnectDelay (rc\<lparr>rc_attempts := Suc n, rc_delay := ds ! n\<rparr>) t) \<in> set (hc_frames h') \<and>
         (t, DelayTimer i, now, now + max 0 (delay_ms (ds ! n))) \<in> set (ck_timers (hc_clock h')) \<and>
         ck_reconnectDelayHandle (hc_clock h') = Some t)
    else
      (\<exists>g. h' = completeClose (default_policy_env ds env) None g \<and> hc_calls g = hc_calls h \<and>
         hc_connectionStarted g = hc_connectionStarted h \<and> i \<notin> fst ` set (hc_frames g) \<and> hc_clock g = hc_clock h)"
proof -
  let ?next = "DefaultReconnectPolicy_next (DefaultReconnectPolicy_new (Some ds))"
  have next_lt: "?next n = ds ! n \<and> ds ! n \<noteq> JNull" if "n < length ds" for n
    using that assms(4)
    by (auto simp: DefaultReconnectPolicy_next_def DefaultReconnectPolicy_new_def nth_append) (metis nth_mem)
  show ?thesis
  proof (cases "rc_attempts rc < length ds")
    case True
    have "reconnect_done (default_policy_env ds env) i rc (Inl e) h =
      reconnect_turn (default_policy_env ds env) i (rc\<lparr>rc_attempts := Suc (rc_attempts rc), rc_delay := ds ! rc_attempts rc\<rparr>)
        (hlog LInformation (''Reconnect attempt failed because of error '' @ sq (err_to_string e) @ ''.'') h)"
      using True next_lt assms(1) by (simp add: reconnect_done_def Let_def hlog_def getNextRetryDelay_def default_policy_env_def)
    with True next_lt assms(1,2) show ?thesis
      by (simp add: reconnect_turn_def Let_def ck_set_def set_frame_view del: append_Cons)
        (simp add: hlog_def set_frame_mem)
  next
    case False
    with assms(3) have "rc_attempts rc = length ds" by simp
    with assms(1) DefaultReconnectPolicy_last show ?thesis
      by (auto simp: reconnect_done_def Let_def hlog_def getNextRetryDelay_def default_policy_env_def reconnect_turn_def
          set_frame_def intro!: exI)
  qed
qed

theorem reconnect_follows_delays_witness:
  "let h = (HubConnection_new True [])\<lparr>hc_connectionState := Reconnecting,
         hc_frames := [(0, ReconnectFrame \<lparr>rc_startTime = 0, rc_attempts = 1, rc_delay = JNum 0\<rparr> (AwaitConnStart 0))]\<rparr> in
   \<exists>t. ck_reconnectDelayHandle (hc_clock (reconnect_done (default_policy_env [JNum 0, JNum 2000] quiet_env) 0
         \<lparr>rc_startTime = 0, rc_attempts = 1, rc_delay = JNum 0\<rparr> (Inl (Error ''x'')) h)) = Some t"
proof -
  let ?rc = "\<lparr>rc_startTime = 0, rc_attempts = 1, rc_delay = JNum 0\<rparr>"
  let ?h = "(HubConnection_new True [])\<lparr>hc_connectionState := Reconnecting, hc_frames := [(0, ReconnectFrame ?rc (AwaitConnStart 0))]\<rparr>"
  show ?thesis
    using reconnect_follows_delays [of ?h 0 ?rc "AwaitConnStart 0" "[JNum 0, JNum 2000]" quiet_env "Error ''x''"]
    by (simp add: Let_def) blast
qed

section \<open>A restart inside an onclose callback\<close>

text \<open>
  An application that starts the connection again in its \<^verbatim>\<open>onclose\<close> callback, with the default retry
  policy, over a transport that keeps the connection alive by itself.
\<close>

definition restart_scripts :: scripts where
  "restart_scripts c = (case c of CallClosed f e \<Rightarrow> ([ApiStart], Inr JUndef) | _ \<Rightarrow> ([], Inr JUndef))"

definition restart_env :: henv where
  "restart_env = script_env 1 restart_scripts (default_policy_env [JNum 0] quiet_env)"

definition race_rc :: recon where
  "race_rc = \<lparr>rc_startTime = 0, rc_attempts = 1, rc_delay = JNum 0\<rparr>"

definition race_handshake :: jsval where
  "race_handshake = JStr (''{}'' @ [RecordSeparator])"

text \<open>The states of the run; each comes from the one before by one step.\<close>

definition race_0 :: hub where
  "race_0 = HubConnection_new True []"

definition race_1 :: hub where
  "race_1 = api_do restart_env (ApiOnClose 0) race_0"

definition race_2 :: hub where
  "race_2 = api_do restart_env ApiStart race_1"

definition race_3 :: hub where
  "race_3 = set_start_at 0 (StartFrame (AwaitConnStart 0)) (after_conn_start 0 0 (Inr ()) race_2)"

definition race_4 :: hub where
  "race_4 = set_start_at 0 (StartFrame (AwaitHandshakeSend 0 0)) (after_handshake_send 0 (Inr ()) (send_done restart_env 0 (SendFrame 0) (Inr ()) race_3))"

definition race_5 :: hub where
  "race_5 = fst (processIncomingData restart_env race_handshake race_4)"

definition race_6 :: hub where
  "race_6 = set_start_at 0 (StartFrame (AwaitHandshake 0)) (after_handshake 0 (hc_handshakes race_5 ! 0) race_5)"

definition race_7 :: hub where
  "race_7 = inner_done restart_env 0 (StartFrame (InnerDone (Inr ()))) (Inr ()) race_6"

definition race_8 :: hub where
  "race_8 = connectionClosed restart_env None race_7"

definition race_9 :: hub where
  "race_9 = timer_fires (DelayTimer 1) (on_clock (ck_clear 1) race_8)"

definition race_10 :: hub where
  "race_10 = set_start_at 1 (ReconnectFrame race_rc (AwaitConnStart 1)) (after_conn_start 1 1 (Inr ()) race_9)"

definition race_11 :: hub where
  "race_11 = set_start_at 1 (ReconnectFrame race_rc (AwaitHandshakeSend 1 1)) (after_handshake_send 1 (Inr ()) (send_done restart_env 1 (SendFrame 1) (Inr ()) race_10))"

definition race_12 :: hub where
  "race_12 = api_do restart_env ApiStop race_11"

definition race_13 :: hub where
  "race_13 = connectionClosed restart_env None race_12"

definition race_14 :: hub where
  "race_14 = set_start_at 1 (ReconnectFrame race_rc (AwaitHandshake 1)) (after_handshake 1 (hc_handshakes race_13 ! 1) race_13)"

definition race_15 :: hub where
  "race_15 = inner_done restart_env 1 (ReconnectFrame race_rc (InnerDone (Inr ()))) (Inr ()) race_14"

text \<open>The run: the application registers an onclose callback; calls start; the connection has started; the handshake request is sent; the handshake response arrives; start goes on; start ends: connected; the connection closes: reconnecting after 0 ms; the delay is over; the connection has started; the handshake request is sent; stop is called; the connection closes, the onclose callback calls start; the reconnect attempt goes on; the reconnect attempt ends.\<close>

lemma race_run:
  "runs (hub_step restart_env) race_0
    [EvApi (ApiOnClose 0), EvApi ApiStart, EvConnStarted 0 (Inr ()), EvSendDone 0 (Inr ()), EvReceive race_handshake, EvContinue 0, EvContinue 0, EvClosed None, EvTimer 1, EvConnStarted 1 (Inr ()), EvSendDone 1 (Inr ()), EvApi ApiStop, EvClosed None, EvContinue 1, EvContinue 1] race_15"
proof -
  have s0: "hub_step restart_env race_0 (EvApi (ApiOnClose 0)) race_1"
    unfolding race_1_def by (rule st_api)
  have s1: "hub_step restart_env race_1 (EvApi ApiStart) race_2"
    unfolding race_2_def by (rule st_api)
  have s2: "hub_step restart_env race_2 (EvConnStarted 0 (Inr ())) race_3"
    unfolding race_3_def by (rule st_connStarted) (code_simp)+
  have s3: "hub_step restart_env race_3 (EvSendDone 0 (Inr ())) race_4"
    unfolding race_4_def by (rule st_handshakeSent) (code_simp)+
  have s4: "hub_step restart_env race_4 (EvReceive race_handshake) race_5"
    unfolding race_5_def by (rule st_receive)
  have s5: "hub_step restart_env race_5 (EvContinue 0) race_6"
    unfolding race_6_def by (rule st_handshake) (code_simp)+
  have s6: "hub_step restart_env race_6 (EvContinue 0) race_7"
    unfolding race_7_def by (rule st_inner) (code_simp)+
  have s7: "hub_step restart_env race_7 (EvClosed None) race_8"
    unfolding race_8_def by (rule st_closed)
  have s8: "hub_step restart_env race_8 (EvTimer 1) race_9"
    unfolding race_9_def by (rule st_timer [of 1 "DelayTimer 1" 0 0]) (code_simp)+
  have s9: "hub_step restart_env race_9 (EvConnStarted 1 (Inr ())) race_10"
    unfolding race_10_def by (rule st_connStarted) (code_simp)+
  have s10: "hub_step restart_env race_10 (EvSendDone 1 (Inr ())) race_11"
    unfolding race_11_def by (rule st_handshakeSent) (code_simp)+
  have s11: "hub_step restart_env race_11 (EvApi ApiStop) race_12"
    unfolding race_12_def by (rule st_api)
  have s12: "hub_step restart_env race_12 (EvClosed None) race_13"
    unfolding race_13_def by (rule st_closed)
  have s13: "hub_step restart_env race_13 (EvContinue 1) race_14"
    unfolding race_14_def by (rule st_handshake) (code_simp)+
  have s14: "hub_step restart_env race_14 (EvContinue 1) race_15"
    unfolding race_15_def by (rule st_inner) (code_simp)+
  show ?thesis
    by (intro runs_cons [of "hub_step restart_env"]) (fact s0 s1 s2 s3 s4 s5 s6 s7 s8 s9 s10 s11 s12 s13 s14 runs_Nil)+
qed

lemma race_final:
  "hc_connectionState race_15 = Connected" "\<not> hc_connectionStarted race_15"
  "filter (is_start \<circ> snd) (hc_frames race_15) = [(3, StartFrame (AwaitConnStart 2))]"
  by code_simp+

text \<open>
  C36: an interleaving that breaks the state. When an application calls \<^verbatim>\<open>start\<close> again in its \<^verbatim>\<open>onclose\<close>
  callback while a reconnect attempt waits for its handshake, the new start resets
  \<^verbatim>\<open>_stopDuringStartError\<close>, the old attempt does not notice that it was stopped and declares the hub
  connected, although \<^verbatim>\<open>connection.start\<close> of the new start has not even returned.
\<close>

theorem restart_in_onclose_race:
  "\<exists>es h i hp. hub_runs 1 restart_scripts (default_policy_env [JNum 0] quiet_env) (HubConnection_new True []) es h \<and>
     hc_connectionState h = Connected \<and> \<not> hc_connectionStarted h \<and> (i, StartFrame (AwaitConnStart hp)) \<in> set (hc_frames h)"
proof -
  have "(3, StartFrame (AwaitConnStart 2)) \<in> set (hc_frames race_15)"
    using race_final(3) by (metis filter_is_subset list.set_intros(1) subsetD)
  with race_run race_final(1,2) show ?thesis unfolding restart_env_def race_0_def by blast
qed

end
