(* ===== verification/Sr_HttpClients.thy ===== *)
theory Sr_HttpClients
  imports Sr_Utils
begin

text \<open>
  The HTTP clients of signalr.js: FetchHttpClient.ts, XhrHttpClient.ts, DefaultHttpClient.ts and
  AccessTokenHttpClient.ts. What the browser answers is a parameter: the events that happen while a
  request is under way and its outcome. The locale \<open>ok_http_client\<close> is the contract both
  clients keep (a fulfilled request has a 2xx status); the access token client is proved against it.
\<close>

section \<open>The checks before a request\<close>

definition send_precheck :: "http_request \<Rightarrow> unit result" where
  "send_precheck request =
     (if rq_abortSignal request = Some True then Inl (new_AbortError None)
      else if rq_method request = [] then Inl (Error ''No method defined.'')
      else if rq_url request = [] then Inl (Error ''No url defined.'')
      else Inr ())"

section \<open>FetchHttpClient.ts\<close>

text \<open>\<^verbatim>\<open>response.ok\<close> is, by the Fetch standard, a status from 200 to 299.\<close>

record fetch_response =
  fr_status :: int
  fr_statusText :: string
  fr_text :: "string result"
  fr_arrayBuffer :: "8 word list result"

definition fr_ok :: "fetch_response \<Rightarrow> bool" where
  "fr_ok r \<longleftrightarrow> 200 \<le> fr_status r \<and> fr_status r \<le> 299"

record fetch_init =
  fi_body :: jsval
  fi_cache :: string
  fi_credentials :: string
  fi_headers :: "(string \<times> string) list"
  fi_method :: string
  fi_mode :: string
  fi_redirect :: string

datatype fetch_impl = NativeFetch global_object | NodeFetch

text \<open>The constructor: the fetch function used, whether there is a cookie jar, the abort controller.\<close>

definition FetchHttpClient_new :: "platform \<Rightarrow> (fetch_impl \<times> bool \<times> bool) result" where
  "FetchHttpClient_new p =
     (if \<not> pf_has_fetch p then Inr (NodeFetch, True, pf_has_AbortController p)
      else rbind (getGlobalThis p) (\<lambda>g. Inr (NativeFetch g, False, pf_has_AbortController p)))"

definition deserializeContent :: "fetch_response \<Rightarrow> string \<Rightarrow> jsval result" where
  "deserializeContent response responseType =
     (if responseType = ''arraybuffer'' then rbind (fr_arrayBuffer response) (\<lambda>b. Inr (JBuf b))
      else if responseType = ''text'' then rbind (fr_text response) (\<lambda>t. Inr (JStr t))
      else if responseType \<in> {''blob'', ''document'', ''json''} then Inl (Error (responseType @ '' is not supported.''))
      else rbind (fr_text response) (\<lambda>t. Inr (JStr t)))"

text \<open>The changes the client makes to the request object before it calls fetch.\<close>

definition fetch_prepare :: "http_request \<Rightarrow> http_request" where
  "fetch_prepare request =
     (let r1 = (if rq_content request = JStr [] then request\<lparr>rq_content := JUndef\<rparr> else request) in
      if truthy (rq_content r1) then
        (let headers = (case rq_headers r1 of None \<Rightarrow> [] | Some h \<Rightarrow> h) in
         r1\<lparr>rq_headers := Some (obj_set ''Content-Type''
              (if isArrayBuffer (rq_content r1) then ''application/octet-stream'' else ''text/plain;charset=UTF-8'')
              headers)\<rparr>)
      else r1)"

definition fetch_args :: "http_request \<Rightarrow> fetch_init" where
  "fetch_args request =
     \<lparr>fi_body = rq_content request,
      fi_cache = ''no-cache'',
      fi_credentials = (if rq_withCredentials request = Some True then ''include'' else ''same-origin''),
      fi_headers = obj_spread [(''X-Requested-With'', ''XMLHttpRequest'')]
        (case rq_headers request of None \<Rightarrow> [] | Some h \<Rightarrow> h),
      fi_method = rq_method request,
      fi_mode = ''cors'',
      fi_redirect = ''follow''\<rparr>"

text \<open>
  What can happen while the fetch is pending: the caller's signal aborts (only when there is one) and
  the client's own timer fires (only when a timeout was given). Each sets \<^verbatim>\<open>error\<close>.
\<close>

datatype fetch_event = FetchAborted | FetchTimedOut

fun fetch_errors :: "http_request \<Rightarrow> fetch_event list \<Rightarrow> js_error option \<times> log_entry list" where
  "fetch_errors request [] = (None, [])"
| "fetch_errors request (FetchAborted # evs) =
     (case fetch_errors request evs of
        (e, log) \<Rightarrow> (if e = None \<and> rq_abortSignal request \<noteq> None then Some (new_AbortError None) else e, log))"
| "fetch_errors request (FetchTimedOut # evs) =
     (case fetch_errors request evs of
        (e, log) \<Rightarrow>
          if rq_timeout request \<noteq> 0
          then (if e = None then Some (new_TimeoutError None) else e, (LWarning, ''Timeout from HTTP request.'') # log)
          else (e, log))"

definition FetchHttpClient_send ::
    "http_request \<Rightarrow> fetch_event list \<Rightarrow> fetch_response result \<Rightarrow> log_entry list \<times> http_response result" where
  "FetchHttpClient_send request evs outcome =
     (case send_precheck request of
        Inl e \<Rightarrow> ([], Inl e)
      | Inr _ \<Rightarrow>
          (let req = fetch_prepare request; (error, log) = fetch_errors req evs in
           case outcome of
             Inl e \<Rightarrow>
               (case error of
                  Some er \<Rightarrow> (log, Inl er)
                | None \<Rightarrow> (log @ [(LWarning, ''Error from HTTP request. '' @ err_to_string e @ ''.'')], Inl e))
           | Inr response \<Rightarrow>
               if \<not> fr_ok response then
                 (log, rbind (deserializeContent response ''text'') (\<lambda>errorMessage.
                    Inl (new_HttpError
                      (if truthy errorMessage then js_to_string errorMessage else fr_statusText response)
                      (fr_status response))))
               else
                 (log, rbind (deserializeContent response (rq_responseType req)) (\<lambda>payload.
                    Inr (new_HttpResponse (fr_status response) (fr_statusText response) payload)))))"

text \<open>\<open>jar\<close> is the cookie jar's answer for an url (tough-cookie, when the client has a jar).\<close>

definition FetchHttpClient_getCookieString :: "platform \<Rightarrow> (string \<Rightarrow> string list) option \<Rightarrow> string \<Rightarrow> string" where
  "FetchHttpClient_getCookieString p jar url =
     (case jar of Some getCookies \<Rightarrow> if isNode p then join ''; '' (getCookies url) else [] | None \<Rightarrow> [])"

section \<open>XhrHttpClient.ts\<close>

record xhr_setup =
  xs_method :: string
  xs_url :: string
  xs_withCredentials :: bool
  xs_requestHeaders :: "(string \<times> string) list"
  xs_responseType :: string
  xs_timeout :: int
  xs_body :: jsval

text \<open>
  The calls made on the XMLHttpRequest before it is sent; the headers are listed in the order of the
  \<^verbatim>\<open>setRequestHeader\<close> calls (a repeated name is combined by the browser).
\<close>

definition xhr_setup_of :: "http_request \<Rightarrow> xhr_setup" where
  "xhr_setup_of request =
     (let content = (if rq_content request = JStr [] then JUndef else rq_content request) in
      \<lparr>xs_method = rq_method request,
       xs_url = rq_url request,
       xs_withCredentials = (case rq_withCredentials request of None \<Rightarrow> True | Some b \<Rightarrow> b),
       xs_requestHeaders =
         [(''X-Requested-With'', ''XMLHttpRequest'')]
         @ (if truthy content then
              [(''Content-Type'',
                if isArrayBuffer content then ''application/octet-stream'' else ''text/plain;charset=UTF-8'')]
            else [])
         @ (case rq_headers request of None \<Rightarrow> [] | Some h \<Rightarrow> h),
       xs_responseType = rq_responseType request,
       xs_timeout = rq_timeout request,
       xs_body = content\<rparr>)"

datatype xhr_event =
    XhrAbort
  | XhrLoad int string jsval jsval
  | XhrError int string
  | XhrTimeout

text \<open>What one event does to the promise (\<open>None\<close>: nothing) and what it logs.\<close>

fun xhr_handle :: "http_request \<Rightarrow> xhr_event \<Rightarrow> http_response result option \<times> log_entry list" where
  "xhr_handle request XhrAbort =
     (if rq_abortSignal request \<noteq> None then Some (Inl (new_AbortError None)) else None, [])"
| "xhr_handle request (XhrLoad status statusText response responseText) =
     (Some (if 200 \<le> status \<and> status < 300
            then Inr (new_HttpResponse status statusText (js_or response responseText))
            else Inl (new_HttpError (js_to_string (js_or (js_or response responseText) (JStr statusText))) status)), [])"
| "xhr_handle request (XhrError status statusText) =
     (Some (Inl (new_HttpError statusText status)),
      [(LWarning, ''Error from HTTP request. '' @ int_to_string status @ '': '' @ statusText @ ''.'')])"
| "xhr_handle request XhrTimeout =
     (Some (Inl (new_TimeoutError None)), [(LWarning, ''Timeout from HTTP request.'')])"

text \<open>The promise settles with the first event that settles it; \<open>None\<close> while it is pending.\<close>

fun xhr_settle :: "http_request \<Rightarrow> xhr_event list \<Rightarrow> http_response result option" where
  "xhr_settle request [] = None"
| "xhr_settle request (ev # evs) =
     (case fst (xhr_handle request ev) of Some r \<Rightarrow> Some r | None \<Rightarrow> xhr_settle request evs)"

definition XhrHttpClient_send :: "http_request \<Rightarrow> xhr_event list \<Rightarrow> http_response result option" where
  "XhrHttpClient_send request evs =
     (case send_precheck request of Inl e \<Rightarrow> Some (Inl e) | Inr _ \<Rightarrow> xhr_settle request evs)"

section \<open>DefaultHttpClient.ts\<close>

datatype http_client_kind = UseFetch | UseXhr

definition DefaultHttpClient_new :: "platform \<Rightarrow> http_client_kind result" where
  "DefaultHttpClient_new p =
     (if pf_has_fetch p \<or> isNode p then Inr UseFetch
      else if pf_has_XMLHttpRequest p then Inr UseXhr
      else Inl (Error ''No usable HttpClient found.''))"

text \<open>\<open>fetch_env\<close> and \<open>xhr_env\<close> are what the browser does for a request.\<close>

definition DefaultHttpClient_send ::
    "http_client_kind \<Rightarrow> (http_request \<Rightarrow> fetch_event list \<times> fetch_response result) \<Rightarrow>
     (http_request \<Rightarrow> xhr_event list) \<Rightarrow> http_request \<Rightarrow> http_response result option" where
  "DefaultHttpClient_send kind fetch_env xhr_env request =
     (case send_precheck request of
        Inl e \<Rightarrow> Some (Inl e)
      | Inr _ \<Rightarrow>
          (case kind of
             UseFetch \<Rightarrow> (case fetch_env request of (evs, outcome) \<Rightarrow> Some (snd (FetchHttpClient_send request evs outcome)))
           | UseXhr \<Rightarrow> XhrHttpClient_send request (xhr_env request)))"

definition DefaultHttpClient_getCookieString ::
    "http_client_kind \<Rightarrow> platform \<Rightarrow> (string \<Rightarrow> string list) option \<Rightarrow> string \<Rightarrow> string" where
  "DefaultHttpClient_getCookieString kind p jar url =
     (case kind of UseFetch \<Rightarrow> FetchHttpClient_getCookieString p jar url
      | UseXhr \<Rightarrow> HttpClient_getCookieString url)"

section \<open>HeaderNames.ts and AccessTokenHttpClient.ts\<close>

definition HeaderNames_Authorization :: string where "HeaderNames_Authorization = ''Authorization''"
definition HeaderNames_Cookie :: string where "HeaderNames_Cookie = ''Cookie''"

text \<open>The client's own state: the last token (empty: none) and whether there is a token factory.\<close>

record at_client =
  at_token :: string
  at_has_factory :: bool

text \<open>
  Its surroundings: the answers of the token factory and of the inner client to their \<open>n\<close>th call,
  what the inner client does to the request object it is given (the fetch client sets its content and
  headers, \<open>fetch_prepare\<close>), how often the factory was called and the requests sent so far.
\<close>

record at_world =
  aw_tokens :: "nat \<Rightarrow> string result"
  aw_responses :: "nat \<Rightarrow> http_request \<Rightarrow> http_response result"
  aw_prepare :: "http_request \<Rightarrow> http_request"
  aw_asked :: nat
  aw_sent :: "http_request list"

definition ask_token :: "at_world \<Rightarrow> string result \<times> at_world" where
  "ask_token w = (aw_tokens w (aw_asked w), w\<lparr>aw_asked := Suc (aw_asked w)\<rparr>)"

definition inner_send :: "http_request \<Rightarrow> at_world \<Rightarrow> http_response result \<times> at_world" where
  "inner_send rq w = (aw_responses w (length (aw_sent w)) rq, w\<lparr>aw_sent := aw_sent w @ [rq]\<rparr>)"

definition setAuthorizationHeader :: "at_client \<Rightarrow> http_request \<Rightarrow> http_request" where
  "setAuthorizationHeader c request =
     (let headers = (case rq_headers request of None \<Rightarrow> [] | Some h \<Rightarrow> h) in
      if at_token c \<noteq> [] then
        request\<lparr>rq_headers := Some (obj_set HeaderNames_Authorization (''Bearer '' @ at_token c) headers)\<rparr>
      else if at_has_factory c then
        (case obj_get headers HeaderNames_Authorization of
           Some v \<Rightarrow> if v \<noteq> [] then request\<lparr>rq_headers := Some (obj_del HeaderNames_Authorization headers)\<rparr>
                     else request\<lparr>rq_headers := Some headers\<rparr>
         | None \<Rightarrow> request\<lparr>rq_headers := Some headers\<rparr>)
      else request\<lparr>rq_headers := Some headers\<rparr>)"

definition is_negotiate :: "string \<Rightarrow> bool" where
  "is_negotiate url \<longleftrightarrow> (case index_of url ''/negotiate?'' of None \<Rightarrow> False | Some i \<Rightarrow> 0 < i)"

definition AccessToken_retry ::
    "at_client \<Rightarrow> http_request \<Rightarrow> at_world \<Rightarrow> http_response result \<times> at_client \<times> at_world" where
  "AccessToken_retry c request w =
     (case ask_token w of
        (Inl e, w1) \<Rightarrow> (Inl e, c, w1)
      | (Inr tok, w1) \<Rightarrow>
          (let c1 = c\<lparr>at_token := tok\<rparr>; (r, w2) = inner_send (setAuthorizationHeader c1 request) w1 in (r, c1, w2)))"

definition AccessToken_attempt ::
    "bool \<Rightarrow> at_client \<Rightarrow> http_request \<Rightarrow> at_world \<Rightarrow> http_response result \<times> at_client \<times> at_world" where
  "AccessToken_attempt allowRetry c request w =
     (let rq1 = setAuthorizationHeader c request; (r, w1) = inner_send rq1 w in
      case r of
        Inl e \<Rightarrow> (Inl e, c, w1)
      | Inr response \<Rightarrow>
          if allowRetry \<and> rs_statusCode response = 401 \<and> at_has_factory c then AccessToken_retry c (aw_prepare w1 rq1) w1
          else (Inr response, c, w1))"

definition AccessToken_send ::
    "at_client \<Rightarrow> http_request \<Rightarrow> at_world \<Rightarrow> http_response result \<times> at_client \<times> at_world" where
  "AccessToken_send c request w =
     (if at_has_factory c \<and> (at_token c = [] \<or> is_negotiate (rq_url request)) then
        (case ask_token w of
           (Inl e, w1) \<Rightarrow> (Inl e, c, w1)
         | (Inr tok, w1) \<Rightarrow> AccessToken_attempt False (c\<lparr>at_token := tok\<rparr>) request w1)
      else AccessToken_attempt True c request w)"


section \<open>Fulfilled requests have a 2xx status\<close>

lemma FetchHttpClient_send_ok:
  "snd (FetchHttpClient_send request evs outcome) = Inr r \<Longrightarrow> 200 \<le> rs_statusCode r \<and> rs_statusCode r < 300"
  by (auto simp: FetchHttpClient_send_def new_HttpResponse_def Let_def fr_ok_def rbind_Inr_iff
      split: sum.splits prod.splits option.splits if_splits)

lemma xhr_settle_ok: "xhr_settle request evs = Some (Inr r) \<Longrightarrow> 200 \<le> rs_statusCode r \<and> rs_statusCode r < 300"
proof (induction evs)
  case (Cons ev evs)
  then show ?case by (cases ev) (auto simp: new_HttpResponse_def split: if_splits)
qed simp

lemma XhrHttpClient_send_ok:
  "XhrHttpClient_send request evs = Some (Inr r) \<Longrightarrow> 200 \<le> rs_statusCode r \<and> rs_statusCode r < 300"
  by (auto simp: XhrHttpClient_send_def xhr_settle_ok split: sum.splits)

lemma DefaultHttpClient_send_ok:
  "DefaultHttpClient_send kind fenv xenv request = Some (Inr r) \<Longrightarrow> 200 \<le> rs_statusCode r \<and> rs_statusCode r < 300"
  by (auto simp: DefaultHttpClient_send_def dest: FetchHttpClient_send_ok XhrHttpClient_send_ok
      split: sum.splits http_client_kind.splits prod.splits)

text \<open>The answer of a client to its \<open>n\<close>th request, \<open>None\<close> when it never settles.\<close>

locale ok_http_client =
  fixes send :: "nat \<Rightarrow> http_request \<Rightarrow> http_response result option"
  assumes fulfilled_2xx: "send n rq = Some (Inr r) \<Longrightarrow> 200 \<le> rs_statusCode r \<and> rs_statusCode r < 300"
begin

lemma never_401: "send n rq = Some (Inr r) \<Longrightarrow> rs_statusCode r \<noteq> 401"
  by (auto dest: fulfilled_2xx)

lemma attempt_no_retry:
  assumes "\<And>n rq. send n rq = Some (aw_responses w n rq)"
  shows "AccessToken_attempt b c rq w =
    (aw_responses w (length (aw_sent w)) (setAuthorizationHeader c rq), c,
     w\<lparr>aw_sent := aw_sent w @ [setAuthorizationHeader c rq]\<rparr>)"
  using never_401 [of "length (aw_sent w)" "setAuthorizationHeader c rq"] assms
  by (auto simp: AccessToken_attempt_def inner_send_def Let_def split: sum.split)

end

interpretation fetch_client: ok_http_client
  "\<lambda>n rq. Some (snd (FetchHttpClient_send rq (fst (env n rq)) (snd (env n rq))))" for env
  by unfold_locales (auto dest: FetchHttpClient_send_ok)

interpretation default_client: ok_http_client "\<lambda>n rq. DefaultHttpClient_send kind (fenv n) (xenv n) rq" for kind fenv xenv
  by unfold_locales (auto dest: DefaultHttpClient_send_ok)

section \<open>The access token client\<close>

text \<open>How many requests one call may send, and when there is a second one.\<close>

definition retries :: "at_client \<Rightarrow> http_request \<Rightarrow> at_world \<Rightarrow> bool" where
  "retries c rq w \<longleftrightarrow>
     at_has_factory c \<and> at_token c \<noteq> [] \<and> \<not> is_negotiate (rq_url rq) \<and>
     (\<exists>r. aw_responses w (length (aw_sent w)) (setAuthorizationHeader c rq) = Inr r \<and> rs_statusCode r = 401)"

lemma AccessToken_attempt_sent:
  "aw_sent (snd (snd (AccessToken_attempt b c rq w))) =
     aw_sent w @ setAuthorizationHeader c rq #
     (if b \<and> at_has_factory c \<and>
         (\<exists>r. aw_responses w (length (aw_sent w)) (setAuthorizationHeader c rq) = Inr r \<and> rs_statusCode r = 401) then
        (case aw_tokens w (aw_asked w) of
           Inl _ \<Rightarrow> []
         | Inr tok \<Rightarrow> [setAuthorizationHeader (c\<lparr>at_token := tok\<rparr>) (aw_prepare w (setAuthorizationHeader c rq))])
      else [])"
  by (auto simp: AccessToken_attempt_def AccessToken_retry_def inner_send_def ask_token_def Let_def split: sum.split)

lemma setAuthorizationHeader_token:
  "at_token c \<noteq> [] \<Longrightarrow>
     \<exists>h. rq_headers (setAuthorizationHeader c rq) = Some h \<and> obj_get h ''Authorization'' = Some (''Bearer '' @ at_token c)"
  by (simp add: setAuthorizationHeader_def HeaderNames_Authorization_def Let_def)

lemma setAuthorizationHeader_frame:
  "rq_url (setAuthorizationHeader c rq) = rq_url rq" "rq_method (setAuthorizationHeader c rq) = rq_method rq"
  "rq_content (setAuthorizationHeader c rq) = rq_content rq"
  by (auto simp: setAuthorizationHeader_def Let_def split: option.split)

section \<open>Properties\<close>

text \<open>
  a request the default client fulfils has a 2xx status, whichever of fetch and XMLHttpRequest it
  uses and whatever the browser does; every other status, abort and timeout is a rejection.
\<close>

theorem http_client_fulfils_only_2xx:
  assumes "DefaultHttpClient_send kind fetch_env xhr_env request = Some (Inr r)"
  shows "200 \<le> rs_statusCode r \<and> rs_statusCode r < 300"
  by (rule default_client.fulfilled_2xx [where n = 0]) (rule assms)

theorem http_client_fulfils_only_2xx_witness:
  "DefaultHttpClient_send UseXhr (\<lambda>_. ([], Inl OutsideModel)) (\<lambda>_. [XhrLoad 204 ''No Content'' JNull (JStr [])])
      (http_get ''/hub'' empty_request) = Some (Inr (new_HttpResponse 204 ''No Content'' (JStr []))) \<and>
   200 \<le> rs_statusCode (new_HttpResponse 204 ''No Content'' (JStr []))"
proof -
  have "DefaultHttpClient_send UseXhr (\<lambda>_. ([], Inl OutsideModel)) (\<lambda>_. [XhrLoad 204 ''No Content'' JNull (JStr [])])
      (http_get ''/hub'' empty_request) = Some (Inr (new_HttpResponse 204 ''No Content'' (JStr [])))"
    by (simp add: DefaultHttpClient_send_def XhrHttpClient_send_def send_precheck_def http_get_def empty_request_def js_or_def)
  with http_client_fulfils_only_2xx [OF this] show ?thesis by blast
qed

text \<open>
  a second request after a 401 answer is never made when the inner client is the default client:
  that client rejects a 401, so \<^verbatim>\<open>AccessTokenHttpClient.send\<close> sends exactly one request, with the
  token it holds (or the one it just asked for), and the retry with a fresh token is dead code.
\<close>

theorem access_token_retry_unreachable:
  assumes "\<And>n rq. DefaultHttpClient_send kind (fenv n) (xenv n) rq = Some (aw_responses w n rq)"
    and "AccessToken_send c request w = (r, c', w')"
  shows "aw_sent w' = aw_sent w \<and> (\<exists>e. aw_tokens w (aw_asked w) = Inl e \<and> r = Inl e) \<or>
    aw_sent w' = aw_sent w @ [setAuthorizationHeader c' request]"
proof -
  have single: "AccessToken_attempt b c rq w1 =
      (aw_responses w1 (length (aw_sent w1)) (setAuthorizationHeader c rq), c,
       w1\<lparr>aw_sent := aw_sent w1 @ [setAuthorizationHeader c rq]\<rparr>)"
    if "aw_responses w1 = aw_responses w" for b c rq w1
    using assms(1) that by (intro default_client.attempt_no_retry) simp
  show ?thesis
    using assms(2) single by (auto simp: AccessToken_send_def ask_token_def split: if_splits sum.splits)
qed

definition demo_world :: at_world where
  "demo_world = \<lparr>aw_tokens = (\<lambda>_. Inr ''tok''),
     aw_responses = (\<lambda>n rq. the (DefaultHttpClient_send UseXhr (\<lambda>_. ([], Inl OutsideModel)) (\<lambda>_. [XhrLoad 401 ''No'' JNull JNull]) rq)),
     aw_prepare = id, aw_asked = 0, aw_sent = []\<rparr>"

theorem access_token_retry_unreachable_witness:
  "\<exists>r c' w'. AccessToken_send \<lparr>at_token = [], at_has_factory = True\<rparr> (http_get ''/hub'' empty_request) demo_world = (r, c', w') \<and>
     aw_sent w' = [setAuthorizationHeader c' (http_get ''/hub'' empty_request)]"
proof -
  let ?c = "\<lparr>at_token = [], at_has_factory = True\<rparr>"
  obtain r c' w' where *: "AccessToken_send ?c (http_get ''/hub'' empty_request) demo_world = (r, c', w')"
    by (cases "AccessToken_send ?c (http_get ''/hub'' empty_request) demo_world")
  have "DefaultHttpClient_send UseXhr (\<lambda>_. ([], Inl OutsideModel)) (\<lambda>_. [XhrLoad 401 ''No'' JNull JNull]) rq =
      Some (aw_responses demo_world n rq)" for n rq
    by (simp add: demo_world_def DefaultHttpClient_send_def XhrHttpClient_send_def split: sum.split)
  from access_token_retry_unreachable [OF this *] * show ?thesis by (simp add: demo_world_def)
qed

end
