(* ===== verification/Sr_Transports.thy ===== *)
theory Sr_Transports
  imports Sr_SendQueue Sr_HttpClients
begin

text \<open>
  The transports of signalr.js: LongPollingTransport.ts, ServerSentEventsTransport.ts,
  WebSocketTransport.ts, with ITransport.ts and AbortController.ts. Each is a record and a step relation;
  what a transport tells its owner through \<^verbatim>\<open>onreceive\<close> and \<^verbatim>\<open>onclose\<close> is recorded as a list of \<open>up\<close>
  events, and how the owner's callback ends (it may throw) is part of the label. The browser's objects
  (XMLHttpRequest, EventSource, WebSocket) appear as labels for their events. The interface \<open>push_transport\<close>
  says that nothing is received after the close; \<open>once_transport\<close> that the close is told once.
\<close>

section \<open>ITransport.ts and AbortController.ts\<close>

definition HttpTransportType_None :: int where "HttpTransportType_None = 0"
definition HttpTransportType_WebSockets :: int where "HttpTransportType_WebSockets = 1"
definition HttpTransportType_ServerSentEvents :: int where "HttpTransportType_ServerSentEvents = 2"
definition HttpTransportType_LongPolling :: int where "HttpTransportType_LongPolling = 4"

definition TransferFormat_keys :: "string list" where
  "TransferFormat_keys = [''1'', ''Text'', ''2'', ''Binary'']"

record abort_controller =
  ac_isAborted :: bool
  ac_fired :: nat

text \<open>\<open>ac_fired\<close> counts the calls of \<^verbatim>\<open>onabort\<close>; \<open>has\<close> says whether one is set.\<close>

definition AbortController_new :: abort_controller where
  "AbortController_new = \<lparr>ac_isAborted = False, ac_fired = 0\<rparr>"

definition AbortController_abort :: "bool \<Rightarrow> abort_controller \<Rightarrow> abort_controller" where
  "AbortController_abort has a =
     (if \<not> ac_isAborted a
      then a\<lparr>ac_isAborted := True, ac_fired := (if has then Suc (ac_fired a) else ac_fired a)\<rparr> else a)"

text \<open>The checks all three \<^verbatim>\<open>connect\<close> methods begin with.\<close>

definition connect_checks :: "jsval \<Rightarrow> jsval \<Rightarrow> unit result" where
  "connect_checks url transferFormat =
     rbind (Arg_isRequired url ''url'') (\<lambda>_.
     rbind (Arg_isRequired transferFormat ''transferFormat'') (\<lambda>_.
       Arg_isIn (js_to_string transferFormat) TransferFormat_keys ''transferFormat''))"

section \<open>URI components\<close>

definition upper_hex :: "nat \<Rightarrow> char" where
  "upper_hex d = (if d < 10 then char_of (48 + d) else char_of (55 + d))"

definition pct :: "nat \<Rightarrow> string" where
  "pct n = [CHR ''%'', upper_hex (n div 16), upper_hex (n mod 16)]"

definition unreserved :: "char \<Rightarrow> bool" where
  "unreserved c =
     (let n = of_char c :: nat in
      (48 \<le> n \<and> n \<le> 57) \<or> (65 \<le> n \<and> n \<le> 90) \<or> (97 \<le> n \<and> n \<le> 122) \<or>
      c \<in> {CHR ''-'', CHR ''_'', CHR ''.'', CHR ''!'', CHR ''~'', CHR ''*'', CHR 0x27, CHR ''('', CHR '')''})"

text \<open>A code unit above 127 takes two bytes in UTF-8.\<close>

definition encode_char :: "char \<Rightarrow> string" where
  "encode_char c =
     (let n = of_char c :: nat in
      if unreserved c then [c]
      else if n < 128 then pct n
      else pct (192 + n div 64) @ pct (128 + n mod 64))"

definition encodeURIComponent :: "string \<Rightarrow> string" where
  "encodeURIComponent s = concat (map encode_char s)"

definition add_query :: "string \<Rightarrow> string \<Rightarrow> string" where
  "add_query url q = url @ (if index_of url ''?'' = None then ''?'' else ''&'') @ q"

section \<open>LongPollingTransport.ts\<close>

datatype up = UpData jsval | UpClose "js_error option"

datatype poll_at =
    NotPolling
  | AwaitConnect http_request
  | ConnectFailed js_error
  | AwaitPoll http_request
  | PollEnded
  | PollThrew js_error

datatype lp_stop_at = LpAwaitReceiving | LpAwaitDelete | LpStopEnded "unit result"

record long_polling =
  lp_url :: string
  lp_running :: bool
  lp_pollAbort :: abort_controller
  lp_closeError :: "js_error option"
  lp_onreceive :: bool
  lp_onclose :: bool
  lp_loop :: poll_at
  lp_stops :: "lp_stop_at list"
  lp_requests :: "http_request list"
  lp_up :: "up list"
  lp_log :: "log_entry list"

record transport_options =
  to_send :: send_options
  to_platform :: platform
  to_xhr_text_only :: bool

definition LongPollingTransport_new :: "bool \<Rightarrow> bool \<Rightarrow> long_polling" where
  "LongPollingTransport_new onreceive onclose =
     \<lparr>lp_url = [], lp_running = False, lp_pollAbort = AbortController_new, lp_closeError = None,
      lp_onreceive = onreceive, lp_onclose = onclose, lp_loop = NotPolling, lp_stops = [], lp_requests = [], lp_up = [], lp_log = []\<rparr>"

definition lp_trace :: "string \<Rightarrow> long_polling \<Rightarrow> long_polling" where
  "lp_trace m s = s\<lparr>lp_log := lp_log s @ [(LTrace, ''(LongPolling transport) '' @ m)]\<rparr>"

definition lp_user_headers :: "transport_options \<Rightarrow> (string \<times> string) list" where
  "lp_user_headers opts =
     (let (name, value) = getUserAgentHeader (to_platform opts) in obj_spread [(name, value)] (so_headers (to_send opts)))"

definition lp_pollOptions :: "transport_options \<Rightarrow> int \<Rightarrow> bool \<Rightarrow> http_request" where
  "lp_pollOptions opts transferFormat aborted =
     empty_request\<lparr>rq_abortSignal := Some aborted, rq_headers := Some (lp_user_headers opts), rq_timeout := 100000,
       rq_withCredentials := Some (so_withCredentials (to_send opts)),
       rq_responseType := (if transferFormat = TransferFormat_Binary then ''arraybuffer'' else [])\<rparr>"

definition lp_pollUrl :: "string \<Rightarrow> int \<Rightarrow> string" where
  "lp_pollUrl url now = url @ ''&_='' @ int_to_string now"

text \<open>A poll request at time \<open>now\<close> with the given options.\<close>

definition lp_get :: "int \<Rightarrow> http_request \<Rightarrow> long_polling \<Rightarrow> long_polling \<times> http_request" where
  "lp_get now pollOptions s =
     (let pollUrl = lp_pollUrl (lp_url s) now;
          s1 = lp_trace (''polling: '' @ pollUrl @ ''.'') s;
          rq = http_get pollUrl (pollOptions\<lparr>rq_abortSignal := Some (ac_isAborted (lp_pollAbort s))\<rparr>)
      in (s1\<lparr>lp_requests := lp_requests s1 @ [rq]\<rparr>, rq))"

definition lp_connect :: "transport_options \<Rightarrow> int \<Rightarrow> string \<Rightarrow> int \<Rightarrow> long_polling \<Rightarrow> long_polling" where
  "lp_connect opts now url transferFormat s =
     (case connect_checks (JStr url) (JNum transferFormat) of
        Inl e \<Rightarrow> s\<lparr>lp_loop := ConnectFailed e\<rparr>
      | Inr _ \<Rightarrow>
          (let s1 = lp_trace ''Connecting.'' (s\<lparr>lp_url := url\<rparr>) in
           if transferFormat = TransferFormat_Binary \<and> pf_has_XMLHttpRequest (to_platform opts) \<and> to_xhr_text_only opts then
             s1\<lparr>lp_loop := ConnectFailed (Error ''Binary protocols over XmlHttpRequest not implementing advanced features are not supported.'')\<rparr>
           else (let (s2, rq) = lp_get now (lp_pollOptions opts transferFormat False) s1 in s2\<lparr>lp_loop := AwaitConnect rq\<rparr>)))"

text \<open>\<open>oc\<close> is how the owner's \<^verbatim>\<open>onclose\<close> ends.\<close>

definition lp_raiseOnClose :: "unit result \<Rightarrow> long_polling \<Rightarrow> long_polling \<times> unit result" where
  "lp_raiseOnClose oc s =
     (if lp_onclose s then
        (let s1 = lp_trace (''Firing onclose event.''
                    @ (case lp_closeError s of None \<Rightarrow> [] | Some e \<Rightarrow> '' Error: '' @ err_to_string e)) s
         in (s1\<lparr>lp_up := lp_up s1 @ [UpClose (lp_closeError s1)]\<rparr>, oc))
      else (s, Inr ()))"

text \<open>The head of the polling loop: another poll, or the \<^verbatim>\<open>finally\<close> block.\<close>

definition lp_poll :: "int \<Rightarrow> unit result \<Rightarrow> http_request \<Rightarrow> long_polling \<Rightarrow> long_polling" where
  "lp_poll now oc pollOptions s =
     (if lp_running s then (let (s1, rq) = lp_get now pollOptions s in s1\<lparr>lp_loop := AwaitPoll rq\<rparr>)
      else
        (let s1 = lp_trace ''Polling complete.'' s in
         if \<not> ac_isAborted (lp_pollAbort s1) then
           (case lp_raiseOnClose oc s1 of
              (s2, Inr _) \<Rightarrow> s2\<lparr>lp_loop := PollEnded\<rparr>
            | (s2, Inl e) \<Rightarrow> s2\<lparr>lp_loop := PollThrew e\<rparr>)
         else s1\<lparr>lp_loop := PollEnded\<rparr>))"

text \<open>\<^verbatim>\<open>connect\<close> after its first request; an unexpected status starts the loop stopped.\<close>

definition lp_status_error :: "http_response \<Rightarrow> long_polling \<Rightarrow> long_polling" where
  "lp_status_error response s =
     s\<lparr>lp_log := lp_log s @ [(LError, ''(LongPolling transport) Unexpected response code: '' @ int_to_string (rs_statusCode response) @ ''.'')],
       lp_closeError := Some (new_HttpError (rs_statusText response) (rs_statusCode response)), lp_running := False\<rparr>"

definition lp_connected :: "int \<Rightarrow> unit result \<Rightarrow> http_request \<Rightarrow> http_response result \<Rightarrow> long_polling \<Rightarrow> long_polling" where
  "lp_connected now oc pollOptions r s =
     (case r of
        Inl e \<Rightarrow> s\<lparr>lp_loop := ConnectFailed e\<rparr>
      | Inr response \<Rightarrow>
          lp_poll now oc pollOptions
            (if rs_statusCode response \<noteq> 200 then lp_status_error response s else s\<lparr>lp_running := True\<rparr>))"

text \<open>The \<^verbatim>\<open>catch\<close> of one poll.\<close>

definition lp_caught :: "js_error \<Rightarrow> long_polling \<Rightarrow> long_polling" where
  "lp_caught e s =
     (if \<not> lp_running s then lp_trace (''Poll errored after shutdown: '' @ err_message e) s
      else (case e of
              TimeoutError _ \<Rightarrow> lp_trace ''Poll timed out, reissuing.'' s
            | _ \<Rightarrow> s\<lparr>lp_closeError := Some e, lp_running := False\<rparr>))"

text \<open>The answer to a poll; \<open>rc\<close> is how the owner's \<^verbatim>\<open>onreceive\<close> ends.\<close>

definition lp_answer :: "transport_options \<Rightarrow> unit result \<Rightarrow> http_response result \<Rightarrow> long_polling \<Rightarrow> long_polling" where
  "lp_answer opts rc r s =
     (case r of
        Inl e \<Rightarrow> lp_caught e s
      | Inr response \<Rightarrow>
          if rs_statusCode response = 204 then
            s\<lparr>lp_log := lp_log s @ [(LInformation, ''(LongPolling transport) Poll terminated by server.'')], lp_running := False\<rparr>
          else if rs_statusCode response \<noteq> 200 then lp_status_error response s
          else if truthy (rs_content response) then
            (let s1 = lp_trace (''data received. '' @ getDataDetail (rs_content response) (so_logMessageContent (to_send opts)) @ ''.'') s in
             if lp_onreceive s1 then
               (let s2 = s1\<lparr>lp_up := lp_up s1 @ [UpData (rs_content response)]\<rparr> in
                case rc of Inr _ \<Rightarrow> s2 | Inl e \<Rightarrow> lp_caught e s2)
             else s1)
          else lp_trace ''Poll timed out, reissuing.'' s)"

definition lp_polled ::
    "transport_options \<Rightarrow> int \<Rightarrow> unit result \<Rightarrow> unit result \<Rightarrow> http_request \<Rightarrow> http_response result \<Rightarrow> long_polling \<Rightarrow> long_polling" where
  "lp_polled opts now rc oc pollOptions r s = lp_poll now oc pollOptions (lp_answer opts rc r s)"

definition lp_send :: "transport_options \<Rightarrow> jsval \<Rightarrow> long_polling \<Rightarrow> long_polling \<times> http_request result" where
  "lp_send opts data s =
     (if \<not> lp_running s then (s, Inl (Error ''Cannot send until the transport is connected''))
      else (let rq = sendMessage_request (to_platform opts) (lp_url s) data (to_send opts) in
            (s\<lparr>lp_log := lp_log s @ [sendMessage_log ''LongPolling'' data (to_send opts)], lp_requests := lp_requests s @ [rq]\<rparr>, Inr rq)))"

definition lp_stop :: "long_polling \<Rightarrow> long_polling" where
  "lp_stop s =
     (let s1 = lp_trace ''Stopping polling.'' s in
      s1\<lparr>lp_running := False, lp_pollAbort := AbortController_abort True (lp_pollAbort s1), lp_stops := lp_stops s1 @ [LpAwaitReceiving]\<rparr>)"

definition lp_deleteOptions :: "transport_options \<Rightarrow> http_request" where
  "lp_deleteOptions opts =
     empty_request\<lparr>rq_headers := Some (lp_user_headers opts), rq_timeout := so_timeout (to_send opts),
       rq_withCredentials := Some (so_withCredentials (to_send opts))\<rparr>"

text \<open>The \<^verbatim>\<open>finally\<close> block of \<^verbatim>\<open>stop\<close>: an error of \<^verbatim>\<open>onclose\<close> replaces the one under way.\<close>

definition lp_stop_finally :: "nat \<Rightarrow> unit result \<Rightarrow> unit result \<Rightarrow> long_polling \<Rightarrow> long_polling" where
  "lp_stop_finally k r oc s =
     (case lp_raiseOnClose oc (lp_trace ''Stop finished.'' s) of
        (s1, Inl e) \<Rightarrow> s1\<lparr>lp_stops := (lp_stops s1)[k := LpStopEnded (Inl e)]\<rparr>
      | (s1, Inr _) \<Rightarrow> s1\<lparr>lp_stops := (lp_stops s1)[k := LpStopEnded r]\<rparr>)"

text \<open>\<^verbatim>\<open>stop\<close> after \<^verbatim>\<open>await this._receiving\<close>.\<close>

definition lp_stop_received :: "transport_options \<Rightarrow> nat \<Rightarrow> unit result \<Rightarrow> long_polling \<Rightarrow> long_polling" where
  "lp_stop_received opts k oc s =
     (case lp_loop s of
        PollThrew e \<Rightarrow> lp_stop_finally k (Inl e) oc s
      | _ \<Rightarrow>
          (let s1 = lp_trace (''sending DELETE request to '' @ lp_url s @ ''.'') s in
           s1\<lparr>lp_requests := lp_requests s1 @ [http_delete (lp_url s1) (lp_deleteOptions opts)],
              lp_stops := (lp_stops s1)[k := LpAwaitDelete]\<rparr>))"

definition lp_stop_deleted :: "nat \<Rightarrow> http_response result \<Rightarrow> unit result \<Rightarrow> long_polling \<Rightarrow> long_polling" where
  "lp_stop_deleted k r oc s =
     (case r of
        Inl e \<Rightarrow> lp_stop_finally k (Inl e) oc s
      | Inr _ \<Rightarrow> lp_stop_finally k (Inr ()) oc (lp_trace ''DELETE request sent.'' s))"

datatype lp_event =
    LpConnect int string int
  | LpConnected int "unit result" "http_response result"
  | LpPolled int "unit result" "unit result" "http_response result"
  | LpSend jsval
  | LpStop
  | LpReceivingDone nat "unit result"
  | LpDeleted nat "http_response result" "unit result"

text \<open>\<^verbatim>\<open>connect\<close> is called once, and \<^verbatim>\<open>stop\<close> after it has settled, as HttpConnection does.\<close>

inductive lp_step :: "transport_options \<Rightarrow> long_polling \<Rightarrow> lp_event \<Rightarrow> long_polling \<Rightarrow> bool" for opts where
  lp_connects: "lp_loop s = NotPolling \<Longrightarrow> lp_step opts s (LpConnect now url tf) (lp_connect opts now url tf s)"
| lp_connecteds: "lp_loop s = AwaitConnect rq \<Longrightarrow> lp_step opts s (LpConnected now oc r) (lp_connected now oc rq r s)"
| lp_polleds: "lp_loop s = AwaitPoll rq \<Longrightarrow> lp_step opts s (LpPolled now rc oc r) (lp_polled opts now rc oc rq r s)"
| lp_sends: "lp_step opts s (LpSend d) (fst (lp_send opts d s))"
| lp_stopped: "(\<forall>rq. lp_loop s \<noteq> AwaitConnect rq) \<Longrightarrow> lp_loop s \<noteq> NotPolling \<Longrightarrow> lp_step opts s LpStop (lp_stop s)"
| lp_receivings: "k < length (lp_stops s) \<Longrightarrow> lp_stops s ! k = LpAwaitReceiving \<Longrightarrow> (\<forall>rq. lp_loop s \<noteq> AwaitPoll rq) \<Longrightarrow>
    lp_step opts s (LpReceivingDone k oc) (lp_stop_received opts k oc s)"
| lp_deleteds: "k < length (lp_stops s) \<Longrightarrow> lp_stops s ! k = LpAwaitDelete \<Longrightarrow>
    lp_step opts s (LpDeleted k r oc) (lp_stop_deleted k r oc s)"

section \<open>ServerSentEventsTransport.ts\<close>

record event_source_init =
  ei_url :: string
  ei_withCredentials :: bool
  ei_headers :: "(string \<times> string) list option"

datatype es_state = EsNone | EsConnecting | EsOpen | EsClosed

text \<open>\<open>se_eventSource\<close> says that the field \<^verbatim>\<open>_eventSource\<close> is set, \<open>se_source\<close> is the browser's object.\<close>

record sse =
  se_url :: string
  se_source :: es_state
  se_init :: "event_source_init option"
  se_eventSource :: bool
  se_opened :: bool
  se_connect :: "promise_state option"
  se_onreceive :: bool
  se_onclose :: bool
  se_requests :: "http_request list"
  se_up :: "up list"
  se_log :: "log_entry list"

definition ServerSentEventsTransport_new :: "bool \<Rightarrow> bool \<Rightarrow> sse" where
  "ServerSentEventsTransport_new onreceive onclose =
     \<lparr>se_url = [], se_source = EsNone, se_init = None, se_eventSource = False, se_opened = False, se_connect = None,
      se_onreceive = onreceive, se_onclose = onclose, se_requests = [], se_up = [], se_log = []\<rparr>"

text \<open>\<open>token\<close> is empty when there is none; \<open>cookies\<close> is what the HTTP client has for the url.\<close>

definition sse_connect ::
    "transport_options \<Rightarrow> string \<Rightarrow> (string \<Rightarrow> string) \<Rightarrow> string \<Rightarrow> int \<Rightarrow> sse \<Rightarrow> sse" where
  "sse_connect opts token cookies url transferFormat s =
     (case connect_checks (JStr url) (JNum transferFormat) of
        Inl e \<Rightarrow> s\<lparr>se_connect := Some (Rejected e)\<rparr>
      | Inr _ \<Rightarrow>
          (let s1 = s\<lparr>se_log := se_log s @ [(LTrace, ''(SSE transport) Connecting.'')], se_url := url\<rparr>;
               url' = (if token \<noteq> [] then add_query url (''access_token='' @ encodeURIComponent token) else url)
           in if transferFormat \<noteq> TransferFormat_Text then
                s1\<lparr>se_connect := Some (Rejected (Error (''The Server-Sent Events transport only supports the '' @ sq ''Text'' @ '' transfer format'')))\<rparr>
              else
                (let p = to_platform opts; (name, value) = getUserAgentHeader p;
                     headers = obj_set name value [(''Cookie'', cookies url')];
                     init = (if isBrowser p \<or> isWebWorker p
                             then \<lparr>ei_url = url', ei_withCredentials = so_withCredentials (to_send opts), ei_headers = None\<rparr>
                             else \<lparr>ei_url = url', ei_withCredentials = so_withCredentials (to_send opts),
                                    ei_headers = Some (obj_spread headers (so_headers (to_send opts)))\<rparr>)
                 in s1\<lparr>se_source := EsConnecting, se_init := Some init, se_connect := Some Pending\<rparr>)))"

definition sse_settle :: "promise_state \<Rightarrow> sse \<Rightarrow> sse" where
  "sse_settle st s = (if se_connect s = Some Pending then s\<lparr>se_connect := Some st\<rparr> else s)"

definition sse_close :: "js_error option \<Rightarrow> sse \<Rightarrow> sse" where
  "sse_close e s =
     (if se_eventSource s then
        (let s1 = s\<lparr>se_source := EsClosed, se_eventSource := False\<rparr> in
         if se_onclose s1 then s1\<lparr>se_up := se_up s1 @ [UpClose e]\<rparr> else s1)
      else s)"

definition sse_onmessage :: "transport_options \<Rightarrow> string \<Rightarrow> unit result \<Rightarrow> sse \<Rightarrow> sse" where
  "sse_onmessage opts data rc s =
     (if se_onreceive s then
        (let s1 = s\<lparr>se_log := se_log s @ [(LTrace, ''(SSE transport) data received. ''
                      @ getDataDetail (JStr data) (so_logMessageContent (to_send opts)) @ ''.'')],
                    se_up := se_up s @ [UpData (JStr data)]\<rparr>
         in case rc of Inr _ \<Rightarrow> s1 | Inl e \<Rightarrow> sse_close (Some e) s1)
      else s)"

definition sse_connect_error :: string where
  "sse_connect_error = ''EventSource failed to connect. The connection could not be found on the server,''
     @ '' either the connection ID is not present on the server, or a proxy is refusing/buffering the connection.''
     @ '' If you have multiple servers check that sticky sessions are enabled.''"

definition sse_onerror :: "sse \<Rightarrow> sse" where
  "sse_onerror s = (if se_opened s then sse_close None s else sse_settle (Rejected (Error sse_connect_error)) s)"

definition sse_onopen :: "sse \<Rightarrow> sse" where
  "sse_onopen s =
     sse_settle Resolved (s\<lparr>se_log := se_log s @ [(LInformation, ''SSE connected to '' @ se_url s)], se_eventSource := True,
       se_source := EsOpen, se_opened := True\<rparr>)"

definition sse_send :: "transport_options \<Rightarrow> jsval \<Rightarrow> sse \<Rightarrow> sse \<times> http_request result" where
  "sse_send opts data s =
     (if \<not> se_eventSource s then (s, Inl (Error ''Cannot send until the transport is connected''))
      else (let rq = sendMessage_request (to_platform opts) (se_url s) data (to_send opts) in
            (s\<lparr>se_log := se_log s @ [sendMessage_log ''SSE'' data (to_send opts)], se_requests := se_requests s @ [rq]\<rparr>, Inr rq)))"

definition sse_stop :: "sse \<Rightarrow> sse" where
  "sse_stop s = sse_close None s"

datatype sse_event =
    SseConnect string "string \<Rightarrow> string" string int
  | SseOpen
  | SseMessage string "unit result"
  | SseError
  | SseSend jsval
  | SseStop

text \<open>
  The events of an EventSource: \<^verbatim>\<open>open\<close> comes while it is connecting, \<^verbatim>\<open>message\<close> while it is open, \<^verbatim>\<open>error\<close>
  until it is closed (a source that lost its connection reconnects and may open again); a closed source
  fires nothing.
\<close>

inductive sse_step :: "transport_options \<Rightarrow> sse \<Rightarrow> sse_event \<Rightarrow> sse \<Rightarrow> bool" for opts where
  sse_connects: "se_source s = EsNone \<Longrightarrow> sse_step opts s (SseConnect tok ck url tf) (sse_connect opts tok ck url tf s)"
| sse_opens: "se_source s \<in> {EsConnecting, EsOpen} \<Longrightarrow> sse_step opts s SseOpen (sse_onopen s)"
| sse_messages: "se_source s = EsOpen \<Longrightarrow> sse_step opts s (SseMessage d rc) (sse_onmessage opts d rc s)"
| sse_errors: "se_source s \<in> {EsConnecting, EsOpen} \<Longrightarrow> sse_step opts s SseError (sse_onerror s)"
| sse_sends: "sse_step opts s (SseSend d) (fst (sse_send opts d s))"
| sse_stops: "sse_step opts s SseStop (sse_stop s)"

section \<open>WebSocketTransport.ts\<close>

datatype ws_state = WsNone | WsConnecting | WsOpen | WsClosing | WsClosed

text \<open>
  The argument of \<^verbatim>\<open>_close\<close> and of the handler of the close event: a close event, an error, an
  \<^verbatim>\<open>ErrorEvent\<close> with the text of its \<^verbatim>\<open>error\<close>, or something else.
\<close>

datatype close_arg = CloseEvent bool int string | CloseError js_error | CloseErrorEvent string | CloseNothing

datatype ws_connect_at = WsIdle | WsAwaitToken string int | WsAwaitOpen | WsSettled "unit result"

record ws_init =
  wi_url :: string
  wi_headers :: "(string \<times> string) list option"
  wi_binary :: bool

text \<open>
  \<open>ws_webSocket\<close>: the field is set; \<open>ws_readyState\<close>: the browser's object; \<open>ws_handlers\<close>: its handlers
  have not been replaced by empty ones.
\<close>

record websocket =
  ws_webSocket :: bool
  ws_readyState :: ws_state
  ws_handlers :: bool
  ws_opened :: bool
  ws_init :: "ws_init option"
  ws_connect :: ws_connect_at
  ws_onreceive :: bool
  ws_onclose :: bool
  ws_sent :: "jsval list"
  ws_up :: "up list"
  ws_log :: "log_entry list"

definition WebSocketTransport_new :: "bool \<Rightarrow> bool \<Rightarrow> websocket" where
  "WebSocketTransport_new onreceive onclose =
     \<lparr>ws_webSocket = False, ws_readyState = WsNone, ws_handlers = True, ws_opened = False, ws_init = None,
      ws_connect = WsIdle, ws_onreceive = onreceive, ws_onclose = onclose, ws_sent = [], ws_up = [], ws_log = []\<rparr>"

definition ws_logs :: "log_level \<Rightarrow> string \<Rightarrow> websocket \<Rightarrow> websocket" where
  "ws_logs lv m s = s\<lparr>ws_log := ws_log s @ [(lv, m)]\<rparr>"

text \<open>\<^verbatim>\<open>url.replace(/^http/, "ws")\<close>.\<close>

definition ws_url :: "string \<Rightarrow> string" where
  "ws_url url = (if take 4 url = ''http'' then ''ws'' @ drop 4 url else url)"

definition ws_open_socket ::
    "transport_options \<Rightarrow> (string \<Rightarrow> string) \<Rightarrow> string \<Rightarrow> string \<Rightarrow> int \<Rightarrow> websocket \<Rightarrow> websocket" where
  "ws_open_socket opts getCookies token url transferFormat s =
     (let url1 = ws_url url; cookies = getCookies url1; p = to_platform opts;
          (name, value) = getUserAgentHeader p;
          headers = obj_set name value [];
          headers1 = (if token \<noteq> [] then obj_set HeaderNames_Authorization (''Bearer '' @ token) headers else headers);
          headers2 = (if cookies \<noteq> [] then obj_set HeaderNames_Cookie cookies headers1 else headers1);
          init = (if isNode p \<or> isReactNative p
                  then \<lparr>wi_url = url1, wi_headers = Some (obj_spread headers2 (so_headers (to_send opts))), wi_binary = (transferFormat = TransferFormat_Binary)\<rparr>
                  else \<lparr>wi_url = (if token \<noteq> [] then add_query url1 (''access_token='' @ encodeURIComponent token) else url1),
                         wi_headers = None, wi_binary = (transferFormat = TransferFormat_Binary)\<rparr>)
      in s\<lparr>ws_init := Some init, ws_readyState := WsConnecting, ws_connect := WsAwaitOpen\<rparr>)"

definition ws_connects :: "transport_options \<Rightarrow> bool \<Rightarrow> (string \<Rightarrow> string) \<Rightarrow> string \<Rightarrow> int \<Rightarrow> websocket \<Rightarrow> websocket" where
  "ws_connects opts hasFactory getCookies url transferFormat s =
     (case connect_checks (JStr url) (JNum transferFormat) of
        Inl e \<Rightarrow> s\<lparr>ws_connect := WsSettled (Inl e)\<rparr>
      | Inr _ \<Rightarrow>
          (let s1 = ws_logs LTrace ''(WebSockets transport) Connecting.'' s in
           if hasFactory then s1\<lparr>ws_connect := WsAwaitToken url transferFormat\<rparr>
           else ws_open_socket opts getCookies [] url transferFormat s1))"

definition ws_token :: "transport_options \<Rightarrow> (string \<Rightarrow> string) \<Rightarrow> string result \<Rightarrow> string \<Rightarrow> int \<Rightarrow> websocket \<Rightarrow> websocket" where
  "ws_token opts getCookies r url transferFormat s =
     (case r of Inl e \<Rightarrow> s\<lparr>ws_connect := WsSettled (Inl e)\<rparr>
      | Inr token \<Rightarrow> ws_open_socket opts getCookies token url transferFormat s)"

definition ws_settle :: "unit result \<Rightarrow> websocket \<Rightarrow> websocket" where
  "ws_settle r s = (case ws_connect s of WsSettled _ \<Rightarrow> s | _ \<Rightarrow> s\<lparr>ws_connect := WsSettled r\<rparr>)"

text \<open>What \<^verbatim>\<open>_close\<close> tells its owner.\<close>

definition ws_close_error :: "close_arg \<Rightarrow> js_error option" where
  "ws_close_error event =
     (case event of
        CloseEvent wasClean code reason \<Rightarrow>
          if \<not> wasClean \<or> code \<noteq> 1000
          then Some (Error (''WebSocket closed with status code: '' @ int_to_string code @ '' (''
                 @ (if reason \<noteq> [] then reason else ''no reason given'') @ '').''))
          else None
      | CloseError e \<Rightarrow> if is_error e then Some e else None
      | CloseErrorEvent _ \<Rightarrow> None
      | CloseNothing \<Rightarrow> None)"

definition ws_close :: "close_arg \<Rightarrow> websocket \<Rightarrow> websocket" where
  "ws_close event s =
     (let s1 = (if ws_webSocket s
                then s\<lparr>ws_handlers := False, ws_readyState := (if ws_readyState s = WsClosed then WsClosed else WsClosing), ws_webSocket := False\<rparr>
                else s);
          s2 = ws_logs LTrace ''(WebSockets transport) socket closed.'' s1
      in if ws_onclose s2 then s2\<lparr>ws_up := ws_up s2 @ [UpClose (ws_close_error event)]\<rparr> else s2)"

definition ws_onopen :: "websocket \<Rightarrow> websocket" where
  "ws_onopen s =
     ws_settle (Inr ()) ((ws_logs LInformation (''WebSocket connected to ''
         @ (case ws_init s of Some i \<Rightarrow> wi_url i | None \<Rightarrow> []) @ ''.'') s)
       \<lparr>ws_webSocket := True, ws_readyState := WsOpen, ws_opened := True\<rparr>)"

text \<open>\<open>err\<close> is the text of the error event's \<^verbatim>\<open>error\<close>, when it is an \<^verbatim>\<open>ErrorEvent\<close>.\<close>

definition ws_onerror :: "string option \<Rightarrow> websocket \<Rightarrow> websocket" where
  "ws_onerror err s =
     ws_logs LInformation (''(WebSockets transport) ''
       @ (case err of Some e \<Rightarrow> e | None \<Rightarrow> ''There was an error with the transport'') @ ''.'') s"

definition ws_onmessage :: "transport_options \<Rightarrow> jsval \<Rightarrow> unit result \<Rightarrow> websocket \<Rightarrow> websocket" where
  "ws_onmessage opts data rc s =
     (let s1 = ws_logs LTrace (''(WebSockets transport) data received. ''
                 @ getDataDetail data (so_logMessageContent (to_send opts)) @ ''.'') s in
      if ws_onreceive s1 then
        (let s2 = s1\<lparr>ws_up := ws_up s1 @ [UpData data]\<rparr> in
         case rc of Inr _ \<Rightarrow> s2 | Inl e \<Rightarrow> ws_close (CloseError e) s2)
      else s1)"

definition ws_connect_error :: string where
  "ws_connect_error = ''WebSocket failed to connect. The connection could not be found on the server,''
     @ '' either the endpoint may not be a SignalR endpoint,''
     @ '' the connection ID is not present on the server, or there is a proxy blocking WebSockets.''
     @ '' If you have multiple servers check that sticky sessions are enabled.''"

definition ws_onclose_event :: "close_arg \<Rightarrow> websocket \<Rightarrow> websocket" where
  "ws_onclose_event event s =
     (if ws_opened s then ws_close event s
      else ws_settle (Inl (Error (case event of CloseErrorEvent e \<Rightarrow> e | _ \<Rightarrow> ws_connect_error))) s)"

definition ws_send :: "transport_options \<Rightarrow> jsval \<Rightarrow> websocket \<Rightarrow> websocket \<times> unit result" where
  "ws_send opts data s =
     (if ws_webSocket s \<and> ws_readyState s = WsOpen then
        (let s1 = ws_logs LTrace (''(WebSockets transport) sending data. ''
                    @ getDataDetail data (so_logMessageContent (to_send opts)) @ ''.'') s
         in (s1\<lparr>ws_sent := ws_sent s1 @ [data]\<rparr>, Inr ()))
      else (s, Inl (ThrownString ''WebSocket is not in the OPEN state'')))"

definition ws_stop :: "websocket \<Rightarrow> websocket" where
  "ws_stop s = (if ws_webSocket s then ws_close CloseNothing s else s)"

datatype ws_event =
    WsConnect bool "string \<Rightarrow> string" string int
  | WsToken "string \<Rightarrow> string" "string result"
  | WsOpened
  | WsErrored "string option"
  | WsMessage jsval "unit result"
  | WsClosedBy close_arg
  | WsGone
  | WsSend jsval
  | WsStop

text \<open>
  The events of a WebSocket: \<^verbatim>\<open>open\<close> once, while it is connecting; \<^verbatim>\<open>message\<close> while it is open; \<^verbatim>\<open>close\<close> last
  and once. \<open>WsGone\<close> is the state changing without an event of this page's handlers.
\<close>

inductive ws_step :: "transport_options \<Rightarrow> websocket \<Rightarrow> ws_event \<Rightarrow> websocket \<Rightarrow> bool" for opts where
  ws_s_connect: "ws_connect s = WsIdle \<Longrightarrow> ws_step opts s (WsConnect f ck url tf) (ws_connects opts f ck url tf s)"
| ws_s_token: "ws_connect s = WsAwaitToken url tf \<Longrightarrow> ws_step opts s (WsToken ck r) (ws_token opts ck r url tf s)"
| ws_s_open: "ws_readyState s = WsConnecting \<Longrightarrow> ws_step opts s WsOpened (ws_onopen s)"
| ws_s_error: "ws_handlers s \<Longrightarrow> ws_step opts s (WsErrored e) (ws_onerror e s)"
| ws_s_message: "ws_readyState s = WsOpen \<Longrightarrow> ws_handlers s \<Longrightarrow> ws_step opts s (WsMessage d rc) (ws_onmessage opts d rc s)"
| ws_s_close: "ws_readyState s \<in> {WsConnecting, WsOpen, WsClosing} \<Longrightarrow> ws_handlers s \<Longrightarrow>
    ws_step opts s (WsClosedBy ev) (ws_onclose_event ev (s\<lparr>ws_readyState := WsClosed\<rparr>))"
| ws_s_gone: "ws_readyState s \<in> {WsOpen, WsClosing} \<Longrightarrow> ws_step opts s WsGone (s\<lparr>ws_readyState := WsClosing\<rparr>)"
| ws_s_send: "ws_step opts s (WsSend d) (fst (ws_send opts d s))"
| ws_s_stop: "ws_step opts s WsStop (ws_stop s)"

section \<open>What the owner of a transport sees\<close>

fun is_UpData :: "up \<Rightarrow> bool" where
  "is_UpData (UpData _) = True"
| "is_UpData (UpClose _) = False"

text \<open>All that is received comes before the first close.\<close>

definition received_then_closed :: "up list \<Rightarrow> bool" where
  "received_then_closed us \<longleftrightarrow> (\<forall>u \<in> set (dropWhile is_UpData us). \<not> is_UpData u)"

definition closes :: "up list \<Rightarrow> nat" where
  "closes us = length (filter (\<lambda>u. \<not> is_UpData u) us)"

lemma received_then_closed_append:
  "received_then_closed us \<Longrightarrow> \<forall>u \<in> set us'. \<not> is_UpData u \<Longrightarrow> received_then_closed (us @ us')"
  by (cases "\<forall>u \<in> set us. is_UpData u") (auto simp: received_then_closed_def dropWhile_append1 dropWhile_append2 dest: set_dropWhileD)

lemma received_then_closed_open:
  "\<forall>u \<in> set us. is_UpData u \<Longrightarrow> received_then_closed us' \<Longrightarrow> received_then_closed (us @ us')"
  by (simp add: received_then_closed_def dropWhile_append2)

text \<open>
  The contract of a transport: a state is closed for good; until it is, the events are data and at
  most one close, which makes it closed; once it is, at most closes are told.
\<close>

locale push_transport =
  fixes step :: "'s \<Rightarrow> 'e \<Rightarrow> 's \<Rightarrow> bool"
    and fresh :: "'s \<Rightarrow> bool"
    and ups :: "'s \<Rightarrow> up list"
    and closed :: "'s \<Rightarrow> bool"
    and inv :: "'s \<Rightarrow> bool"
  assumes fresh_inv: "fresh s \<Longrightarrow> inv s"
    and fresh_ups: "fresh s \<Longrightarrow> ups s = []"
    and step_inv: "inv s \<Longrightarrow> step s e s' \<Longrightarrow> inv s'"
    and closed_stays: "inv s \<Longrightarrow> step s e s' \<Longrightarrow> closed s \<Longrightarrow> closed s'"
    and open_ups: "inv s \<Longrightarrow> step s e s' \<Longrightarrow> \<not> closed s \<Longrightarrow>
      \<exists>us cs. ups s' = ups s @ us @ cs \<and> (\<forall>u \<in> set us. is_UpData u) \<and>
        (cs = [] \<or> closed s' \<and> (\<exists>e. cs = [UpClose e]))"
    and closed_ups: "inv s \<Longrightarrow> step s e s' \<Longrightarrow> closed s \<Longrightarrow>
      \<exists>cs. ups s' = ups s @ cs \<and> (\<forall>u \<in> set cs. \<not> is_UpData u)"
begin

definition told :: "'s \<Rightarrow> bool" where
  "told s \<longleftrightarrow> inv s \<and> (if closed s then received_then_closed (ups s) else \<forall>u \<in> set (ups s). is_UpData u)"

lemma told_step:
  assumes "told s" "step s e s'"
  shows "told s'"
proof (cases "closed s")
  case True
  from assms True have i: "inv s" "received_then_closed (ups s)" by (simp_all add: told_def)
  from closed_ups [OF i(1) assms(2) True] obtain cs
    where "ups s' = ups s @ cs" "\<forall>u \<in> set cs. \<not> is_UpData u" by blast
  then show ?thesis
    using step_inv [OF i(1) assms(2)] closed_stays [OF i(1) assms(2) True] i(2)
    by (simp add: told_def received_then_closed_append)
next
  case False
  from assms False have i: "inv s" "\<forall>u \<in> set (ups s). is_UpData u" by (simp_all add: told_def)
  from open_ups [OF i(1) assms(2) False] obtain us cs
    where u: "ups s' = (ups s @ us) @ cs" "\<forall>u \<in> set us. is_UpData u" "cs = [] \<or> closed s' \<and> (\<exists>e. cs = [UpClose e])"
    by auto
  have "received_then_closed cs" using u(3) by (auto simp: received_then_closed_def)
  then have "received_then_closed (ups s')"
    unfolding u(1) using u(2) i(2) by (intro received_then_closed_open) auto
  then show ?thesis
    using step_inv [OF i(1) assms(2)] u i(2) by (auto simp: told_def)
qed

lemma fresh_told: "fresh s \<Longrightarrow> told s"
  using fresh_inv fresh_ups by (simp add: told_def received_then_closed_def)

lemma runs_told:
  assumes "runs step s es s'" "fresh s"
  shows "told s'"
  by (rule runs_invariant [where P = told, OF assms(1)])
     (use fresh_told [OF assms(2)] told_step in blast)+

lemma runs_received_then_closed:
  assumes "runs step s es s'" "fresh s"
  shows "received_then_closed (ups s')"
  using runs_told [OF assms] received_then_closed_open [of "ups s'" "[]"]
  by (auto simp: told_def received_then_closed_def split: if_splits)

end

text \<open>A transport that tells its close once: nothing at all is told after it.\<close>

locale once_transport = push_transport +
  assumes silent: "inv s \<Longrightarrow> step s e s' \<Longrightarrow> closed s \<Longrightarrow> ups s' = ups s"
begin

lemma runs_closes_once:
  assumes "runs step s es s'" "fresh s"
  shows "closes (ups s') \<le> 1"
proof -
  let ?P = "\<lambda>s. inv s \<and> closes (ups s) \<le> (if closed s then 1 else 0)"
  have "?P s'"
  proof (rule runs_invariant [where P = ?P, OF assms(1)])
    show "?P s" using fresh_inv fresh_ups assms(2) by (simp add: closes_def)
    fix a e b assume P: "?P a" and st: "step a e b"
    show "?P b"
    proof (cases "closed a")
      case True
      then show ?thesis using P st silent step_inv closed_stays by metis
    next
      case False
      from open_ups [OF _ st False] P obtain us cs where
        u: "ups b = ups a @ us @ cs" "\<forall>u \<in> set us. is_UpData u" "cs = [] \<or> closed b \<and> (\<exists>e. cs = [UpClose e])"
        by blast
      from P False have "closes (ups a) = 0" by simp
      moreover have "closes us = 0" using u(2) by (auto simp: closes_def filter_empty_conv)
      ultimately show ?thesis using u step_inv [OF _ st] P by (auto simp: closes_def)
    qed
  qed
  then show ?thesis by (auto split: if_splits)
qed

end

subsection \<open>Long polling\<close>

fun lp_ended :: "poll_at \<Rightarrow> bool" where
  "lp_ended (ConnectFailed _) = True"
| "lp_ended PollEnded = True"
| "lp_ended (PollThrew _) = True"
| "lp_ended _ = False"

definition lp_inv :: "long_polling \<Rightarrow> bool" where
  "lp_inv s \<longleftrightarrow>
     (LpAwaitDelete \<in> set (lp_stops s) \<longrightarrow> lp_ended (lp_loop s)) \<and>
     (lp_stops s \<noteq> [] \<longrightarrow> lp_loop s \<noteq> NotPolling \<and> (\<forall>rq. lp_loop s \<noteq> AwaitConnect rq))"

definition lp_fresh :: "long_polling \<Rightarrow> bool" where
  "lp_fresh s \<longleftrightarrow> lp_loop s = NotPolling \<and> lp_stops s = [] \<and> lp_up s = []"

lemmas lp_defs = lp_trace_def lp_get_def lp_raiseOnClose_def lp_status_error_def

lemma lp_trace_simps [simp]:
  "lp_up (lp_trace m s) = lp_up s" "lp_loop (lp_trace m s) = lp_loop s" "lp_stops (lp_trace m s) = lp_stops s"
  "lp_running (lp_trace m s) = lp_running s" "lp_pollAbort (lp_trace m s) = lp_pollAbort s" "lp_onclose (lp_trace m s) = lp_onclose s"
  "lp_closeError (lp_trace m s) = lp_closeError s" "lp_url (lp_trace m s) = lp_url s" "lp_onreceive (lp_trace m s) = lp_onreceive s"
  "lp_requests (lp_trace m s) = lp_requests s"
  by (simp_all add: lp_trace_def)

lemma lp_poll_effect:
  "lp_stops (lp_poll now oc po s) = lp_stops s \<and>
   (if lp_running s then lp_up (lp_poll now oc po s) = lp_up s \<and> (\<exists>rq. lp_loop (lp_poll now oc po s) = AwaitPoll rq)
    else lp_ended (lp_loop (lp_poll now oc po s)) \<and>
      lp_up (lp_poll now oc po s) =
        lp_up s @ (if lp_onclose s \<and> \<not> ac_isAborted (lp_pollAbort s) then [UpClose (lp_closeError s)] else []))"
  by (auto simp: lp_poll_def lp_get_def lp_raiseOnClose_def Let_def split: sum.split)

lemma lp_caught_effect [simp]:
  "lp_stops (lp_caught e s) = lp_stops s" "lp_up (lp_caught e s) = lp_up s" "lp_loop (lp_caught e s) = lp_loop s"
  "lp_onclose (lp_caught e s) = lp_onclose s" "lp_pollAbort (lp_caught e s) = lp_pollAbort s"
  by (simp_all add: lp_caught_def split: js_error.split)

lemma lp_answer_effect:
  "lp_stops (lp_answer opts rc r s) = lp_stops s \<and> lp_loop (lp_answer opts rc r s) = lp_loop s \<and>
   (\<exists>us. lp_up (lp_answer opts rc r s) = lp_up s @ us \<and> (\<forall>u \<in> set us. is_UpData u))"
  by (auto simp: lp_answer_def lp_status_error_def Let_def split: sum.split)

lemma lp_connect_effect:
  "lp_stops (lp_connect opts now url tf s) = lp_stops s \<and> lp_up (lp_connect opts now url tf s) = lp_up s"
  by (auto simp: lp_connect_def lp_get_def Let_def split: sum.split)

lemma lp_stop_finally_effect:
  "lp_loop (lp_stop_finally k r oc s) = lp_loop s \<and> (\<exists>res. lp_stops (lp_stop_finally k r oc s) = (lp_stops s)[k := LpStopEnded res]) \<and>
   (\<exists>cs. lp_up (lp_stop_finally k r oc s) = lp_up s @ cs \<and> (\<forall>u \<in> set cs. \<not> is_UpData u))"
  by (auto simp: lp_stop_finally_def lp_raiseOnClose_def Let_def split: sum.split)

text \<open>What one step does to the observable events, in the form the interface asks for.\<close>

definition tells :: "bool \<Rightarrow> bool \<Rightarrow> up list \<Rightarrow> up list \<Rightarrow> bool" where
  "tells closed closed' ups ups' \<longleftrightarrow>
     (\<exists>us cs. ups' = ups @ us @ cs \<and> (\<forall>u \<in> set us. is_UpData u) \<and> (\<forall>u \<in> set cs. \<not> is_UpData u) \<and>
        (if closed then closed' \<and> us = [] else cs = [] \<or> closed' \<and> (\<exists>e. cs = [UpClose e])))"

lemma tells_nothing: "(closed \<Longrightarrow> closed') \<Longrightarrow> tells closed closed' ups ups"
  unfolding tells_def by (intro exI [of _ "[]"]) simp

lemma tells_close: "closed' \<Longrightarrow> tells closed closed' ups (ups @ [UpClose e])"
  unfolding tells_def by (rule exI [of _ "[]"], rule exI [of _ "[UpClose e]"]) simp

lemma tells_data: "\<forall>u \<in> set us. is_UpData u \<Longrightarrow> tells False closed' ups (ups @ us)"
  unfolding tells_def by (rule exI [of _ us], rule exI [of _ "[]"]) simp

lemma tells_data_close: "\<forall>u \<in> set us. is_UpData u \<Longrightarrow> closed' \<Longrightarrow> tells False closed' ups (ups @ us @ [UpClose e])"
  unfolding tells_def by (rule exI [of _ us], rule exI [of _ "[UpClose e]"]) simp

lemma tells_closes: "closed' \<Longrightarrow> \<forall>u \<in> set cs. \<not> is_UpData u \<Longrightarrow> tells True closed' ups (ups @ cs)"
  unfolding tells_def by (rule exI [of _ "[]"], rule exI [of _ cs]) simp

lemma transport_by_tells:
  assumes "\<And>s. fresh s \<Longrightarrow> I s \<and> ups s = []"
    and st: "\<And>s e s'. I s \<Longrightarrow> step s e s' \<Longrightarrow> I s' \<and> tells (closed s) (closed s') (ups s) (ups s')"
  shows "push_transport step fresh ups closed I"
proof
  fix s e s' assume a: "I s" "step s e s'"
  from st [OF this] have i: "I s'" and t: "tells (closed s) (closed s') (ups s) (ups s')" by auto
  show "I s'" by (fact i)
  show "closed s'" if "closed s" using t that by (auto simp: tells_def)
  show "\<exists>us cs. ups s' = ups s @ us @ cs \<and> (\<forall>u\<in>set us. is_UpData u) \<and> (cs = [] \<or> closed s' \<and> (\<exists>e. cs = [UpClose e]))"
    if "\<not> closed s" using t that by (auto simp: tells_def)
  show "\<exists>cs. ups s' = ups s @ cs \<and> (\<forall>u\<in>set cs. \<not> is_UpData u)" if "closed s" using t that by (auto simp: tells_def)
qed (use assms(1) in auto)

abbreviation lp_closed :: "long_polling \<Rightarrow> bool" where
  "lp_closed s \<equiv> lp_ended (lp_loop s)"

lemma lp_stop_finally_tells: "tells True True (lp_up s) (lp_up (lp_stop_finally k r oc s))"
  using lp_stop_finally_effect [of k r oc s] by (auto intro: tells_closes)

lemma lp_stop_received_effect:
  "lp_loop (lp_stop_received opts k oc s) = lp_loop s"
  "tells True True (lp_up s) (lp_up (lp_stop_received opts k oc s))"
  using lp_stop_finally_effect [of k _ oc s] lp_stop_finally_tells [of s k _ oc]
  by (auto simp: lp_stop_received_def Let_def split: poll_at.split intro: tells_nothing)

lemma lp_stop_deleted_effect:
  "lp_loop (lp_stop_deleted k r oc s) = lp_loop s"
  "tells True True (lp_up s) (lp_up (lp_stop_deleted k r oc s))"
  using lp_stop_finally_effect lp_stop_finally_tells [of s]
    lp_stop_finally_tells [of "lp_trace ''DELETE request sent.'' s"]
  by (auto simp: lp_stop_deleted_def split: sum.split)

lemma lp_loop_not_waiting: "\<forall>rq. l \<noteq> AwaitPoll rq \<Longrightarrow> l \<noteq> NotPolling \<Longrightarrow> \<forall>rq. l \<noteq> AwaitConnect rq \<Longrightarrow> lp_ended l"
  by (cases l) auto

lemma lp_connected_effect:
  "lp_stops (lp_connected now oc rq r s) = lp_stops s"
  "lp_loop s = AwaitConnect q \<Longrightarrow> tells (lp_closed s) (lp_closed (lp_connected now oc rq r s)) (lp_up s) (lp_up (lp_connected now oc rq r s))"
  "lp_stops s = [] \<Longrightarrow> lp_inv (lp_connected now oc rq r s)"
proof -
  show "lp_stops (lp_connected now oc rq r s) = lp_stops s"
    using lp_poll_effect by (auto simp: lp_connected_def lp_status_error_def split: sum.split)
  then show "lp_stops s = [] \<Longrightarrow> lp_inv (lp_connected now oc rq r s)" by (simp add: lp_inv_def)
  show "tells (lp_closed s) (lp_closed (lp_connected now oc rq r s)) (lp_up s) (lp_up (lp_connected now oc rq r s))"
    if "lp_loop s = AwaitConnect q"
  proof (cases r)
    case (Inr response)
    let ?t = "if rs_statusCode response \<noteq> 200 then lp_status_error response s else s\<lparr>lp_running := True\<rparr>"
    have "lp_up ?t = lp_up s" by (simp add: lp_status_error_def)
    then show ?thesis using lp_poll_effect [of now oc rq ?t] that Inr
      by (auto simp: lp_connected_def intro: tells_nothing tells_close split: if_splits)
  qed (simp add: that lp_connected_def tells_nothing)
qed

lemma lp_polled_effect:
  assumes "lp_loop s = AwaitPoll q" "lp_inv s"
  shows "lp_inv (lp_polled opts now rc oc rq r s) \<and>
    tells (lp_closed s) (lp_closed (lp_polled opts now rc oc rq r s)) (lp_up s) (lp_up (lp_polled opts now rc oc rq r s))"
proof -
  let ?t = "lp_answer opts rc r s"
  from lp_answer_effect [of opts rc r s] obtain us where
    us: "lp_up ?t = lp_up s @ us" "\<forall>u \<in> set us. is_UpData u" and st: "lp_stops ?t = lp_stops s" by blast
  have "lp_inv (lp_poll now oc rq ?t)"
    using lp_poll_effect [of now oc rq ?t] st assms by (cases "lp_running ?t") (auto simp: lp_inv_def)
  then show ?thesis
    using lp_poll_effect [of now oc rq ?t] us assms(1)
    by (cases "lp_running ?t") (auto simp: lp_polled_def intro: tells_data tells_data_close)
qed

lemma lp_inv_ended: "lp_ended (lp_loop s) \<Longrightarrow> lp_inv s"
  by (auto simp: lp_inv_def)

lemma lp_step_tells:
  assumes "lp_inv s" "lp_step opts s e s'"
  shows "lp_inv s' \<and> tells (lp_closed s) (lp_closed s') (lp_up s) (lp_up s')"
  using assms(2)
proof cases
  case (lp_connects now url tf)
  then show ?thesis using assms(1) lp_connect_effect [of opts now url tf s]
    by (auto simp: lp_inv_def intro: tells_nothing)
next
  case (lp_connecteds rq now oc r)
  then have "lp_stops s = []" using assms(1) by (simp add: lp_inv_def)
  then show ?thesis using lp_connecteds lp_connected_effect(2,3) by simp
next
  case (lp_polleds rq now rc oc r)
  then show ?thesis using lp_polled_effect assms(1) by simp
next
  case (lp_sends d)
  then show ?thesis using assms(1) by (auto simp: lp_send_def lp_inv_def Let_def intro: tells_nothing)
next
  case lp_stopped
  then show ?thesis using assms(1) by (auto simp: lp_stop_def lp_inv_def Let_def intro: tells_nothing)
next
  case (lp_receivings k oc)
  then have "lp_stops s \<noteq> []" by auto
  then have "lp_ended (lp_loop s)"
    using assms(1) lp_receivings(5) by (intro lp_loop_not_waiting) (auto simp: lp_inv_def)
  then show ?thesis using lp_receivings lp_stop_received_effect lp_inv_ended by simp
next
  case (lp_deleteds k r oc)
  then have "LpAwaitDelete \<in> set (lp_stops s)" by (metis nth_mem)
  then have "lp_ended (lp_loop s)" using assms(1) by (simp add: lp_inv_def)
  then show ?thesis using lp_deleteds lp_stop_deleted_effect lp_inv_ended by simp
qed

interpretation polling: push_transport "lp_step opts" lp_fresh lp_up lp_closed lp_inv for opts
  by (rule transport_by_tells, simp add: lp_fresh_def lp_inv_def, rule lp_step_tells)

subsection \<open>Server-sent events\<close>

definition sse_inv :: "sse \<Rightarrow> bool" where
  "sse_inv s \<longleftrightarrow> se_eventSource s = (se_source s = EsOpen) \<and> se_opened s = (se_source s \<in> {EsOpen, EsClosed})"

definition sse_fresh :: "sse \<Rightarrow> bool" where
  "sse_fresh s \<longleftrightarrow> se_source s = EsNone \<and> \<not> se_eventSource s \<and> \<not> se_opened s \<and> se_up s = []"

abbreviation sse_closed :: "sse \<Rightarrow> bool" where
  "sse_closed s \<equiv> se_source s = EsClosed"

lemma sse_settle_simps [simp]:
  "se_up (sse_settle st s) = se_up s" "se_source (sse_settle st s) = se_source s"
  "se_eventSource (sse_settle st s) = se_eventSource s" "se_opened (sse_settle st s) = se_opened s"
  by (simp_all add: sse_settle_def)

lemma sse_connect_effect:
  "sse_fresh s \<or> sse_inv s \<Longrightarrow> se_source s = EsNone \<Longrightarrow>
     sse_inv (sse_connect opts tok ck url tf s) \<and> se_up (sse_connect opts tok ck url tf s) = se_up s"
  by (auto simp: sse_connect_def sse_inv_def sse_fresh_def Let_def split: sum.split prod.split)

lemma sse_step_tells:
  assumes "sse_inv s" "sse_step opts s e s'"
  shows "sse_inv s' \<and> tells (sse_closed s) (sse_closed s') (se_up s) (se_up s')"
  using assms(2)
proof cases
  case (sse_connects tok ck url tf)
  then show ?thesis using assms(1) sse_connect_effect [of s opts tok ck url tf] by (auto intro: tells_nothing)
next
  case sse_opens
  then show ?thesis using assms(1) by (auto simp: sse_onopen_def sse_inv_def intro: tells_nothing)
next
  case (sse_messages d rc)
  have d: "tells False c us (us @ [UpData x, UpClose y])" if c for c us x y
    using tells_data_close [of "[UpData x]" c us y] that by simp
  show ?thesis using assms(1) sse_messages
    by (auto simp: sse_onmessage_def sse_close_def sse_inv_def Let_def intro: tells_nothing tells_data d split: sum.split)
next
  case sse_errors
  then show ?thesis using assms(1)
    by (auto simp: sse_onerror_def sse_close_def sse_inv_def Let_def intro: tells_nothing tells_close)
next
  case (sse_sends d)
  then show ?thesis using assms(1) by (auto simp: sse_send_def sse_inv_def Let_def intro: tells_nothing)
next
  case sse_stops
  then show ?thesis using assms(1)
    by (auto simp: sse_stop_def sse_close_def sse_inv_def Let_def intro: tells_nothing tells_close)
qed

interpretation events: push_transport "sse_step opts" sse_fresh se_up sse_closed sse_inv for opts
  by (rule transport_by_tells, simp add: sse_fresh_def sse_inv_def, rule sse_step_tells)

lemma sse_step_silent: "sse_inv s \<Longrightarrow> sse_step opts s e s' \<Longrightarrow> sse_closed s \<Longrightarrow> se_up s' = se_up s"
  by (auto elim!: sse_step.cases simp: sse_inv_def sse_send_def sse_stop_def sse_close_def Let_def)

interpretation events: once_transport "sse_step opts" sse_fresh se_up sse_closed sse_inv for opts
  by unfold_locales (rule sse_step_silent)

subsection \<open>WebSockets\<close>

definition ws_inv :: "websocket \<Rightarrow> bool" where
  "ws_inv s \<longleftrightarrow>
     (ws_webSocket s = (ws_opened s \<and> ws_handlers s)) \<and>
     (\<not> ws_handlers s \<longrightarrow> ws_opened s) \<and>
     (ws_readyState s \<in> {WsNone, WsConnecting} \<longrightarrow> \<not> ws_opened s) \<and>
     (ws_readyState s = WsOpen \<longrightarrow> ws_opened s) \<and>
     (ws_readyState s = WsClosed \<longrightarrow> ws_opened s \<longrightarrow> \<not> ws_handlers s) \<and>
     (ws_connect s = WsIdle \<or> (\<exists>u f. ws_connect s = WsAwaitToken u f) \<longrightarrow> ws_readyState s = WsNone)"

definition ws_fresh :: "websocket \<Rightarrow> bool" where
  "ws_fresh s \<longleftrightarrow> ws_connect s = WsIdle \<and> ws_readyState s = WsNone \<and> ws_handlers s \<and> \<not> ws_webSocket s \<and> \<not> ws_opened s \<and> ws_up s = []"

abbreviation ws_closed :: "websocket \<Rightarrow> bool" where
  "ws_closed s \<equiv> \<not> ws_handlers s"

lemma ws_logs_simps [simp]:
  "ws_up (ws_logs l m s) = ws_up s" "ws_readyState (ws_logs l m s) = ws_readyState s" "ws_handlers (ws_logs l m s) = ws_handlers s"
  "ws_webSocket (ws_logs l m s) = ws_webSocket s" "ws_opened (ws_logs l m s) = ws_opened s" "ws_connect (ws_logs l m s) = ws_connect s"
  "ws_onclose (ws_logs l m s) = ws_onclose s" "ws_onreceive (ws_logs l m s) = ws_onreceive s"
  by (simp_all add: ws_logs_def)

lemma ws_settle_simps [simp]:
  "ws_up (ws_settle r s) = ws_up s" "ws_readyState (ws_settle r s) = ws_readyState s" "ws_handlers (ws_settle r s) = ws_handlers s"
  "ws_webSocket (ws_settle r s) = ws_webSocket s" "ws_opened (ws_settle r s) = ws_opened s"
  "ws_connect (ws_settle r s) \<noteq> WsIdle" "ws_connect (ws_settle r s) \<noteq> WsAwaitToken u f"
  by (simp_all add: ws_settle_def split: ws_connect_at.split)

lemma ws_connects_effect:
  "ws_up (ws_connects opts f ck url tf s) = ws_up s \<and> ws_handlers (ws_connects opts f ck url tf s) = ws_handlers s \<and>
   (ws_inv s \<longrightarrow> ws_connect s = WsIdle \<longrightarrow> ws_inv (ws_connects opts f ck url tf s))"
  by (auto simp: ws_connects_def ws_open_socket_def ws_inv_def Let_def split: sum.split prod.split)

lemma ws_token_effect:
  "ws_up (ws_token opts ck r url tf s) = ws_up s \<and> ws_handlers (ws_token opts ck r url tf s) = ws_handlers s \<and>
   (ws_inv s \<longrightarrow> ws_readyState s = WsNone \<longrightarrow> ws_inv (ws_token opts ck r url tf s))"
  by (auto simp: ws_token_def ws_open_socket_def ws_inv_def Let_def split: sum.split prod.split)

lemma ws_close_effect:
  assumes "ws_webSocket s" "ws_handlers s" "ws_opened s" "ws_readyState s \<in> {WsOpen, WsClosing, WsClosed}"
    "ws_connect s \<noteq> WsIdle" "\<forall>u f. ws_connect s \<noteq> WsAwaitToken u f"
  shows "ws_inv (ws_close ev s)" "ws_closed (ws_close ev s)"
    "ws_up (ws_close ev s) = ws_up s @ (if ws_onclose s then [UpClose (ws_close_error ev)] else [])"
  using assms by (auto simp: ws_close_def ws_inv_def Let_def)

lemma ws_message_tells:
  assumes "ws_inv s" "ws_readyState s = WsOpen" "ws_handlers s" and s': "s' = ws_onmessage opts d rc s"
  shows "ws_inv s' \<and> tells (ws_closed s) (ws_closed s') (ws_up s) (ws_up s')"
proof -
  let ?t = "ws_logs LTrace (''(WebSockets transport) data received. '' @ getDataDetail d (so_logMessageContent (to_send opts)) @ ''.'') s"
  have c: "ws_webSocket s" "ws_opened s" "ws_connect s \<noteq> WsIdle" "\<forall>u f. ws_connect s \<noteq> WsAwaitToken u f"
    using assms by (auto simp: ws_inv_def)
  let ?u = "?t\<lparr>ws_up := ws_up ?t @ [UpData d]\<rparr>"
  have k: "ws_inv (ws_close (CloseError e) ?u)" "ws_closed (ws_close (CloseError e) ?u)"
    "ws_up (ws_close (CloseError e) ?u) = ws_up s @ [UpData d] @ (if ws_onclose s then [UpClose (ws_close_error (CloseError e))] else [])" for e
    using ws_close_effect [of ?u "CloseError e"] c assms(2,3) by simp_all
  have i: "ws_inv ?t" "ws_inv ?u" using assms(1) by (simp_all add: ws_inv_def)
  have d: "tells False x us (us @ [UpData a, UpClose y])" if x for x us a y
    using tells_data_close [of "[UpData a]" x us y] that by simp
  show ?thesis using assms k i
    by (cases rc) (auto simp: ws_onmessage_def Let_def intro: tells_nothing tells_data d)
qed

lemma ws_closing_tells:
  assumes "ws_inv s" "ws_readyState s \<in> {WsConnecting, WsOpen, WsClosing}" "ws_handlers s"
    and s': "s' = ws_onclose_event ev (s\<lparr>ws_readyState := WsClosed\<rparr>)"
  shows "ws_inv s' \<and> tells (ws_closed s) (ws_closed s') (ws_up s) (ws_up s')"
proof (cases "ws_opened s")
  case True
  then have "ws_webSocket s" "ws_connect s \<noteq> WsIdle" "\<forall>u f. ws_connect s \<noteq> WsAwaitToken u f"
    using assms by (auto simp: ws_inv_def)
  then show ?thesis using ws_close_effect [of "s\<lparr>ws_readyState := WsClosed\<rparr>" ev] True assms
    by (auto simp: ws_onclose_event_def intro: tells_nothing tells_close)
next
  case False
  then show ?thesis using assms by (auto simp: ws_onclose_event_def ws_inv_def intro: tells_nothing)
qed

lemma ws_stop_tells:
  assumes "ws_inv s"
  shows "ws_inv (ws_stop s) \<and> tells (ws_closed s) (ws_closed (ws_stop s)) (ws_up s) (ws_up (ws_stop s))"
proof (cases "ws_webSocket s")
  case True
  then have "ws_handlers s" "ws_opened s" "ws_readyState s \<in> {WsOpen, WsClosing, WsClosed}"
    "ws_connect s \<noteq> WsIdle" "\<forall>u f. ws_connect s \<noteq> WsAwaitToken u f"
    using assms by (cases "ws_readyState s"; auto simp: ws_inv_def)+
  with True show ?thesis using ws_close_effect [of s CloseNothing]
    by (auto simp: ws_stop_def intro: tells_nothing tells_close)
next
  case False
  then show ?thesis using assms by (auto simp: ws_stop_def intro: tells_nothing)
qed

lemma ws_step_tells:
  assumes "ws_inv s" "ws_step opts s e s'"
  shows "ws_inv s' \<and> tells (ws_closed s) (ws_closed s') (ws_up s) (ws_up s')"
  using assms(2)
proof cases
  case (ws_s_connect f ck url tf)
  then show ?thesis using assms(1) ws_connects_effect [of opts f ck url tf s] by (auto intro: tells_nothing)
next
  case (ws_s_token url tf ck r)
  then have "ws_readyState s = WsNone" using assms(1) by (simp add: ws_inv_def)
  then show ?thesis using assms(1) ws_s_token ws_token_effect [of opts ck r url tf s] by (auto intro: tells_nothing)
next
  case ws_s_open
  then show ?thesis using assms(1) by (auto simp: ws_onopen_def ws_inv_def intro: tells_nothing)
next
  case (ws_s_error e)
  then show ?thesis using assms(1) by (auto simp: ws_onerror_def ws_inv_def intro: tells_nothing)
next
  case (ws_s_message d rc)
  then show ?thesis using ws_message_tells [OF assms(1)] by blast
next
  case (ws_s_close ev)
  then show ?thesis using ws_closing_tells [OF assms(1)] by blast
next
  case ws_s_gone
  then show ?thesis using assms(1) by (auto simp: ws_inv_def intro: tells_nothing)
next
  case (ws_s_send d)
  then show ?thesis using assms(1) by (auto simp: ws_send_def ws_inv_def Let_def intro: tells_nothing)
next
  case ws_s_stop
  then show ?thesis using ws_stop_tells [OF assms(1)] by simp
qed

interpretation sockets: push_transport "ws_step opts" ws_fresh ws_up ws_closed ws_inv for opts
  by (rule transport_by_tells, simp add: ws_fresh_def ws_inv_def, rule ws_step_tells)

lemma ws_step_silent: "ws_inv s \<Longrightarrow> ws_step opts s e s' \<Longrightarrow> ws_closed s \<Longrightarrow> ws_up s' = ws_up s"
  by (erule ws_step.cases)
     (auto simp: ws_inv_def ws_send_def ws_stop_def ws_onopen_def ws_connects_effect ws_token_effect Let_def)

interpretation sockets: once_transport "ws_step opts" ws_fresh ws_up ws_closed ws_inv for opts
  by unfold_locales (rule ws_step_silent)

section \<open>Properties\<close>


definition sample_options :: transport_options where
  "sample_options =
     \<lparr>to_send = \<lparr>so_logMessageContent = False, so_headers = [], so_timeout = 0, so_withCredentials = True\<rparr>,
      to_platform = \<lparr>pf_document = Some ''object'', pf_self_importScripts = False, pf_has_globalThis = True, pf_has_self = True,
        pf_has_webpack_g = True, pf_has_fetch = True, pf_has_XMLHttpRequest = True, pf_has_AbortController = True,
        pf_has_WebSocket = True, pf_has_EventSource = True, pf_process_platform = [], pf_node_version = []\<rparr>,
      to_xhr_text_only = False\<rparr>"

definition sample_ws :: "nat \<Rightarrow> websocket" where
  "sample_ws n =
     foldl (\<lambda>s f. f s) (WebSocketTransport_new True True)
       (take n [ws_connects sample_options False (\<lambda>_. []) ''http://h/'' 1, ws_onopen,
          ws_onmessage sample_options (JStr ''m'') (Inl (Error ''x'')), ws_stop])"

definition sample_sse :: "nat \<Rightarrow> sse" where
  "sample_sse n =
     foldl (\<lambda>s f. f s) (ServerSentEventsTransport_new True True)
       (take n [sse_connect sample_options ''t&u'' (\<lambda>_. []) ''http://h/'' 1, sse_onopen, sse_onmessage sample_options ''m'' (Inr ()), sse_onerror, sse_stop])"

lemma sample_ws_steps:
  "sample_ws 0 = WebSocketTransport_new True True"
  "sample_ws 1 = ws_connects sample_options False (\<lambda>_. []) ''http://h/'' 1 (sample_ws 0)"
  "sample_ws 2 = ws_onopen (sample_ws 1)"
  "sample_ws 3 = ws_onmessage sample_options (JStr ''m'') (Inl (Error ''x'')) (sample_ws 2)"
  "sample_ws 4 = ws_stop (sample_ws 3)"
  by (simp_all only: sample_ws_def) (simp_all add: numeral_2_eq_2 numeral_3_eq_3 numeral_eq_Suc)

lemma sample_sse_steps:
  "sample_sse 0 = ServerSentEventsTransport_new True True"
  "sample_sse 1 = sse_connect sample_options ''t&u'' (\<lambda>_. []) ''http://h/'' 1 (sample_sse 0)"
  "sample_sse 2 = sse_onopen (sample_sse 1)"
  "sample_sse 3 = sse_onmessage sample_options ''m'' (Inr ()) (sample_sse 2)"
  "sample_sse 4 = sse_onerror (sample_sse 3)"
  "sample_sse 5 = sse_stop (sample_sse 4)"
  by (simp_all only: sample_sse_def) (simp_all add: numeral_eq_Suc)

lemma sample_ws_ready:
  "ws_connect (sample_ws 0) = WsIdle \<and> ws_readyState (sample_ws 1) = WsConnecting \<and>
   ws_readyState (sample_ws 2) = WsOpen \<and> ws_handlers (sample_ws 2)"
  by code_simp

lemma sample_sse_ready:
  "se_source (sample_sse 0) = EsNone \<and> se_source (sample_sse 1) = EsConnecting \<and> se_source (sample_sse 2) = EsOpen \<and>
   se_source (sample_sse 3) = EsOpen"
  by code_simp

lemma sample_ws_run:
  "runs (ws_step sample_options) (sample_ws 0)
     [WsConnect False (\<lambda>_. []) ''http://h/'' 1, WsOpened, WsMessage (JStr ''m'') (Inl (Error ''x'')), WsStop] (sample_ws 4)"
  using sample_ws_ready
  by (intro runs_cons [of "ws_step sample_options"])
     (auto simp only: sample_ws_steps(2-5) intro: ws_step.intros runs_Nil)

lemma sample_sse_run:
  "runs (sse_step sample_options) (sample_sse 0)
     [SseConnect ''t&u'' (\<lambda>_. []) ''http://h/'' 1, SseOpen, SseMessage ''m'' (Inr ()), SseError, SseStop] (sample_sse 5)"
  using sample_sse_ready
  by (intro runs_cons [of "sse_step sample_options"])
     (auto simp only: sample_sse_steps(2-6) insert_iff intro: sse_step.intros runs_Nil)


text \<open>The stops of a long-polling transport that have ended.\<close>

definition lp_stop_ended :: "long_polling \<Rightarrow> bool" where
  "lp_stop_ended s \<longleftrightarrow> (\<exists>r. LpStopEnded r \<in> set (lp_stops s))"

lemma lp_onclose_kept:
  "lp_step opts s e s' \<Longrightarrow> lp_onclose s' = lp_onclose s"
proof (induction rule: lp_step.induct)
  case (lp_connects s now url tf)
  then show ?case by (auto simp: lp_connect_def lp_get_def Let_def split: sum.split)
next
  case (lp_connecteds s rq now oc r)
  then show ?case by (auto simp: lp_connected_def lp_poll_def lp_get_def lp_raiseOnClose_def lp_status_error_def Let_def split: sum.split)
next
  case (lp_polleds s rq now rc oc r)
  have "lp_onclose (lp_answer opts rc r s) = lp_onclose s"
    by (auto simp: lp_answer_def lp_status_error_def Let_def split: sum.split)
  then show ?case by (auto simp: lp_polled_def lp_poll_def lp_get_def lp_raiseOnClose_def Let_def split: sum.split)
qed (auto simp: lp_send_def lp_stop_def lp_stop_received_def lp_stop_deleted_def lp_stop_finally_def lp_raiseOnClose_def Let_def
       split: sum.split poll_at.split)

lemma lp_stop_finally_closes:
  "lp_onclose s \<Longrightarrow> closes (lp_up (lp_stop_finally k r oc s)) = Suc (closes (lp_up s))"
  by (auto simp: lp_stop_finally_def lp_raiseOnClose_def closes_def Let_def split: sum.split)

lemma tells_closes_mono: "tells c c' us us' \<Longrightarrow> closes us \<le> closes us'"
  by (auto simp: tells_def closes_def)

lemma lp_step_stop_ended:
  assumes "lp_inv s" "lp_onclose s" "lp_stop_ended s \<longrightarrow> 0 < closes (lp_up s)" "lp_step opts s e s'"
  shows "lp_stop_ended s' \<longrightarrow> 0 < closes (lp_up s')"
proof (cases "0 < closes (lp_up s)")
  case True
  then show ?thesis using lp_step_tells [OF assms(1,4)] tells_closes_mono by (metis less_le_trans)
next
  case False
  then have n: "\<not> lp_stop_ended s" using assms(3) by simp
  from assms(4) show ?thesis
  proof cases
    case (lp_connects now url tf)
    then show ?thesis using n lp_connect_effect [of opts now url tf s] by (simp add: lp_stop_ended_def)
  next
    case (lp_connecteds rq now oc r)
    then show ?thesis using n lp_connected_effect(1) [of now oc rq r s] by (simp add: lp_stop_ended_def)
  next
    case (lp_polleds rq now rc oc r)
    then show ?thesis using n lp_answer_effect [of opts rc r s] lp_poll_effect [of now oc rq "lp_answer opts rc r s"]
      by (simp add: lp_stop_ended_def lp_polled_def)
  next
    case (lp_sends d)
    then show ?thesis using n by (simp add: lp_stop_ended_def lp_send_def Let_def)
  next
    case lp_stopped
    then show ?thesis using n by (simp add: lp_stop_ended_def lp_stop_def Let_def)
  next
    case (lp_receivings k oc)
    have "set ((lp_stops s)[k := LpAwaitDelete]) \<subseteq> insert LpAwaitDelete (set (lp_stops s))" by (rule set_update_subset_insert)
    then show ?thesis using n lp_receivings assms(2) lp_stop_finally_closes
      by (auto simp: lp_stop_ended_def lp_stop_received_def Let_def split: poll_at.split)
  next
    case (lp_deleteds k r oc)
    then show ?thesis using assms(2) lp_stop_finally_closes by (simp add: lp_stop_deleted_def split: sum.split)
  qed
qed

text \<open>
  C32: A long-polling transport delivers data only before its first close, and when a call of \<^verbatim>\<open>stop\<close> has
  ended the close has been told.
\<close>

theorem long_polling_closes:
  assumes "runs (lp_step opts) (LongPollingTransport_new r True) es s"
  shows "received_then_closed (lp_up s) \<and> (lp_stop_ended s \<longrightarrow> 0 < closes (lp_up s))"
proof -
  have f: "lp_fresh (LongPollingTransport_new r True)" by (simp add: lp_fresh_def LongPollingTransport_new_def)
  let ?P = "\<lambda>s. lp_inv s \<and> lp_onclose s \<and> (lp_stop_ended s \<longrightarrow> 0 < closes (lp_up s))"
  have "?P s"
  proof (rule runs_invariant [where P = ?P, OF assms])
    show "?P (LongPollingTransport_new r True)"
      by (simp add: LongPollingTransport_new_def lp_inv_def lp_stop_ended_def)
    fix a e b assume P: "?P a" and st: "lp_step opts a e b"
    show "?P b" using P lp_onclose_kept [OF st] lp_step_tells [OF _ st] lp_step_stop_ended [OF _ _ _ st] by simp
  qed
  then show ?thesis using polling.runs_received_then_closed [OF assms f] by blast
qed

fun lp_awaited :: "poll_at \<Rightarrow> http_request" where
  "lp_awaited (AwaitConnect rq) = rq"
| "lp_awaited (AwaitPoll rq) = rq"
| "lp_awaited _ = empty_request"

definition sample_lp :: "nat \<Rightarrow> long_polling" where
  "sample_lp n =
     foldl (\<lambda>s f. f s) (LongPollingTransport_new True True)
       (take n [lp_connect sample_options 5 ''http://h/?id=1'' 1,
          \<lambda>s. lp_connected 6 (Inr ()) (lp_awaited (lp_loop s)) (Inr (new_HttpResponse 200 [] (JStr []))) s,
          \<lambda>s. lp_polled sample_options 7 (Inr ()) (Inr ()) (lp_awaited (lp_loop s)) (Inr (new_HttpResponse 200 [] (JStr ''m''))) s,
          lp_stop,
          \<lambda>s. lp_polled sample_options 8 (Inr ()) (Inr ()) (lp_awaited (lp_loop s)) (Inl (AbortError [])) s,
          lp_stop_received sample_options 0 (Inr ()),
          lp_stop_deleted 0 (Inr (new_HttpResponse 202 [] JUndef)) (Inr ())])"

lemma sample_lp_steps:
  "sample_lp 0 = LongPollingTransport_new True True"
  "sample_lp 1 = lp_connect sample_options 5 ''http://h/?id=1'' 1 (sample_lp 0)"
  "sample_lp 2 = lp_connected 6 (Inr ()) (lp_awaited (lp_loop (sample_lp 1))) (Inr (new_HttpResponse 200 [] (JStr []))) (sample_lp 1)"
  "sample_lp 3 = lp_polled sample_options 7 (Inr ()) (Inr ()) (lp_awaited (lp_loop (sample_lp 2))) (Inr (new_HttpResponse 200 [] (JStr ''m''))) (sample_lp 2)"
  "sample_lp 4 = lp_stop (sample_lp 3)"
  "sample_lp 5 = lp_polled sample_options 8 (Inr ()) (Inr ()) (lp_awaited (lp_loop (sample_lp 4))) (Inl (AbortError [])) (sample_lp 4)"
  "sample_lp 6 = lp_stop_received sample_options 0 (Inr ()) (sample_lp 5)"
  "sample_lp 7 = lp_stop_deleted 0 (Inr (new_HttpResponse 202 [] JUndef)) (Inr ()) (sample_lp 6)"
  by (simp_all only: sample_lp_def) (simp_all add: numeral_eq_Suc)

lemma sample_lp_ready:
  "lp_loop (sample_lp 0) = NotPolling" "lp_loop (sample_lp 1) = AwaitConnect (lp_awaited (lp_loop (sample_lp 1)))"
  "lp_loop (sample_lp 2) = AwaitPoll (lp_awaited (lp_loop (sample_lp 2)))"
  "lp_loop (sample_lp 3) = AwaitPoll (lp_awaited (lp_loop (sample_lp 3)))"
  "lp_loop (sample_lp 4) = AwaitPoll (lp_awaited (lp_loop (sample_lp 4)))"
  "lp_loop (sample_lp 5) = PollEnded" "lp_stops (sample_lp 5) = [LpAwaitReceiving]" "lp_stops (sample_lp 6) = [LpAwaitDelete]"
  by code_simp+

lemma sample_lp_awaits: "lp_loop (sample_lp 3) \<noteq> NotPolling" "lp_loop (sample_lp 3) \<noteq> AwaitConnect rq"
  by (metis sample_lp_ready(4) poll_at.distinct)+

lemma sample_lp_stop_step: "lp_step sample_options (sample_lp 3) LpStop (lp_stop (sample_lp 3))"
  by (rule lp_stopped) (simp_all only: sample_lp_awaits poll_at.distinct not_False_eq_True simp_thms)

lemma sample_lp_run:
  "runs (lp_step sample_options) (sample_lp 0)
     [LpConnect 5 ''http://h/?id=1'' 1, LpConnected 6 (Inr ()) (Inr (new_HttpResponse 200 [] (JStr []))),
      LpPolled 7 (Inr ()) (Inr ()) (Inr (new_HttpResponse 200 [] (JStr ''m''))), LpStop,
      LpPolled 8 (Inr ()) (Inr ()) (Inl (AbortError [])), LpReceivingDone 0 (Inr ()),
      LpDeleted 0 (Inr (new_HttpResponse 202 [] JUndef)) (Inr ())] (sample_lp 7)"
proof (intro runs_cons [of "lp_step sample_options"])
  show "lp_step sample_options (sample_lp 0) (LpConnect 5 ''http://h/?id=1'' 1) (sample_lp 1)"
    unfolding sample_lp_steps(2) by (rule lp_connects) (rule sample_lp_ready)
  show "lp_step sample_options (sample_lp 1) (LpConnected 6 (Inr ()) (Inr (new_HttpResponse 200 [] (JStr [])))) (sample_lp 2)"
    unfolding sample_lp_steps(3) by (rule lp_connecteds) (rule sample_lp_ready)
  show "lp_step sample_options (sample_lp 2) (LpPolled 7 (Inr ()) (Inr ()) (Inr (new_HttpResponse 200 [] (JStr ''m'')))) (sample_lp 3)"
    unfolding sample_lp_steps(4) by (rule lp_polleds) (rule sample_lp_ready)
  show "lp_step sample_options (sample_lp 3) LpStop (sample_lp 4)"
    unfolding sample_lp_steps(5) by (rule sample_lp_stop_step)
  show "lp_step sample_options (sample_lp 4) (LpPolled 8 (Inr ()) (Inr ()) (Inl (AbortError []))) (sample_lp 5)"
    unfolding sample_lp_steps(6) by (rule lp_polleds) (rule sample_lp_ready)
  show "lp_step sample_options (sample_lp 5) (LpReceivingDone 0 (Inr ())) (sample_lp 6)"
    unfolding sample_lp_steps(7) by (rule lp_receivings) (simp_all add: sample_lp_ready(6,7))
  show "lp_step sample_options (sample_lp 6) (LpDeleted 0 (Inr (new_HttpResponse 202 [] JUndef)) (Inr ())) (sample_lp 7)"
    unfolding sample_lp_steps(8) by (rule lp_deleteds) (simp_all add: sample_lp_ready(8))
qed (rule runs_Nil)

theorem long_polling_closes_witness:
  "lp_up (sample_lp 7) = [UpData (JStr ''m''), UpClose None] \<and> lp_stop_ended (sample_lp 7) \<and> 0 < closes (lp_up (sample_lp 7))"
proof -
  have "lp_up (sample_lp 7) = [UpData (JStr ''m''), UpClose None]" "lp_stops (sample_lp 7) = [LpStopEnded (Inr ())]"
    by code_simp+
  moreover from this have "lp_stop_ended (sample_lp 7)" by (simp add: lp_stop_ended_def)
  ultimately show ?thesis using long_polling_closes [OF sample_lp_run [unfolded sample_lp_steps(1)]] by blast
qed

text \<open>The events an answer to a poll should give.\<close>

definition poll_error :: "js_error \<Rightarrow> up list" where
  "poll_error e = (case e of TimeoutError _ \<Rightarrow> [] | _ \<Rightarrow> [UpClose (Some e)])"

definition poll_events :: "unit result \<Rightarrow> http_response result \<Rightarrow> up list" where
  "poll_events rc r =
     (case r of
        Inl e \<Rightarrow> poll_error e
      | Inr response \<Rightarrow>
          if rs_statusCode response = 204 then [UpClose None]
          else if rs_statusCode response \<noteq> 200 then [UpClose (Some (new_HttpError (rs_statusText response) (rs_statusCode response)))]
          else if truthy (rs_content response)
          then UpData (rs_content response) # (case rc of Inl e \<Rightarrow> poll_error e | Inr _ \<Rightarrow> []) else [])"

definition lp_healthy :: "long_polling \<Rightarrow> bool" where
  "lp_healthy s \<longleftrightarrow>
     lp_running s \<and> \<not> ac_isAborted (lp_pollAbort s) \<and> lp_onclose s \<and> lp_onreceive s \<and> lp_closeError s = None"

lemma lp_caught_events:
  assumes "lp_healthy s"
  shows "poll_error e = [] \<Longrightarrow> lp_running (lp_caught e s)"
    and "poll_error e \<noteq> [] \<Longrightarrow> \<not> lp_running (lp_caught e s) \<and> poll_error e = [UpClose (lp_closeError (lp_caught e s))]"
  using assms by (auto simp: lp_caught_def poll_error_def lp_healthy_def split: js_error.splits)

lemma lp_answer_events:
  fixes opts rc r
  assumes "lp_healthy s"
  defines "t \<equiv> lp_answer opts rc r s"
  shows "\<not> ac_isAborted (lp_pollAbort t) \<and> lp_onclose t \<and>
    (\<exists>us. lp_up t = lp_up s @ us \<and> closes us = 0 \<and>
       poll_events rc r = us @ (if lp_running t then [] else [UpClose (lp_closeError t)]))"
proof (cases r)
  case (Inl e)
  then show ?thesis
    using lp_caught_events [OF assms(1), of e] assms(1)
    by (cases "poll_error e = []") (auto simp: t_def lp_answer_def poll_events_def closes_def lp_healthy_def)
next
  case (Inr response)
  show ?thesis
  proof (cases "rs_statusCode response = 200 \<and> truthy (rs_content response) \<and> (\<exists>e. rc = Inl e)")
    case True
    then obtain e where e: "rc = Inl e" by blast
    let ?s1 = "lp_trace (''data received. '' @ getDataDetail (rs_content response) (so_logMessageContent (to_send opts)) @ ''.'') s"
    let ?s2 = "?s1\<lparr>lp_up := lp_up ?s1 @ [UpData (rs_content response)]\<rparr>"
    have h: "lp_healthy ?s2" using assms(1) by (simp add: lp_healthy_def)
    have t: "t = lp_caught e ?s2" using True e assms(1) Inr by (simp add: t_def lp_answer_def Let_def lp_healthy_def)
    show ?thesis using lp_caught_events [OF h, of e] True e Inr assms(1) unfolding t
      by (cases "poll_error e = []") (auto simp: poll_events_def closes_def lp_healthy_def)
  next
    case False
    then show ?thesis using assms(1) Inr
      by (cases rc) (auto simp: t_def lp_answer_def poll_events_def closes_def lp_healthy_def lp_status_error_def Let_def)
  qed
qed

text \<open>
  How a poll of a healthy long-polling transport ends: a timeout or an empty 200 answer polls
  again, data is delivered and polls again, a 204 answer closes without an error, any other status
  closes with an \<^verbatim>\<open>HttpError\<close>, and any other exception, also one thrown by the receiver, closes with
  that exception; the loop goes on exactly when no close was told.
\<close>

theorem long_poll_outcomes:
  fixes opts now rc oc rq r
  assumes "lp_healthy s"
  defines "s' \<equiv> lp_polled opts now rc oc rq r s"
  shows "lp_up s' = lp_up s @ poll_events rc r \<and>
    ((\<exists>rq'. lp_loop s' = AwaitPoll rq') \<longleftrightarrow> closes (poll_events rc r) = 0)"
proof -
  let ?t = "lp_answer opts rc r s"
  from lp_answer_events [OF assms(1), of opts rc r] obtain us where
    t: "\<not> ac_isAborted (lp_pollAbort ?t)" "lp_onclose ?t" "lp_up ?t = lp_up s @ us" "closes us = 0"
      "poll_events rc r = us @ (if lp_running ?t then [] else [UpClose (lp_closeError ?t)])" by blast
  show ?thesis using lp_poll_effect [of now oc rq ?t] t unfolding s'_def lp_polled_def
    by (cases "lp_running ?t") (auto simp: closes_def)
qed

theorem long_poll_outcomes_witness:
  "lp_healthy (sample_lp 3) \<and>
   lp_up (lp_polled sample_options 9 (Inr ()) (Inr ()) empty_request (Inr (new_HttpResponse 503 ''busy'' JUndef)) (sample_lp 3))
     = [UpData (JStr ''m''), UpClose (Some (new_HttpError ''busy'' 503))]"
proof -
  have "lp_healthy (sample_lp 3)" by code_simp
  moreover have "lp_up (sample_lp 3) = [UpData (JStr ''m'')]" by code_simp
  ultimately show ?thesis
    using long_poll_outcomes [of "sample_lp 3" sample_options 9 "Inr ()" "Inr ()" empty_request "Inr (new_HttpResponse 503 ''busy'' JUndef)"]
    by (simp add: poll_events_def new_HttpResponse_def)
qed

text \<open>Decoding, the reference the encoding is compared with.\<close>

definition hex_val :: "char \<Rightarrow> nat" where
  "hex_val c = (let n = of_char c in if n < 58 then n - 48 else n - 55)"

definition pct_val :: "char \<Rightarrow> char \<Rightarrow> nat" where
  "pct_val a b = 16 * hex_val a + hex_val b"

fun decodeURIComponent :: "string \<Rightarrow> string" where
  "decodeURIComponent [] = []"
| "decodeURIComponent (c # s) =
     (if c \<noteq> CHR ''%'' then c # decodeURIComponent s
      else (case s of
              a # b # rest \<Rightarrow>
                if pct_val a b < 128 then char_of (pct_val a b) # decodeURIComponent rest
                else (case rest of
                        _ # d # e # rest' \<Rightarrow> char_of ((pct_val a b - 192) * 64 + (pct_val d e - 128)) # decodeURIComponent rest'
                      | _ \<Rightarrow> [])
            | _ \<Rightarrow> []))"

lemma hex_val_upper_hex: "d < 16 \<Longrightarrow> hex_val (upper_hex d) = d"
  by (simp add: hex_val_def upper_hex_def of_char_of)

lemma pct_val_hex: "n < 256 \<Longrightarrow> pct_val (upper_hex (n div 16)) (upper_hex (n mod 16)) = n"
  by (simp add: pct_val_def hex_val_upper_hex less_mult_imp_div_less)

lemma unreserved_not_pct: "unreserved c \<Longrightarrow> c \<noteq> CHR ''%''"
  by (auto simp: unreserved_def)

lemma utf8_bounds: "192 + (of_char c :: nat) div 64 < 256" "128 + (of_char c :: nat) mod 64 < 256"
proof -
  have "(of_char c :: nat) div 64 < 4" by (rule less_mult_imp_div_less) simp
  then show "192 + (of_char c :: nat) div 64 < 256" by simp
  have "(of_char c :: nat) mod 64 < 64" by simp
  then show "128 + (of_char c :: nat) mod 64 < 256" by linarith
qed

lemma decode_encode_char: "decodeURIComponent (encode_char c @ s) = c # decodeURIComponent s"
proof -
  have n: "(of_char c :: nat) < 256" by simp
  have h: "192 + (of_char c :: nat) div 64 < 256" "128 + (of_char c :: nat) mod 64 < 256"
    by (rule utf8_bounds)+
  have h3: "(192 + (of_char c :: nat) div 64 - 192) * 64 + (128 + (of_char c :: nat) mod 64 - 128) = of_char c"
    by simp
  show ?thesis
    using pct_val_hex [OF n] pct_val_hex [OF h(1)] pct_val_hex [OF h(2)] h3 unreserved_not_pct [of c]
    by (auto simp: encode_char_def pct_def Let_def)
qed

lemma decode_encode: "decodeURIComponent (encodeURIComponent s) = s"
  by (induction s) (simp_all add: encodeURIComponent_def decode_encode_char)

lemma upper_hex_unreserved: "d < 16 \<Longrightarrow> unreserved (upper_hex d)"
  by (simp add: unreserved_def upper_hex_def Let_def)

lemma encode_char_safe: "x \<in> set (encode_char c) \<Longrightarrow> unreserved x \<or> x = CHR ''%''"
proof -
  have n: "(of_char c :: nat) < 256" by simp
  have h: "192 + (of_char c :: nat) div 64 < 256" "128 + (of_char c :: nat) mod 64 < 256"
    by (rule utf8_bounds)+
  have p: "m < 256 \<Longrightarrow> x \<in> set (pct m) \<Longrightarrow> unreserved x \<or> x = CHR ''%''" for m
    by (auto simp: pct_def upper_hex_unreserved less_mult_imp_div_less)
  show "x \<in> set (encode_char c) \<Longrightarrow> unreserved x \<or> x = CHR ''%''"
    using p [OF n] p [OF h(1)] p [OF h(2)] by (auto simp: encode_char_def Let_def split: if_splits)
qed

lemma encodeURIComponent_safe: "x \<in> set (encodeURIComponent s) \<Longrightarrow> unreserved x \<or> x = CHR ''%''"
  using encode_char_safe by (auto simp: encodeURIComponent_def)

text \<open>The characters that separate the parts of a query.\<close>

definition query_delims :: "char set" where
  "query_delims = {CHR ''&'', CHR ''='', CHR ''?'', CHR ''#'', CHR ''+'', CHR 0x20, CHR ''/''}"

lemma query_delims_encoded: "x \<in> query_delims \<Longrightarrow> \<not> unreserved x \<and> x \<noteq> CHR ''%''"
  by (auto simp: query_delims_def unreserved_def)

lemma encoded_no_delims: "set (encodeURIComponent s) \<inter> query_delims = {}"
  using encodeURIComponent_safe query_delims_encoded by blast

lemma sse_connect_url:
  "connect_checks (JStr url) (JNum TransferFormat_Text) = Inr () \<Longrightarrow>
   map_option ei_url (se_init (sse_connect opts token ck url TransferFormat_Text s)) =
     Some (if token = [] then url else add_query url (''access_token='' @ encodeURIComponent token))"
  unfolding sse_connect_def Let_def by (auto split: prod.split)

lemma ws_open_socket_url:
  "isNode (to_platform opts) = False \<Longrightarrow> isReactNative (to_platform opts) = False \<Longrightarrow>
   map_option wi_url (ws_init (ws_open_socket opts ck token url tf s)) =
     Some (if token = [] then ws_url url else add_query (ws_url url) (''access_token='' @ encodeURIComponent token))"
  unfolding ws_open_socket_def Let_def by (auto split: prod.split)

text \<open>
  In a browser the access token goes into the query of the url of the EventSource and of the
  WebSocket as one parameter: the text after \<^verbatim>\<open>access_token=\<close> has no character that separates parts
  of a query, and it decodes to the token.
\<close>

theorem access_token_in_query:
  assumes "connect_checks (JStr url) (JNum TransferFormat_Text) = Inr ()" "token \<noteq> []"
    and "\<not> isNode (to_platform opts)" "\<not> isReactNative (to_platform opts)"
  shows "\<exists>q. map_option ei_url (se_init (sse_connect opts token ck url TransferFormat_Text s)) = Some (add_query url (''access_token='' @ q)) \<and>
    map_option wi_url (ws_init (ws_open_socket opts ck token url tf w)) = Some (add_query (ws_url url) (''access_token='' @ q)) \<and>
    set q \<inter> query_delims = {} \<and> decodeURIComponent q = token"
  using sse_connect_url [OF assms(1), of opts token ck s] ws_open_socket_url [of opts ck token url tf w] assms(2-4)
    encoded_no_delims [of token] decode_encode [of token]
  by (intro exI [of _ "encodeURIComponent token"] conjI) simp_all

theorem access_token_in_query_witness:
  "\<exists>q. map_option ei_url (se_init (sample_sse 1)) = Some (add_query ''http://h/'' (''access_token='' @ q)) \<and>
    set q \<inter> query_delims = {} \<and> decodeURIComponent q = ''t&u''"
proof -
  have "connect_checks (JStr ''http://h/'') (JNum TransferFormat_Text) = Inr ()" "''t&u'' \<noteq> ''''"
    "\<not> isNode (to_platform sample_options)" "\<not> isReactNative (to_platform sample_options)" by code_simp+
  from access_token_in_query [OF this, of "\<lambda>_. []" "sample_sse 0"] show ?thesis
    unfolding sample_sse_steps(2) TransferFormat_Text_def by blast
qed

end
