(* ===== verification/Sr_Negotiation.thy ===== *)
theory Sr_Negotiation
  imports Sr_Transports
begin

text \<open>
  The part of HttpConnection.ts that does not wait: the constructor, the urls, the reading of a
  negotiate answer and the choice of a transport. The state machine that uses it is in
  \<open>Sr_HttpConnection\<close>.

  A negotiate answer is a JSON value of the server and is read with \<open>get_prop\<close>, so a malformed one
  throws where the code throws. An access token that is not a string and a \<^verbatim>\<open>negotiateVersion\<close> that is
  neither a number nor a boolean give \<open>OutsideModel\<close>.
\<close>

unbundle bit_operations_syntax

section \<open>Enumerations as objects\<close>

text \<open>
  The objects \<^verbatim>\<open>HttpTransportType\<close> and \<^verbatim>\<open>TransferFormat\<close> map names to numbers and numbers to names; a
  read of any other name may still find a property of \<^verbatim>\<open>Object.prototype\<close>.
\<close>

definition object_prototype :: "string list" where
  "object_prototype = [''constructor'', ''__defineGetter__'', ''__defineSetter__'', ''hasOwnProperty'',
     ''__lookupGetter__'', ''__lookupSetter__'', ''isPrototypeOf'', ''propertyIsEnumerable'', ''toString'',
     ''valueOf'', ''__proto__'', ''toLocaleString'']"

definition enum_get :: "(string \<times> jsval) list \<Rightarrow> jsval \<Rightarrow> jsval" where
  "enum_get obj key =
     (case obj_get obj (js_to_string key) of
        Some v \<Rightarrow> v
      | None \<Rightarrow> if js_to_string key \<in> set object_prototype then JFun 0 else JUndef)"

definition HttpTransportType_object :: jsobj where
  "HttpTransportType_object =
     [(''0'', JStr ''None''), (''1'', JStr ''WebSockets''), (''2'', JStr ''ServerSentEvents''), (''4'', JStr ''LongPolling''),
      (''None'', JNum HttpTransportType_None), (''WebSockets'', JNum HttpTransportType_WebSockets),
      (''ServerSentEvents'', JNum HttpTransportType_ServerSentEvents), (''LongPolling'', JNum HttpTransportType_LongPolling)]"

definition TransferFormat_object :: jsobj where
  "TransferFormat_object =
     [(''1'', JStr ''Text''), (''2'', JStr ''Binary''), (''Text'', JNum TransferFormat_Text), (''Binary'', JNum TransferFormat_Binary)]"

section \<open>The constructor\<close>

datatype requested = ReqAny | ReqTypes int | ReqInstance

text \<open>
  The options, after the constructor: whether there is a WebSocket and an EventSource class, the
  requested transport, whether there is a token factory. \<open>tri\<close> is a boolean, \<^verbatim>\<open>undefined\<close>, or something else.
\<close>

datatype tri = TriUndef | TriBool bool | TriOther

record http_options =
  ho_transport :: requested
  ho_skipNegotiation :: bool
  ho_WebSocket :: bool
  ho_EventSource :: bool
  ho_factory :: bool
  ho_send :: send_options

record user_options =
  uo_logMessageContent :: "bool option"
  uo_withCredentials :: tri
  uo_timeout :: "int option"
  uo_headers :: "(string \<times> string) list"
  uo_transport :: requested
  uo_skipNegotiation :: bool
  uo_WebSocket :: bool
  uo_EventSource :: bool
  uo_factory :: bool
  uo_httpClient :: bool

text \<open>\<open>anchor\<close> is what the browser makes of an url it is given as \<^verbatim>\<open>href\<close>.\<close>

definition resolveUrl :: "platform \<Rightarrow> (string \<Rightarrow> string) \<Rightarrow> string \<Rightarrow> string result \<times> log_entry list" where
  "resolveUrl p anchor url =
     (if prefix ''https://'' url \<or> prefix ''http://'' url then (Inr url, [])
      else if \<not> isBrowser p then (Inl (Error (''Cannot resolve '' @ sq url @ ''.'')), [])
      else (Inr (anchor url), [(LInformation, ''Normalizing '' @ sq url @ '' to '' @ sq (anchor url) @ ''.'')]))"

text \<open>\<open>modules\<close>: in Node, whether \<^verbatim>\<open>require\<close> found the packages ws and eventsource.\<close>

definition HttpConnection_options :: "platform \<Rightarrow> bool \<times> bool \<Rightarrow> user_options \<Rightarrow> http_options result" where
  "HttpConnection_options p modules u =
     (case uo_withCredentials u of
        TriOther \<Rightarrow> Inl (Error (''withCredentials option was not a '' @ sq ''boolean'' @ '' or '' @ sq ''undefined'' @ '' value''))
      | wc \<Rightarrow>
          Inr \<lparr>ho_transport = uo_transport u, ho_skipNegotiation = uo_skipNegotiation u,
               ho_WebSocket = (uo_WebSocket u \<or> (if isNode p then fst modules else pf_has_WebSocket p)),
               ho_EventSource = (uo_EventSource u \<or> (if isNode p then snd modules else pf_has_EventSource p)),
               ho_factory = uo_factory u,
               ho_send = \<lparr>so_logMessageContent = (case uo_logMessageContent u of None \<Rightarrow> False | Some b \<Rightarrow> b),
                          so_headers = uo_headers u,
                          so_timeout = (case uo_timeout u of None \<Rightarrow> 100 * 1000 | Some t \<Rightarrow> t),
                          so_withCredentials = (wc = TriUndef \<or> wc = TriBool True)\<rparr>\<rparr>)"

section \<open>Urls\<close>

definition resolveNegotiateUrl :: "int \<Rightarrow> string \<Rightarrow> string" where
  "resolveNegotiateUrl negotiateVersion url =
     (let index = index_of url ''?'';
          base = (case index of None \<Rightarrow> url | Some i \<Rightarrow> take i url);
          slash = (if base = [] \<or> last base \<noteq> CHR ''/'' then base @ ''/'' else base);
          full = slash @ ''negotiate'' @ (case index of None \<Rightarrow> [] | Some i \<Rightarrow> drop i url)
      in if index_of full ''negotiateVersion'' = None
         then full @ (if index = None then ''?'' else ''&'') @ ''negotiateVersion='' @ int_to_string negotiateVersion
         else full)"

definition createConnectUrl :: "string \<Rightarrow> jsval \<Rightarrow> string" where
  "createConnectUrl url connectionToken =
     (if \<not> truthy connectionToken then url
      else url @ (if index_of url ''?'' = None then ''?'' else ''&'') @ ''id='' @ js_to_string connectionToken)"

text \<open>The url of a redirect is whatever the server sent; only a string has the methods the code calls.\<close>

definition url_text :: "jsval \<Rightarrow> string result" where
  "url_text v =
     (case v of JStr s \<Rightarrow> Inr s
      | JArr _ \<Rightarrow> Inl (TypeError ''url.substring is not a function'')
      | _ \<Rightarrow> Inl (TypeError ''url.indexOf is not a function''))"

section \<open>Negotiation\<close>

definition negotiate_request :: "platform \<Rightarrow> http_options \<Rightarrow> string \<Rightarrow> http_request" where
  "negotiate_request p opts url =
     (let (name, value) = getUserAgentHeader p in
      http_post (resolveNegotiateUrl 1 url)
        (empty_request\<lparr>rq_content := JStr [], rq_headers := Some (obj_spread (obj_set name value []) (so_headers (ho_send opts))),
           rq_timeout := so_timeout (ho_send opts), rq_withCredentials := Some (so_withCredentials (ho_send opts))\<rparr>))"

text \<open>\<^verbatim>\<open>!v || v < 1\<close>.\<close>

definition old_version :: "jsval \<Rightarrow> bool result" where
  "old_version v =
     (if \<not> truthy v then Inr True
      else (case v of JNum n \<Rightarrow> Inr (n < 1) | JBool _ \<Rightarrow> Inr False | _ \<Rightarrow> Inl OutsideModel))"

text \<open>Assigning a property: a primitive takes none and strict code throws.\<close>

definition set_prop :: "string \<Rightarrow> jsval \<Rightarrow> jsval \<Rightarrow> jsval result" where
  "set_prop k x v =
     (case v of
        JObj ps \<Rightarrow> Inr (JObj (obj_set k x ps))
      | JArr xs \<Rightarrow> if x = JUndef then Inr v else Inl OutsideModel
      | JUndef \<Rightarrow> Inl (TypeError (''Cannot set properties of undefined (setting '' @ sq k @ '')''))
      | JNull \<Rightarrow> Inl (TypeError (''Cannot set properties of null (setting '' @ sq k @ '')''))
      | _ \<Rightarrow> Inl (TypeError (''Cannot create property '' @ sq k @ '' on '' @ js_typeof v @ '' '' @ sq (js_to_string v))))"

definition read_negotiation :: "http_response \<Rightarrow> jsval result" where
  "read_negotiation response =
     rbind (JSON_parse (js_to_string (rs_content response))) (\<lambda>n.
     rbind (get_prop n ''negotiateVersion'') (\<lambda>v.
     rbind (old_version v) (\<lambda>old.
       if old then rbind (get_prop n ''connectionId'') (\<lambda>i. set_prop ''connectionToken'' i n) else Inr n)))"

definition negotiation_failure :: "js_error \<Rightarrow> js_error" where
  "negotiation_failure e =
     FailedToNegotiateWithServerError (''Failed to complete negotiation with the server: '' @ err_to_string e
       @ (case e of HttpError _ code \<Rightarrow>
            if code = 404 then '' Either this is not a SignalR endpoint or there is a proxy blocking the connection.'' else []
          | _ \<Rightarrow> []))"

text \<open>\<^verbatim>\<open>_getNegotiationResponse\<close> after its request: an unexpected status is not wrapped by the \<^verbatim>\<open>catch\<close>.\<close>

definition negotiation_response :: "http_response result \<Rightarrow> jsval result \<times> log_entry list" where
  "negotiation_response r =
     (case (case r of Inl e \<Rightarrow> Inl e
            | Inr response \<Rightarrow>
                if rs_statusCode response \<noteq> 200
                then Inr (Inl (Error (''Unexpected status code returned from negotiate '' @ sq (int_to_string (rs_statusCode response)))))
                else (case read_negotiation response of Inl e \<Rightarrow> Inl e | Inr n \<Rightarrow> Inr (Inr n))) of
        Inr outcome \<Rightarrow> (outcome, [])
      | Inl e \<Rightarrow> (Inl (negotiation_failure e), [(LError, err_message (negotiation_failure e))]))"

section \<open>Choosing a transport\<close>

datatype itransport = TWebSocket | TServerSentEvents | TLongPolling | TUser

definition constructTransport :: "http_options \<Rightarrow> jsval \<Rightarrow> itransport result" where
  "constructTransport opts transport =
     (if transport = JNum HttpTransportType_WebSockets then
        (if \<not> ho_WebSocket opts then Inl (Error (sq ''WebSocket'' @ '' is not supported in your environment.'')) else Inr TWebSocket)
      else if transport = JNum HttpTransportType_ServerSentEvents then
        (if \<not> ho_EventSource opts then Inl (Error (sq ''EventSource'' @ '' is not supported in your environment.'')) else Inr TServerSentEvents)
      else if transport = JNum HttpTransportType_LongPolling then Inr TLongPolling
      else Inl (Error (''Unknown transport: '' @ js_to_string transport @ ''.'')))"

text \<open>\<^verbatim>\<open>actual & requested\<close>: a value that is not a number counts as zero.\<close>

definition transportMatches :: "requested \<Rightarrow> jsval \<Rightarrow> bool" where
  "transportMatches requestedTransport actualTransport =
     (case requestedTransport of
        ReqAny \<Rightarrow> True
      | ReqTypes n \<Rightarrow> n = 0 \<or> (case actualTransport of JNum a \<Rightarrow> a AND n \<noteq> 0 | _ \<Rightarrow> False)
      | ReqInstance \<Rightarrow> False)"

text \<open>The list of formats of an endpoint: \<^verbatim>\<open>endpoint.transferFormats.map(...)\<close>.\<close>

definition endpoint_formats :: "jsval \<Rightarrow> jsval list result" where
  "endpoint_formats endpoint =
     rbind (get_prop endpoint ''transferFormats'') (\<lambda>v.
       case v of
         JArr xs \<Rightarrow> Inr (map (enum_get TransferFormat_object) xs)
       | JUndef \<Rightarrow> Inl (TypeError (''Cannot read properties of undefined (reading '' @ sq ''map'' @ '')''))
       | JNull \<Rightarrow> Inl (TypeError (''Cannot read properties of null (reading '' @ sq ''map'' @ '')''))
       | _ \<Rightarrow> Inl (TypeError ''endpoint.transferFormats.map is not a function''))"

text \<open>
  The outer result is a throw of the function, the inner one its returned error or transport; the
  log entry goes with every return.
\<close>

definition resolveTransportOrError ::
    "http_options \<Rightarrow> requested \<Rightarrow> int \<Rightarrow> jsval \<Rightarrow> (itransport result \<times> log_entry) result" where
  "resolveTransportOrError opts requestedTransport requestedTransferFormat endpoint =
     rbind (get_prop endpoint ''transport'') (\<lambda>t.
       let transport = enum_get HttpTransportType_object t;
           name = sq (js_to_string (enum_get HttpTransportType_object transport));
           format = js_to_string (enum_get TransferFormat_object (JNum requestedTransferFormat))
       in if transport = JNull \<or> transport = JUndef then
            (let m = ''Skipping transport '' @ sq (js_to_string t) @ '' because it is not supported by this client.''
             in Inr (Inl (Error m), (LDebug, m)))
          else if transportMatches requestedTransport transport then
            rbind (endpoint_formats endpoint) (\<lambda>transferFormats.
              if JNum requestedTransferFormat \<in> set transferFormats then
                (if (transport = JNum HttpTransportType_WebSockets \<and> \<not> ho_WebSocket opts) \<or>
                    (transport = JNum HttpTransportType_ServerSentEvents \<and> \<not> ho_EventSource opts)
                 then Inr (Inl (UnsupportedTransportError (name @ '' is not supported in your environment.'')
                                  (case transport of JNum n \<Rightarrow> n | _ \<Rightarrow> 0)),
                           (LDebug, ''Skipping transport '' @ name @ '' because it is not supported in your environment.'' @ [CHR 0x27]))
                 else Inr (constructTransport opts transport, (LDebug, ''Selecting transport '' @ name @ ''.'')))
              else Inr (Inl (Error (name @ '' does not support '' @ format @ ''.'')),
                        (LDebug, ''Skipping transport '' @ name @ '' because it does not support the requested transfer format '' @ sq format @ ''.'')))
          else Inr (Inl (DisabledTransportError (name @ '' is disabled by the client.'') (case transport of JNum n \<Rightarrow> n | _ \<Rightarrow> 0)),
                    (LDebug, ''Skipping transport '' @ name @ '' because it was disabled by the client.'')))"

text \<open>\<^verbatim>\<open>negotiateResponse.availableTransports || []\<close>, iterated with \<^verbatim>\<open>for ... of\<close>.\<close>

definition available_transports :: "jsval \<Rightarrow> jsval list result" where
  "available_transports n =
     rbind (get_prop n ''availableTransports'') (\<lambda>v.
       if \<not> truthy v then Inr []
       else (case v of
               JArr xs \<Rightarrow> Inr xs
             | JStr s \<Rightarrow> Inr (map (\<lambda>c. JStr [c]) s)
             | _ \<Rightarrow> Inl (TypeError ''transports is not iterable'')))"

end
