(* ===== verification/Sr_HttpConnection.thy ===== *)
theory Sr_HttpConnection
  imports Sr_Negotiation
begin

text \<open>
  The class HttpConnection of HttpConnection.ts as a state machine. A call of \<^verbatim>\<open>start\<close> is an entry of
  \<open>ht_starts\<close> and a call of \<^verbatim>\<open>stop\<close> one of \<open>ht_stops\<close>, each at the \<^verbatim>\<open>await\<close> where it is suspended;
  \<open>_startInternalPromise\<close> and \<open>_stopPromise\<close> are indices. A transport is known by the interface ITransport:
  the labels say how its \<^verbatim>\<open>connect\<close> and \<^verbatim>\<open>stop\<close> settle and when it calls its \<^verbatim>\<open>onclose\<close>, as the machines of
  \<open>Sr_Transports\<close> do; the send queues are those of \<open>Sr_SendQueue\<close>.
\<close>

definition MAX_REDIRECTS :: nat where "MAX_REDIRECTS = 100"

section \<open>State\<close>

datatype conn_state = CDisconnected | CConnecting | CConnected | CDisconnecting

fun conn_state_name :: "conn_state \<Rightarrow> string" where
  "conn_state_name CDisconnected = ''Disconnected''"
| "conn_state_name CConnecting = ''Connecting''"
| "conn_state_name CConnected = ''Connected''"
| "conn_state_name CDisconnecting = ''Disconnecting''"

datatype token_factory = NoFactory | UserFactory | FixedFactory string

record endpoint_try =
  ep_url :: string
  ep_connectUrl :: string
  ep_endpoint :: jsval
  ep_rest :: "jsval list"
  ep_exceptions :: "js_error list"
  ep_negotiate :: jsval

text \<open>Where a call of \<^verbatim>\<open>start\<close> is: inside \<^verbatim>\<open>_startInternal\<close>, after it, waiting for a stop, or ended.\<close>

datatype ht_start_at =
    AwaitNegotiate string nat
  | AwaitSkipConnect
  | AwaitUserConnect jsval
  | AwaitTransport endpoint_try
  | AwaitRenegotiate endpoint_try
  | InnerSettled "unit result"
  | AwaitStopPromise nat
  | StartEnded "unit result"

datatype ht_stop_at =
    AwaitStart "nat option"
  | AwaitTransportStop
  | AwaitStopped nat
  | StopEnded "unit result"

record http_connection =
  ht_baseUrl :: string
  ht_state :: conn_state
  ht_started :: bool
  ht_transport :: "itransport option"
  ht_factory :: token_factory
  ht_client :: at_client
  ht_connectionId :: jsval
  ht_stopError :: "js_error option"
  ht_stopPromises :: "bool list"
  ht_stopPromise :: "nat option"
  ht_startPromise :: "nat option"
  ht_starts :: "(int \<times> ht_start_at) list"
  ht_stops :: "ht_stop_at list"
  ht_queues :: "send_queue list"
  ht_sendQueue :: "nat option"
  ht_inherentKeepAlive :: bool
  ht_onclose :: bool
  ht_requests :: "http_request list"
  ht_connects :: "(itransport \<times> string \<times> int) list"
  ht_closes :: "js_error option list"
  ht_log :: "log_entry list"

record ht_env =
  he_options :: http_options
  he_platform :: platform

definition HttpConnection_new :: "http_options \<Rightarrow> string \<Rightarrow> log_entry list \<Rightarrow> bool \<Rightarrow> http_connection" where
  "HttpConnection_new opts baseUrl logged onclose =
     \<lparr>ht_baseUrl = baseUrl, ht_state = CDisconnected, ht_started = False, ht_transport = None,
      ht_factory = NoFactory, ht_client = \<lparr>at_token = [], at_has_factory = ho_factory opts\<rparr>, ht_connectionId = JUndef,
      ht_stopError = None, ht_stopPromises = [], ht_stopPromise = None, ht_startPromise = None, ht_starts = [], ht_stops = [],
      ht_queues = [], ht_sendQueue = None, ht_inherentKeepAlive = False, ht_onclose = onclose, ht_requests = [],
      ht_connects = [], ht_closes = [], ht_log = logged\<rparr>"

text \<open>The constructor: the argument check, the base url, the options and the HTTP client.\<close>

definition HttpConnection_create ::
    "platform \<Rightarrow> bool \<times> bool \<Rightarrow> (string \<Rightarrow> string) \<Rightarrow> jsval \<Rightarrow> user_options \<Rightarrow> bool \<Rightarrow> (ht_env \<times> http_connection) result" where
  "HttpConnection_create p modules anchor url u onclose =
     rbind (Arg_isRequired url ''url'') (\<lambda>_.
     rbind (case url of JStr s \<Rightarrow> Inr s | JArr _ \<Rightarrow> Inl OutsideModel
            | _ \<Rightarrow> Inl (TypeError ''url.lastIndexOf is not a function'')) (\<lambda>url'.
       case resolveUrl p anchor url' of
         (Inl e, _) \<Rightarrow> Inl e
       | (Inr baseUrl, logged) \<Rightarrow>
           rbind (HttpConnection_options p modules u) (\<lambda>opts.
           rbind (if uo_httpClient u then Inr () else rbind (DefaultHttpClient_new p) (\<lambda>_. Inr ())) (\<lambda>_.
             Inr (\<lparr>he_options = opts, he_platform = p\<rparr>, HttpConnection_new opts baseUrl logged onclose)))))"

definition ht_logs :: "log_level \<Rightarrow> string \<Rightarrow> http_connection \<Rightarrow> http_connection" where
  "ht_logs lv m s = s\<lparr>ht_log := ht_log s @ [(lv, m)]\<rparr>"

definition ht_set_start :: "nat \<Rightarrow> ht_start_at \<Rightarrow> http_connection \<Rightarrow> http_connection" where
  "ht_set_start i a s = s\<lparr>ht_starts := (ht_starts s)[i := (fst (ht_starts s ! i), a)]\<rparr>"

definition ht_set_stop :: "nat \<Rightarrow> ht_stop_at \<Rightarrow> http_connection \<Rightarrow> http_connection" where
  "ht_set_stop k a s = s\<lparr>ht_stops := (ht_stops s)[k := a]\<rparr>"

text \<open>\<^verbatim>\<open>_stopPromiseResolver()\<close>.\<close>

definition ht_resolveStop :: "http_connection \<Rightarrow> http_connection" where
  "ht_resolveStop s =
     (case ht_stopPromise s of None \<Rightarrow> s | Some k \<Rightarrow> s\<lparr>ht_stopPromises := (ht_stopPromises s)[k := True]\<rparr>)"

section \<open>Starting\<close>

text \<open>The \<^verbatim>\<open>catch\<close> of \<^verbatim>\<open>_startInternal\<close>.\<close>

definition ht_start_failed :: "nat \<Rightarrow> js_error \<Rightarrow> http_connection \<Rightarrow> http_connection" where
  "ht_start_failed i e s =
     ht_set_start i (InnerSettled (Inl e))
       (ht_resolveStop ((ht_logs LError (''Failed to start the connection: '' @ err_to_string e) s)
          \<lparr>ht_state := CDisconnected, ht_transport := None\<rparr>))"

text \<open>The end of its \<^verbatim>\<open>try\<close>.\<close>

definition ht_start_ok :: "nat \<Rightarrow> http_connection \<Rightarrow> http_connection" where
  "ht_start_ok i s =
     (let s1 = (if ht_transport s = Some TLongPolling then s\<lparr>ht_inherentKeepAlive := True\<rparr> else s);
          s2 = (if ht_state s1 = CConnecting
                then (ht_logs LDebug ''The HttpConnection connected successfully.'' s1)\<lparr>ht_state := CConnected\<rparr> else s1)
      in ht_set_start i (InnerSettled (Inr ())) s2)"

text \<open>\<^verbatim>\<open>_startTransport\<close>: the transport may have been taken away while the code waited.\<close>

definition ht_startTransport :: "string \<Rightarrow> int \<Rightarrow> http_connection \<Rightarrow> http_connection result" where
  "ht_startTransport url transferFormat s =
     (case ht_transport s of
        None \<Rightarrow> Inl (TypeError (''Cannot set properties of undefined (setting '' @ sq ''onreceive'' @ '')''))
      | Some t \<Rightarrow> Inr (s\<lparr>ht_connects := ht_connects s @ [(t, url, transferFormat)]\<rparr>))"

definition ht_prop :: "jsval \<Rightarrow> string \<Rightarrow> jsval" where
  "ht_prop v k = (case get_prop v k of Inr x \<Rightarrow> x | Inl _ \<Rightarrow> JUndef)"

definition endpoint_name :: "jsval \<Rightarrow> string" where
  "endpoint_name endpoint = js_to_string (ht_prop endpoint ''transport'')"

text \<open>The \<^verbatim>\<open>catch\<close> around one transport: what is logged and the exception that is stored.\<close>

definition transport_failure :: "jsval \<Rightarrow> js_error \<Rightarrow> js_error" where
  "transport_failure endpoint ex =
     FailedToStartTransportError (endpoint_name endpoint @ '' failed: '' @ err_to_string ex)
       (case enum_get HttpTransportType_object (ht_prop endpoint ''transport'') of JNum n \<Rightarrow> Some n | _ \<Rightarrow> None)"

definition ht_transport_failed :: "jsval \<Rightarrow> js_error \<Rightarrow> http_connection \<Rightarrow> http_connection" where
  "ht_transport_failed endpoint ex s =
     (let s1 = ht_logs LError (''Failed to start the transport '' @ sq (endpoint_name endpoint) @ '': '' @ err_to_string ex) s
      in if ht_state s1 \<noteq> CConnecting then ht_logs LDebug ''Failed to select transport before stop() was called.'' s1 else s1)"

definition ht_send_negotiate :: "ht_env \<Rightarrow> string \<Rightarrow> http_connection \<Rightarrow> http_connection" where
  "ht_send_negotiate env url s =
     (let rq = negotiate_request (he_platform env) (he_options env) url;
          s1 = ht_logs LDebug (''Sending negotiation request: '' @ rq_url rq @ ''.'') s
      in s1\<lparr>ht_requests := ht_requests s1 @ [rq]\<rparr>)"

definition no_transports_error :: "js_error list \<Rightarrow> js_error" where
  "no_transports_error excs =
     (if excs \<noteq> [] then AggregateErrors (''Unable to connect to the server with any of the available transports. ''
          @ join '' '' (map err_to_string excs)) excs
      else Error ''None of the transports supported by the client are supported by the server.'')"

text \<open>The loop of \<^verbatim>\<open>_createTransport\<close> over the endpoints left, up to its next \<^verbatim>\<open>await\<close>.\<close>

fun ht_try :: "ht_env \<Rightarrow> nat \<Rightarrow> string \<Rightarrow> string \<Rightarrow> jsval option \<Rightarrow> js_error list \<Rightarrow> jsval list \<Rightarrow> http_connection \<Rightarrow> http_connection" where
  "ht_try env i url connectUrl negotiate excs [] s = ht_start_failed i (no_transports_error excs) s"
| "ht_try env i url connectUrl negotiate excs (endpoint # rest) s =
     (let fmt = fst (ht_starts s ! i) in
      case resolveTransportOrError (he_options env) (ho_transport (he_options env)) fmt endpoint of
        Inl e \<Rightarrow> ht_start_failed i e s
      | Inr (r, logged) \<Rightarrow>
          (let s1 = s\<lparr>ht_log := ht_log s @ [logged]\<rparr> in
           case r of
             Inl err \<Rightarrow>
               ht_try env i url connectUrl negotiate
                 (excs @ [ThrownString (endpoint_name endpoint @ '' failed:''), err]) rest s1
           | Inr t \<Rightarrow>
               (let s2 = s1\<lparr>ht_transport := Some t\<rparr>;
                    ep = \<lparr>ep_url = url, ep_connectUrl = connectUrl, ep_endpoint = endpoint, ep_rest = rest,
                          ep_exceptions = excs, ep_negotiate = (case negotiate of Some n \<Rightarrow> n | None \<Rightarrow> JUndef)\<rparr>
                in case negotiate of
                     None \<Rightarrow> ht_set_start i (AwaitRenegotiate ep) (ht_send_negotiate env url s2)
                   | Some n \<Rightarrow>
                       (case ht_startTransport connectUrl fmt s2 of
                          Inr s3 \<Rightarrow> ht_set_start i (AwaitTransport ep) s3
                        | Inl ex \<Rightarrow>
                            (let s4 = ht_transport_failed endpoint ex s2 in
                             if ht_state s2 \<noteq> CConnecting
                             then ht_start_failed i (new_AbortError (Some ''Failed to select transport before stop() was called.'')) s4
                             else ht_try env i url connectUrl None (excs @ [transport_failure endpoint ex]) rest s4)))))"

text \<open>A \<^verbatim>\<open>connect\<close> that failed: the next endpoint, with a new negotiation, unless the state has changed.\<close>

definition ht_next_endpoint :: "ht_env \<Rightarrow> nat \<Rightarrow> endpoint_try \<Rightarrow> js_error \<Rightarrow> http_connection \<Rightarrow> http_connection" where
  "ht_next_endpoint env i ep ex s =
     (let s1 = ht_transport_failed (ep_endpoint ep) ex s in
      if ht_state s \<noteq> CConnecting
      then ht_start_failed i (new_AbortError (Some ''Failed to select transport before stop() was called.'')) s1
      else ht_try env i (ep_url ep) (ep_connectUrl ep) None (ep_exceptions ep @ [transport_failure (ep_endpoint ep) ex]) (ep_rest ep) s1)"

definition ht_createTransport :: "ht_env \<Rightarrow> nat \<Rightarrow> string \<Rightarrow> jsval \<Rightarrow> http_connection \<Rightarrow> http_connection" where
  "ht_createTransport env i url n s =
     (let connectUrl = createConnectUrl url (ht_prop n ''connectionToken''); fmt = fst (ht_starts s ! i) in
      if ho_transport (he_options env) = ReqInstance then
        (let s1 = (ht_logs LDebug ''Connection was provided an instance of ITransport, using that directly.'' s)\<lparr>ht_transport := Some TUser\<rparr> in
         case ht_startTransport connectUrl fmt s1 of
           Inl e \<Rightarrow> ht_start_failed i e s1
         | Inr s2 \<Rightarrow> ht_set_start i (AwaitUserConnect n) s2)
      else
        (case available_transports n of
           Inl e \<Rightarrow> ht_start_failed i e s
         | Inr transports \<Rightarrow> ht_try env i url connectUrl (Some n) [] transports s))"

definition ht_negotiate :: "ht_env \<Rightarrow> nat \<Rightarrow> jsval \<Rightarrow> nat \<Rightarrow> http_connection \<Rightarrow> http_connection" where
  "ht_negotiate env i url redirects s =
     (case url_text url of
        Inl e \<Rightarrow> ht_start_failed i e s
      | Inr u \<Rightarrow> ht_set_start i (AwaitNegotiate u redirects) (ht_send_negotiate env u s))"

text \<open>One turn of the redirect loop after its \<^verbatim>\<open>await\<close>.\<close>

definition old_server_error :: js_error where
  "old_server_error = Error (''Detected a connection attempt to an ASP.NET SignalR Server. This client only supports connecting to an ASP.NET Core SignalR Server. ''
     @ ''See https://aka.ms/signalr-core-differences for details.'')"

definition ht_set_token :: "jsval \<Rightarrow> http_connection \<Rightarrow> http_connection result" where
  "ht_set_token accessToken s =
     (if truthy accessToken then
        (case accessToken of
           JStr t \<Rightarrow> Inr (s\<lparr>ht_factory := FixedFactory t, ht_client := \<lparr>at_token = t, at_has_factory = False\<rparr>\<rparr>)
         | _ \<Rightarrow> Inl OutsideModel)
      else Inr s)"

definition ht_negotiated :: "ht_env \<Rightarrow> nat \<Rightarrow> string \<Rightarrow> nat \<Rightarrow> http_response result \<Rightarrow> http_connection \<Rightarrow> http_connection" where
  "ht_negotiated env i u redirects r s0 =
     (case negotiation_response r of
        (Inl e, logged) \<Rightarrow> ht_start_failed i e (s0\<lparr>ht_log := ht_log s0 @ logged\<rparr>)
      | (Inr n, logged) \<Rightarrow>
          (let s = s0\<lparr>ht_log := ht_log s0 @ logged\<rparr> in
           if ht_state s = CDisconnecting \<or> ht_state s = CDisconnected then
             ht_start_failed i (new_AbortError (Some ''The connection was stopped during negotiation.'')) s
           else if truthy (ht_prop n ''error'') then ht_start_failed i (Error (js_to_string (ht_prop n ''error''))) s
           else if truthy (ht_prop n ''ProtocolVersion'') then ht_start_failed i old_server_error s
           else
             (case ht_set_token (ht_prop n ''accessToken'') s of
                Inl e \<Rightarrow> ht_start_failed i e s
              | Inr s1 \<Rightarrow>
                  if truthy (ht_prop n ''url'') \<and> Suc redirects < MAX_REDIRECTS then ht_negotiate env i (ht_prop n ''url'') (Suc redirects) s1
                  else if Suc redirects = MAX_REDIRECTS \<and> truthy (ht_prop n ''url'')
                  then ht_start_failed i (Error ''Negotiate redirection limit exceeded.'') s1
                  else ht_createTransport env i u n s1)))"

definition ht_startInternal :: "ht_env \<Rightarrow> nat \<Rightarrow> http_connection \<Rightarrow> http_connection" where
  "ht_startInternal env i s =
     (let opts = he_options env; url = ht_baseUrl s;
          s1 = s\<lparr>ht_factory := (if ho_factory opts then UserFactory else NoFactory),
                 ht_client := (ht_client s)\<lparr>at_has_factory := ho_factory opts\<rparr>\<rparr> in
      if ho_skipNegotiation opts then
        (if ho_transport opts = ReqTypes HttpTransportType_WebSockets then
           (case constructTransport opts (JNum HttpTransportType_WebSockets) of
              Inl e \<Rightarrow> ht_start_failed i e s1
            | Inr t \<Rightarrow>
                (let s2 = s1\<lparr>ht_transport := Some t\<rparr> in
                 case ht_startTransport url (fst (ht_starts s2 ! i)) s2 of
                   Inl e \<Rightarrow> ht_start_failed i e s2
                 | Inr s3 \<Rightarrow> ht_set_start i AwaitSkipConnect s3))
         else ht_start_failed i (Error ''Negotiation can only be skipped when using the WebSocket transport directly.'') s1)
      else ht_negotiate env i (JStr url) 0 s1)"

definition ht_start :: "ht_env \<Rightarrow> int \<Rightarrow> http_connection \<Rightarrow> http_connection" where
  "ht_start env transferFormat0 s =
     (let transferFormat = (if transferFormat0 = 0 then TransferFormat_Binary else transferFormat0); i = length (ht_starts s) in
      case Arg_isIn (int_to_string transferFormat) TransferFormat_keys ''transferFormat'' of
        Inl e \<Rightarrow> s\<lparr>ht_starts := ht_starts s @ [(transferFormat, StartEnded (Inl e))]\<rparr>
      | Inr _ \<Rightarrow>
          (let s1 = ht_logs LDebug (''Starting connection with transfer format ''
                       @ sq (js_to_string (enum_get TransferFormat_object (JNum transferFormat))) @ ''.'') s in
           if ht_state s1 \<noteq> CDisconnected then
             s1\<lparr>ht_starts := ht_starts s1 @ [(transferFormat,
                 StartEnded (Inl (Error (''Cannot start an HttpConnection that is not in the '' @ sq ''Disconnected'' @ '' state.''))))]\<rparr>
           else
             (ht_startInternal env i (s1\<lparr>ht_state := CConnecting, ht_starts := ht_starts s1 @ [(transferFormat, InnerSettled (Inr ()))]\<rparr>))
               \<lparr>ht_startPromise := Some i\<rparr>))"

text \<open>How \<^verbatim>\<open>connect\<close> of the transport settled.\<close>

definition ht_connected :: "ht_env \<Rightarrow> nat \<Rightarrow> unit result \<Rightarrow> http_connection \<Rightarrow> http_connection" where
  "ht_connected env i r s =
     (case snd (ht_starts s ! i) of
        AwaitSkipConnect \<Rightarrow> (case r of Inl e \<Rightarrow> ht_start_failed i e s | Inr _ \<Rightarrow> ht_start_ok i s)
      | AwaitUserConnect n \<Rightarrow>
          (case r of Inl e \<Rightarrow> ht_start_failed i e s | Inr _ \<Rightarrow> ht_start_ok i (s\<lparr>ht_connectionId := ht_prop n ''connectionId''\<rparr>))
      | AwaitTransport ep \<Rightarrow>
          (case r of Inl ex \<Rightarrow> ht_next_endpoint env i ep ex s
           | Inr _ \<Rightarrow> ht_start_ok i (s\<lparr>ht_connectionId := ht_prop (ep_negotiate ep) ''connectionId''\<rparr>))
      | _ \<Rightarrow> s)"

text \<open>The new negotiation of a later endpoint.\<close>

definition ht_renegotiated :: "ht_env \<Rightarrow> nat \<Rightarrow> endpoint_try \<Rightarrow> http_response result \<Rightarrow> http_connection \<Rightarrow> http_connection" where
  "ht_renegotiated env i ep r s0 =
     (case negotiation_response r of
        (Inl e, logged) \<Rightarrow> ht_start_failed i e (s0\<lparr>ht_log := ht_log s0 @ logged\<rparr>)
      | (Inr n, logged) \<Rightarrow>
          (let s = s0\<lparr>ht_log := ht_log s0 @ logged\<rparr>;
               connectUrl = createConnectUrl (ep_url ep) (ht_prop n ''connectionToken'');
               ep1 = ep\<lparr>ep_connectUrl := connectUrl, ep_negotiate := n\<rparr>
           in case ht_startTransport connectUrl (fst (ht_starts s ! i)) s of
                Inr s1 \<Rightarrow> ht_set_start i (AwaitTransport ep1) s1
              | Inl ex \<Rightarrow> ht_next_endpoint env i ep1 ex s))"

text \<open>\<^verbatim>\<open>start\<close> after \<^verbatim>\<open>_startInternal\<close> has settled.\<close>

definition ht_start_resumes :: "nat \<Rightarrow> unit result \<Rightarrow> http_connection \<Rightarrow> http_connection" where
  "ht_start_resumes i r s =
     (case r of
        Inl e \<Rightarrow> ht_set_start i (StartEnded (Inl e)) s
      | Inr _ \<Rightarrow>
          if ht_state s = CDisconnecting then
            (let s1 = ht_logs LError ''Failed to start the HttpConnection before stop() was called.'' s in
             case ht_stopPromise s1 of
               Some k \<Rightarrow> ht_set_start i (AwaitStopPromise k) s1
             | None \<Rightarrow> ht_set_start i (StartEnded (Inl (new_AbortError (Some ''Failed to start the HttpConnection before stop() was called.'')))) s1)
          else if ht_state s \<noteq> CConnected then
            (let m = ''HttpConnection.startInternal completed gracefully but didn'' @ [CHR 0x27] @ ''t enter the connection into the connected state!'' in
             ht_set_start i (StartEnded (Inl (new_AbortError (Some m)))) (ht_logs LError m s))
          else ht_set_start i (StartEnded (Inr ())) (s\<lparr>ht_started := True\<rparr>))"

definition ht_start_stopped :: "nat \<Rightarrow> http_connection \<Rightarrow> http_connection" where
  "ht_start_stopped i s =
     ht_set_start i (StartEnded (Inl (new_AbortError (Some ''Failed to start the HttpConnection before stop() was called.'')))) s"

section \<open>Sending\<close>

definition ht_send :: "wire_data \<Rightarrow> http_connection \<Rightarrow> http_connection \<times> nat result" where
  "ht_send data s =
     (if ht_state s \<noteq> CConnected
      then (s, Inl (Error (''Cannot send data if the connection is not in the '' @ sq ''Connected'' @ '' State.'')))
      else
        (let s1 = (case ht_sendQueue s of
                     Some _ \<Rightarrow> s
                   | None \<Rightarrow> s\<lparr>ht_sendQueue := Some (length (ht_queues s)), ht_queues := ht_queues s @ [TransportSendQueue_new]\<rparr>);
             n = (case ht_sendQueue s1 of Some n \<Rightarrow> n | None \<Rightarrow> 0)
         in case tq_send data (ht_queues s1 ! n) of
              Inl e \<Rightarrow> (s1, Inl e)
            | Inr (p, q) \<Rightarrow> (s1\<lparr>ht_queues := (ht_queues s1)[n := q]\<rparr>, Inr p)))"

section \<open>Stopping\<close>

definition err_truthy :: "js_error option \<Rightarrow> bool" where
  "err_truthy e = (case e of None \<Rightarrow> False | Some (ThrownString t) \<Rightarrow> t \<noteq> [] | Some _ \<Rightarrow> True)"

definition ht_stop_queue :: "http_connection \<Rightarrow> http_connection" where
  "ht_stop_queue s =
     (case ht_sendQueue s of
        Some n \<Rightarrow> s\<lparr>ht_queues := (ht_queues s)[n := tq_stop (ht_queues s ! n)], ht_sendQueue := None\<rparr>
      | None \<Rightarrow> s)"

text \<open>\<open>oc\<close> is how the application's \<^verbatim>\<open>onclose\<close> ends.\<close>

definition ht_fire_onclose :: "unit result \<Rightarrow> js_error option \<Rightarrow> http_connection \<Rightarrow> http_connection" where
  "ht_fire_onclose oc error s0 =
     (if ht_started s0 then
        (let s = s0\<lparr>ht_started := False\<rparr> in
         if ht_onclose s then
           (let s' = s\<lparr>ht_closes := ht_closes s @ [error]\<rparr> in
            case oc of Inr _ \<Rightarrow> s'
            | Inl e \<Rightarrow> ht_logs LError (''HttpConnection.onclose('' @ opt_err_to_string error @ '') threw error '' @ sq (err_to_string e) @ ''.'') s')
         else s)
      else s0)"

text \<open>The last part of \<^verbatim>\<open>_stopConnection\<close>, in the states where it does something.\<close>

definition ht_disconnect :: "unit result \<Rightarrow> js_error option \<Rightarrow> http_connection \<Rightarrow> http_connection" where
  "ht_disconnect oc error s1 =
     (let s2 = (if ht_state s1 = CDisconnecting then ht_resolveStop s1 else s1);
          s3 = (if err_truthy error then ht_logs LError (''Connection disconnected with error '' @ sq (opt_err_to_string error) @ ''.'') s2
                else ht_logs LInformation ''Connection disconnected.'' s2);
          s4 = ht_stop_queue s3
      in ht_fire_onclose oc error (s4\<lparr>ht_connectionId := JUndef, ht_state := CDisconnected\<rparr>))"

definition ht_stopConnection :: "unit result \<Rightarrow> js_error option \<Rightarrow> http_connection \<Rightarrow> http_connection \<times> unit result" where
  "ht_stopConnection oc error0 s0 =
     (let s1 = (ht_logs LDebug (''HttpConnection.stopConnection('' @ opt_err_to_string error0 @ '') called while in state ''
                   @ conn_state_name (ht_state s0) @ ''.'') s0)\<lparr>ht_transport := None, ht_stopError := None\<rparr>;
          error = (if err_truthy (ht_stopError s0) then ht_stopError s0 else error0) in
      case ht_state s0 of
        CDisconnected \<Rightarrow>
          (ht_logs LDebug (''Call to HttpConnection.stopConnection('' @ opt_err_to_string error
             @ '') was ignored because the connection is already in the disconnected state.'') s1, Inr ())
      | CConnecting \<Rightarrow>
          (ht_logs LWarning (''Call to HttpConnection.stopConnection('' @ opt_err_to_string error
             @ '') was ignored because the connection is still in the connecting state.'') s1,
           Inl (Error (''HttpConnection.stopConnection('' @ opt_err_to_string error
             @ '') was called while the connection is still in the connecting state.'')))
      | _ \<Rightarrow> (ht_disconnect oc error s1, Inr ()))"

definition ht_stop :: "js_error option \<Rightarrow> http_connection \<Rightarrow> http_connection" where
  "ht_stop error s =
     (case ht_state s of
        CDisconnected \<Rightarrow>
          (ht_logs LDebug (''Call to HttpConnection.stop('' @ opt_err_to_string error
             @ '') ignored because the connection is already in the disconnected state.'') s)
            \<lparr>ht_stops := ht_stops s @ [StopEnded (Inr ())]\<rparr>
      | CDisconnecting \<Rightarrow>
          (ht_logs LDebug (''Call to HttpConnection.stop('' @ opt_err_to_string error
             @ '') ignored because the connection is already in the disconnecting state.'') s)
            \<lparr>ht_stops := ht_stops s @ [case ht_stopPromise s of Some k \<Rightarrow> AwaitStopped k | None \<Rightarrow> StopEnded (Inr ())]\<rparr>
      | _ \<Rightarrow>
          s\<lparr>ht_state := CDisconnecting, ht_stopPromises := ht_stopPromises s @ [False],
             ht_stopPromise := Some (length (ht_stopPromises s)), ht_stopError := error,
             ht_stops := ht_stops s @ [AwaitStart (ht_startPromise s)]\<rparr>)"

text \<open>The end of \<^verbatim>\<open>_stopInternal\<close>, then the wait for the stop promise.\<close>

definition ht_await_stopped :: "nat \<Rightarrow> http_connection \<Rightarrow> http_connection" where
  "ht_await_stopped k s = ht_set_stop k (case ht_stopPromise s of Some p \<Rightarrow> AwaitStopped p | None \<Rightarrow> StopEnded (Inr ())) s"

text \<open>\<^verbatim>\<open>_stopInternal\<close> once \<^verbatim>\<open>_startInternalPromise\<close> has settled.\<close>

definition ht_stop_resumes :: "nat \<Rightarrow> http_connection \<Rightarrow> http_connection" where
  "ht_stop_resumes k s =
     (case ht_transport s of
        Some _ \<Rightarrow> ht_set_stop k AwaitTransportStop s
      | None \<Rightarrow> ht_await_stopped k (ht_logs LDebug ''HttpConnection.transport is undefined in HttpConnection.stop() because start() failed.'' s))"

text \<open>How \<^verbatim>\<open>transport.stop()\<close> settled.\<close>

definition ht_transport_stopped :: "nat \<Rightarrow> unit result \<Rightarrow> unit result \<Rightarrow> http_connection \<Rightarrow> http_connection" where
  "ht_transport_stopped k r oc s =
     (case r of
        Inr _ \<Rightarrow> ht_await_stopped k (s\<lparr>ht_transport := None\<rparr>)
      | Inl e \<Rightarrow>
          (case ht_stopConnection oc None
                  (ht_logs LError (''HttpConnection.transport.stop() threw error '' @ sq (err_to_string e) @ ''.'') s) of
             (s1, Inl e') \<Rightarrow> ht_set_stop k (StopEnded (Inl e')) s1
           | (s1, Inr _) \<Rightarrow> ht_await_stopped k (s1\<lparr>ht_transport := None\<rparr>)))"

section \<open>Steps\<close>

datatype ht_event =
    HtStart int
  | HtNegotiated nat "http_response result"
  | HtRenegotiated nat "http_response result"
  | HtConnected nat "unit result"
  | HtStartResumes nat
  | HtStartStopped nat
  | HtSend wire_data "nat result"
  | HtStop "js_error option"
  | HtStopResumes nat
  | HtTransportStopped nat "unit result" "unit result"
  | HtStopped nat
  | HtClosed "js_error option" "unit result" "unit result"
  | HtQueue nat tq_event

fun inner_settled :: "ht_start_at \<Rightarrow> bool" where
  "inner_settled (AwaitStopPromise _) = True"
| "inner_settled (StartEnded _) = True"
| "inner_settled _ = False"

text \<open>
  A call of \<^verbatim>\<open>stop\<close> waits for \<^verbatim>\<open>_startInternalPromise\<close> behind the \<^verbatim>\<open>start\<close> that created it: reactions to a
  promise run in the order they were added. \<open>HtClosed e r\<close>: a transport calls its \<^verbatim>\<open>onclose\<close> with \<open>e\<close>, and
  the call ends with \<open>r\<close>. The send queues take their own steps.
\<close>

inductive ht_step :: "ht_env \<Rightarrow> http_connection \<Rightarrow> ht_event \<Rightarrow> http_connection \<Rightarrow> bool" for env where
  hs_start: "ht_step env s (HtStart tf) (ht_start env tf s)"
| hs_negotiated: "i < length (ht_starts s) \<Longrightarrow> snd (ht_starts s ! i) = AwaitNegotiate u n \<Longrightarrow>
    ht_step env s (HtNegotiated i r) (ht_negotiated env i u n r s)"
| hs_renegotiated: "i < length (ht_starts s) \<Longrightarrow> snd (ht_starts s ! i) = AwaitRenegotiate ep \<Longrightarrow>
    ht_step env s (HtRenegotiated i r) (ht_renegotiated env i ep r s)"
| hs_connected: "i < length (ht_starts s) \<Longrightarrow>
    snd (ht_starts s ! i) = AwaitSkipConnect \<or> (\<exists>n. snd (ht_starts s ! i) = AwaitUserConnect n) \<or> (\<exists>ep. snd (ht_starts s ! i) = AwaitTransport ep) \<Longrightarrow>
    ht_step env s (HtConnected i r) (ht_connected env i r s)"
| hs_start_resumes: "i < length (ht_starts s) \<Longrightarrow> snd (ht_starts s ! i) = InnerSettled r \<Longrightarrow>
    ht_step env s (HtStartResumes i) (ht_start_resumes i r s)"
| hs_start_stopped: "i < length (ht_starts s) \<Longrightarrow> snd (ht_starts s ! i) = AwaitStopPromise k \<Longrightarrow> ht_stopPromises s ! k \<Longrightarrow>
    ht_step env s (HtStartStopped i) (ht_start_stopped i s)"
| hs_send: "ht_send d s = (s', r) \<Longrightarrow> ht_step env s (HtSend d r) s'"
| hs_stop: "ht_step env s (HtStop e) (ht_stop e s)"
| hs_stop_resumes: "k < length (ht_stops s) \<Longrightarrow> ht_stops s ! k = AwaitStart p \<Longrightarrow>
    (\<forall>i. p = Some i \<longrightarrow> inner_settled (snd (ht_starts s ! i))) \<Longrightarrow> ht_step env s (HtStopResumes k) (ht_stop_resumes k s)"
| hs_transport_stopped: "k < length (ht_stops s) \<Longrightarrow> ht_stops s ! k = AwaitTransportStop \<Longrightarrow>
    ht_step env s (HtTransportStopped k r oc) (ht_transport_stopped k r oc s)"
| hs_stopped: "k < length (ht_stops s) \<Longrightarrow> ht_stops s ! k = AwaitStopped p \<Longrightarrow> ht_stopPromises s ! p \<Longrightarrow>
    ht_step env s (HtStopped k) (ht_set_stop k (StopEnded (Inr ())) s)"
| hs_closed: "ht_connects s \<noteq> [] \<Longrightarrow> ht_stopConnection oc e s = (s', r) \<Longrightarrow> ht_step env s (HtClosed e r oc) s'"
| hs_queue: "n < length (ht_queues s) \<Longrightarrow> e \<in> {TqResume} \<union> range TqSettled \<Longrightarrow> tq_step (ht_queues s ! n) e q \<Longrightarrow>
    ht_step env s (HtQueue n e) (s\<lparr>ht_queues := (ht_queues s)[n := q]\<rparr>)"

inductive_cases ht_stepE: "ht_step env s e s'"

end
