(* ===== verification/Sr_HttpLifecycle.thy ===== *)
theory Sr_HttpLifecycle
  imports Sr_HttpConnection
begin

text \<open>
  What holds of every run of an HttpConnection: stop promises are pending only while the connection is
  disconnecting, the application hears of at most one close per successful start, the redirects of one
  start are bounded; how endpoints are chosen; and a run in which \<^verbatim>\<open>stop\<close> never ends.
\<close>

section \<open>What the inside of \<^verbatim>\<open>start\<close> changes\<close>

text \<open>The fields the invariant is about.\<close>

definition ht_core :: "http_connection \<Rightarrow>
    conn_state \<times> bool list \<times> nat option \<times> ht_stop_at list \<times> bool \<times> js_error option list \<times> (int \<times> ht_start_at) list" where
  "ht_core s = (ht_state s, ht_stopPromises s, ht_stopPromise s, ht_stops s, ht_started s, ht_closes s, ht_starts s)"

fun start_inside :: "ht_start_at \<Rightarrow> bool" where
  "start_inside (AwaitNegotiate _ n) = (n < MAX_REDIRECTS)"
| "start_inside (AwaitStopPromise _) = False"
| "start_inside (StartEnded _) = False"
| "start_inside _ = True"

definition start_moved :: "nat \<Rightarrow> http_connection \<Rightarrow> http_connection \<Rightarrow> bool" where
  "start_moved i s s' \<longleftrightarrow>
     (\<exists>a st. start_inside a \<and>
        ((st = CDisconnected \<and>
          ht_core s' = (st, ht_stopPromises (ht_resolveStop s), ht_stopPromise s, ht_stops s, ht_started s, ht_closes s,
             (ht_starts s)[i := (fst (ht_starts s ! i), a)])) \<or>
         ((st = ht_state s \<or> ht_state s = CConnecting \<and> st = CConnected) \<and>
          ht_core s' = (st, ht_stopPromises s, ht_stopPromise s, ht_stops s, ht_started s, ht_closes s,
             (ht_starts s)[i := (fst (ht_starts s ! i), a)]))))"

lemma start_moved_core: "ht_core s1 = ht_core s \<Longrightarrow> start_moved i s1 s' \<Longrightarrow> start_moved i s s'"
  by (cases s; cases s1) (simp add: start_moved_def ht_core_def ht_resolveStop_def split: option.splits)

lemma core_logs [simp]: "ht_core (ht_logs l m s) = ht_core s"
  by (simp add: ht_core_def ht_logs_def)

lemma core_updates [simp]:
  "ht_core (s\<lparr>ht_log := x\<rparr>) = ht_core s" "ht_core (s\<lparr>ht_transport := t\<rparr>) = ht_core s" "ht_core (s\<lparr>ht_connects := c\<rparr>) = ht_core s"
  "ht_core (s\<lparr>ht_connectionId := v\<rparr>) = ht_core s" "ht_core (s\<lparr>ht_requests := rs\<rparr>) = ht_core s" "ht_core (s\<lparr>ht_factory := f\<rparr>) = ht_core s"
  "ht_core (s\<lparr>ht_client := cl\<rparr>) = ht_core s" "ht_core (s\<lparr>ht_inherentKeepAlive := b\<rparr>) = ht_core s"
  "ht_core (s\<lparr>ht_startPromise := sp\<rparr>) = ht_core s" "ht_core (s\<lparr>ht_queues := qs\<rparr>) = ht_core s" "ht_core (s\<lparr>ht_sendQueue := q\<rparr>) = ht_core s"
  "ht_core (s\<lparr>ht_stopError := e\<rparr>) = ht_core s"
  by (simp_all add: ht_core_def)

lemma start_moved_failed: "start_moved i s (ht_start_failed i e s)"
  unfolding start_moved_def
  by (rule exI [of _ "InnerSettled (Inl e)"], rule exI [of _ CDisconnected])
     (auto simp: ht_start_failed_def ht_set_start_def ht_core_def ht_resolveStop_def ht_logs_def split: option.split)

lemma start_moved_ok: "start_moved i s (ht_start_ok i s)"
  unfolding start_moved_def
  by (rule exI [of _ "InnerSettled (Inr ())"], rule exI [of _ "ht_state (ht_start_ok i s)"])
     (auto simp: ht_start_ok_def ht_set_start_def ht_core_def ht_logs_def Let_def)

lemma start_moved_set:
  assumes "start_inside a" "ht_core s1 = ht_core s"
  shows "start_moved i s (ht_set_start i a s1)"
  unfolding start_moved_def
  by (rule exI [of _ a], rule exI [of _ "ht_state s"])
     (use assms in \<open>auto simp: ht_set_start_def ht_core_def\<close>)

lemma core_transport_failed [simp]: "ht_core (ht_transport_failed ep ex s) = ht_core s"
  by (simp add: ht_transport_failed_def Let_def)

lemma core_send_negotiate [simp]: "ht_core (ht_send_negotiate env url s) = ht_core s"
  by (simp add: ht_send_negotiate_def Let_def)

lemma core_startTransport: "ht_startTransport url f s = Inr s' \<Longrightarrow> ht_core s' = ht_core s"
  by (auto simp: ht_startTransport_def split: option.splits)

lemma core_set_token: "ht_set_token v s = Inr s' \<Longrightarrow> ht_core s' = ht_core s"
  by (auto simp: ht_set_token_def split: if_splits jsval.splits)

lemma start_moved_failed_core: "ht_core s1 = ht_core s \<Longrightarrow> start_moved i s (ht_start_failed i e s1)"
  using start_moved_core [OF _ start_moved_failed] by blast

lemma start_moved_ok_core: "ht_core s1 = ht_core s \<Longrightarrow> start_moved i s (ht_start_ok i s1)"
  using start_moved_core [OF _ start_moved_ok] by blast

lemma start_moved_try: "ht_core s1 = ht_core s \<Longrightarrow> start_moved i s (ht_try env i url cu ng excs eps s1)"
proof (induction eps arbitrary: ng excs s1)
  case Nil
  then show ?case by (simp add: start_moved_failed_core)
next
  case (Cons ep eps)
  show ?case
    using Cons.prems core_startTransport
    by (auto simp: Let_def intro!: start_moved_failed_core start_moved_set Cons.IH split: sum.split option.split prod.split)
qed

lemma start_moved_next: "ht_core s1 = ht_core s \<Longrightarrow> start_moved i s (ht_next_endpoint env i ep ex s1)"
  by (auto simp: ht_next_endpoint_def Let_def intro: start_moved_failed_core start_moved_try)

lemma start_moved_create: "ht_core s1 = ht_core s \<Longrightarrow> start_moved i s (ht_createTransport env i url n s1)"
  using core_startTransport
  by (auto simp: ht_createTransport_def Let_def intro!: start_moved_failed_core start_moved_set start_moved_try split: sum.split)

lemma start_moved_negotiate: "k < MAX_REDIRECTS \<Longrightarrow> ht_core s1 = ht_core s \<Longrightarrow> start_moved i s (ht_negotiate env i url k s1)"
  by (auto simp: ht_negotiate_def intro!: start_moved_failed_core start_moved_set split: sum.split)

lemma start_moved_negotiated: "start_moved i s (ht_negotiated env i u k r s)"
  using core_set_token
  by (auto simp: ht_negotiated_def Let_def intro!: start_moved_failed_core start_moved_create start_moved_negotiate split: sum.split prod.split)

lemma start_moved_renegotiated: "start_moved i s (ht_renegotiated env i ep r s)"
  using core_startTransport
  by (auto simp: ht_renegotiated_def Let_def intro!: start_moved_failed_core start_moved_next start_moved_set split: sum.split prod.split)

lemma start_moved_connected:
  "snd (ht_starts s ! i) = AwaitSkipConnect \<or> (\<exists>n. snd (ht_starts s ! i) = AwaitUserConnect n) \<or> (\<exists>ep. snd (ht_starts s ! i) = AwaitTransport ep)
   \<Longrightarrow> start_moved i s (ht_connected env i r s)"
  by (auto simp: ht_connected_def intro!: start_moved_failed_core start_moved_next start_moved_ok_core split: sum.split)

lemma start_moved_internal: "start_moved i s (ht_startInternal env i s)"
  using core_startTransport
  by (auto simp: ht_startInternal_def Let_def MAX_REDIRECTS_def
      intro!: start_moved_failed_core start_moved_set start_moved_negotiate split: sum.split)

section \<open>The invariant\<close>

definition succeeded :: "http_connection \<Rightarrow> nat" where
  "succeeded s = length (filter (\<lambda>f. snd f = StartEnded (Inr ())) (ht_starts s))"

fun start_at_ok :: "nat \<Rightarrow> ht_start_at \<Rightarrow> bool" where
  "start_at_ok m (AwaitStopPromise k) = (k < m)"
| "start_at_ok m (AwaitNegotiate _ n) = (n < MAX_REDIRECTS)"
| "start_at_ok m _ = True"

fun stop_at_ok :: "nat \<Rightarrow> ht_stop_at \<Rightarrow> bool" where
  "stop_at_ok m (AwaitStopped k) = (k < m)"
| "stop_at_ok m _ = True"

definition ht_inv :: "http_connection \<Rightarrow> bool" where
  "ht_inv s \<longleftrightarrow>
     (\<forall>k < length (ht_stopPromises s). \<not> ht_stopPromises s ! k \<longrightarrow> ht_stopPromise s = Some k \<and> ht_state s = CDisconnecting) \<and>
     (\<forall>k. ht_stopPromise s = Some k \<longrightarrow> k < length (ht_stopPromises s)) \<and>
     (ht_state s = CDisconnecting \<longrightarrow> (\<exists>k. ht_stopPromise s = Some k \<and> \<not> ht_stopPromises s ! k)) \<and>
     (\<forall>f \<in> set (ht_starts s). start_at_ok (length (ht_stopPromises s)) (snd f)) \<and>
     (\<forall>a \<in> set (ht_stops s). stop_at_ok (length (ht_stopPromises s)) a) \<and>
     length (ht_closes s) + (if ht_started s then 1 else 0) \<le> succeeded s"

text \<open>The same, as a predicate of the fields it reads.\<close>

definition core_inv :: "conn_state \<times> bool list \<times> nat option \<times> ht_stop_at list \<times> bool \<times> js_error option list \<times> (int \<times> ht_start_at) list \<Rightarrow> bool" where
  "core_inv c = (case c of (st, ps, p, stops, started, cls, starts) \<Rightarrow>
     (\<forall>k < length ps. \<not> ps ! k \<longrightarrow> p = Some k \<and> st = CDisconnecting) \<and>
     (\<forall>k. p = Some k \<longrightarrow> k < length ps) \<and>
     (st = CDisconnecting \<longrightarrow> (\<exists>k. p = Some k \<and> \<not> ps ! k)) \<and>
     (\<forall>f \<in> set starts. start_at_ok (length ps) (snd f)) \<and>
     (\<forall>a \<in> set stops. stop_at_ok (length ps) a) \<and>
     length cls + (if started then 1 else 0) \<le> length (filter (\<lambda>f. snd f = StartEnded (Inr ())) starts))"

lemma ht_inv_core: "ht_inv s = core_inv (ht_core s)"
  by (simp add: ht_inv_def core_inv_def ht_core_def succeeded_def)

lemma ht_inv_same: "ht_core s' = ht_core s \<Longrightarrow> ht_inv s \<Longrightarrow> ht_inv s'"
  by (simp add: ht_inv_core)

lemma start_inside_ok: "start_inside a \<Longrightarrow> start_at_ok m a \<and> a \<noteq> StartEnded r"
  by (cases a) auto

lemma length_filter_upd:
  assumes "i < length xs"
  shows "length (filter P (xs[i := x])) + (if P (xs ! i) then 1 else 0) = length (filter P xs) + (if P x then 1 else 0)"
proof -
  have "filter P xs = filter P (take i xs @ xs ! i # drop (Suc i) xs)" using id_take_nth_drop [OF assms] by simp
  then show ?thesis using assms by (simp add: upd_conv_take_nth_drop)
qed

text \<open>A step inside \<^verbatim>\<open>start\<close> keeps the invariant.\<close>

lemma core_invD:
  assumes "core_inv (st, ps, p, stops, started, cls, starts)"
  shows "\<forall>k < length ps. \<not> ps ! k \<longrightarrow> p = Some k \<and> st = CDisconnecting" "\<forall>k. p = Some k \<longrightarrow> k < length ps"
    "st = CDisconnecting \<longrightarrow> (\<exists>k. p = Some k \<and> \<not> ps ! k)" "\<forall>f \<in> set starts. start_at_ok (length ps) (snd f)"
    "\<forall>a \<in> set stops. stop_at_ok (length ps) a"
    "length cls + (if started then 1 else 0) \<le> length (filter (\<lambda>f. snd f = StartEnded (Inr ())) starts)"
proof -
  note c = assms [unfolded core_inv_def prod.case]
  show "\<forall>k < length ps. \<not> ps ! k \<longrightarrow> p = Some k \<and> st = CDisconnecting" by (rule c [THEN conjunct1])
  show "\<forall>k. p = Some k \<longrightarrow> k < length ps" by (rule c [THEN conjunct2, THEN conjunct1])
  show "st = CDisconnecting \<longrightarrow> (\<exists>k. p = Some k \<and> \<not> ps ! k)" by (rule c [THEN conjunct2, THEN conjunct2, THEN conjunct1])
  show "\<forall>f \<in> set starts. start_at_ok (length ps) (snd f)" by (rule c [THEN conjunct2, THEN conjunct2, THEN conjunct2, THEN conjunct1])
  show "\<forall>a \<in> set stops. stop_at_ok (length ps) a"
    by (rule c [THEN conjunct2, THEN conjunct2, THEN conjunct2, THEN conjunct2, THEN conjunct1])
  show "length cls + (if started then 1 else 0) \<le> length (filter (\<lambda>f. snd f = StartEnded (Inr ())) starts)"
    by (rule c [THEN conjunct2, THEN conjunct2, THEN conjunct2, THEN conjunct2, THEN conjunct2])
qed

lemma core_invI:
  assumes "\<forall>k < length ps. \<not> ps ! k \<longrightarrow> p = Some k \<and> st = CDisconnecting" "\<forall>k. p = Some k \<longrightarrow> k < length ps"
    "st = CDisconnecting \<longrightarrow> (\<exists>k. p = Some k \<and> \<not> ps ! k)" "\<forall>f \<in> set starts. start_at_ok (length ps) (snd f)"
    "\<forall>a \<in> set stops. stop_at_ok (length ps) a"
    "length cls + (if started then 1 else 0) \<le> length (filter (\<lambda>f. snd f = StartEnded (Inr ())) starts)"
  shows "core_inv (st, ps, p, stops, started, cls, starts)"
  unfolding core_inv_def prod.case by (intro conjI assms)

lemma core_inv_start:
  assumes "core_inv (st, ps, p, stops, started, cls, starts)" "i < length starts" "snd (starts ! i) \<noteq> StartEnded (Inr ())" "start_inside a"
    and "st' = CDisconnected \<and> ps' = (case p of None \<Rightarrow> ps | Some k \<Rightarrow> ps[k := True]) \<or>
         ps' = ps \<and> (st' = st \<or> st = CConnecting \<and> st' = CConnected)"
  shows "core_inv (st', ps', p, stops, started, cls, starts[i := (f, a)])"
proof -
  have n: "length (filter (\<lambda>f. snd f = StartEnded (Inr ())) (starts[i := (f, a)])) = length (filter (\<lambda>f. snd f = StartEnded (Inr ())) starts)"
    using length_filter_upd [OF assms(2), of "\<lambda>f. snd f = StartEnded (Inr ())" "(f, a)"] assms(3) start_inside_ok [OF assms(4)] by simp
  have s: "\<forall>f \<in> set (starts[i := (f, a)]). start_at_ok (length ps) (snd f)"
  proof
    fix x assume "x \<in> set (starts[i := (f, a)])"
    then have "x = (f, a) \<or> x \<in> set starts" using set_update_subset_insert [of starts i "(f, a)"] by auto
    then show "start_at_ok (length ps) (snd x)" using start_inside_ok [OF assms(4)] core_invD(4) [OF assms(1)] by auto
  qed
  have l: "length ps' = length ps" using assms(5) by (auto split: option.splits)
  have k: "\<forall>k < length ps'. \<not> ps' ! k \<longrightarrow> p = Some k \<and> st' = CDisconnecting"
  proof (intro allI impI)
    fix k assume k: "k < length ps'" "\<not> ps' ! k"
    have "\<not> ps ! k"
    proof (cases "ps' = ps")
      case False
      then obtain j where "ps' = ps[j := True]" using assms(5) by (cases p) auto
      then show ?thesis using k by (cases "j = k") auto
    qed (use k in simp)
    then have "p = Some k \<and> st = CDisconnecting" using core_invD(1) [OF assms(1)] k(1) unfolding l by blast
    then show "p = Some k \<and> st' = CDisconnecting" using assms(5) k l by auto
  qed
  have d: "st' = CDisconnecting \<longrightarrow> (\<exists>k. p = Some k \<and> \<not> ps' ! k)" using core_invD(3) [OF assms(1)] assms(5) by auto
  show ?thesis
    by (rule core_invI) (rule k, unfold n l, rule core_invD(2) [OF assms(1)], rule d, rule s, rule core_invD(5) [OF assms(1)], rule core_invD(6) [OF assms(1)])
qed

lemma ht_inv_moved:
  assumes "ht_inv s" "start_moved i s s'" "i < length (ht_starts s)" "snd (ht_starts s ! i) \<noteq> StartEnded (Inr ())"
  shows "ht_inv s'"
proof -
  have r: "ht_stopPromises (ht_resolveStop s) = (case ht_stopPromise s of None \<Rightarrow> ht_stopPromises s | Some k \<Rightarrow> (ht_stopPromises s)[k := True])"
    by (simp add: ht_resolveStop_def split: option.split)
  from assms(2) obtain a st ps where a: "start_inside a"
    and c: "ht_core s' = (st, ps, ht_stopPromise s, ht_stops s, ht_started s, ht_closes s, (ht_starts s)[i := (fst (ht_starts s ! i), a)])"
    and v: "st = CDisconnected \<and> ps = ht_stopPromises (ht_resolveStop s) \<or>
      ps = ht_stopPromises s \<and> (st = ht_state s \<or> ht_state s = CConnecting \<and> st = CConnected)"
    unfolding start_moved_def by blast
  show ?thesis
    unfolding ht_inv_core c
    by (rule core_inv_start [OF assms(1) [unfolded ht_inv_core ht_core_def] assms(3,4) a v [unfolded r]])
qed

lemma core_inv_set_stop:
  assumes "core_inv (st, ps, p, stops, started, cls, starts)" "stop_at_ok (length ps) a"
  shows "core_inv (st, ps, p, stops[k := a], started, cls, starts)"
proof -
  have "\<forall>x \<in> set (stops[k := a]). stop_at_ok (length ps) x"
    using core_invD(5) [OF assms(1)] assms(2) set_update_subset_insert [of stops k a] by auto
  then show ?thesis
    using core_invD(1,2,3,4,6) [OF assms(1)] by (intro core_invI) assumption+
qed

lemma core_inv_add_stop:
  assumes "core_inv (st, ps, p, stops, started, cls, starts)" "stop_at_ok (length ps) a"
  shows "core_inv (st, ps, p, stops @ [a], started, cls, starts)"
proof -
  have "\<forall>x \<in> set (stops @ [a]). stop_at_ok (length ps) x" using core_invD(5) [OF assms(1)] assms(2) by auto
  then show ?thesis using core_invD(1,2,3,4,6) [OF assms(1)] by (intro core_invI) assumption+
qed

lemma core_inv_add_start:
  assumes "core_inv (st, ps, p, stops, started, cls, starts)" "start_at_ok (length ps) a" "a \<noteq> StartEnded (Inr ())"
    "st' = st \<or> st = CDisconnected \<and> st' = CConnecting"
  shows "core_inv (st', ps, p, stops, started, cls, starts @ [(f, a)])"
proof (rule core_invI)
  show "\<forall>k < length ps. \<not> ps ! k \<longrightarrow> p = Some k \<and> st' = CDisconnecting" using core_invD(1) [OF assms(1)] assms(4) by auto
  show "st' = CDisconnecting \<longrightarrow> (\<exists>k. p = Some k \<and> \<not> ps ! k)" using core_invD(3) [OF assms(1)] assms(4) by auto
  show "\<forall>f \<in> set (starts @ [(f, a)]). start_at_ok (length ps) (snd f)" using core_invD(4) [OF assms(1)] assms(2) by auto
  show "length cls + (if started then 1 else 0) \<le> length (filter (\<lambda>f. snd f = StartEnded (Inr ())) (starts @ [(f, a)]))"
    using core_invD(6) [OF assms(1)] assms(3) by simp
qed (rule core_invD [OF assms(1)])+

lemma ht_inv_set_stop: "ht_inv s \<Longrightarrow> stop_at_ok (length (ht_stopPromises s)) a \<Longrightarrow> ht_inv (ht_set_stop k a s)"
  using core_inv_set_stop by (auto simp: ht_inv_core ht_core_def ht_set_stop_def)

lemma ht_inv_await_stopped: "ht_inv s \<Longrightarrow> ht_inv (ht_await_stopped k s)"
  unfolding ht_await_stopped_def
  by (rule ht_inv_set_stop) (auto simp: ht_inv_core ht_core_def dest: core_invD(2) split: option.split)

lemma ht_inv_start:
  assumes "ht_inv s"
  shows "ht_inv (ht_start env tf s)"
proof -
  define f where "f = (if tf = 0 then TransferFormat_Binary else tf)"
  let ?m = "''Starting connection with transfer format '' @ sq (js_to_string (enum_get TransferFormat_object (JNum f))) @ ''.''"
  have c: "core_inv (ht_state s, ht_stopPromises s, ht_stopPromise s, ht_stops s, ht_started s, ht_closes s, ht_starts s)"
    using assms by (simp add: ht_inv_core ht_core_def)
  have rej: "ht_inv (s1\<lparr>ht_starts := ht_starts s1 @ [(f, StartEnded (Inl e))]\<rparr>)" if "ht_core s1 = ht_core s" for s1 e
    using core_inv_add_start [OF c, of "StartEnded (Inl e)" "ht_state s" f] that
    by (simp add: ht_inv_core ht_core_def)
  let ?s1 = "ht_logs LDebug ?m s"
  let ?s2 = "?s1\<lparr>ht_state := CConnecting, ht_starts := ht_starts ?s1 @ [(f, InnerSettled (Inr ()))]\<rparr>"
  let ?i = "length (ht_starts s)"
  have go: "ht_inv (ht_startInternal env ?i ?s2)" if "ht_state s = CDisconnected"
  proof (rule ht_inv_moved [OF _ start_moved_internal])
    show "ht_inv ?s2"
      using core_inv_add_start [OF c, of "InnerSettled (Inr ())" CConnecting f] that
      by (simp add: ht_inv_core ht_core_def ht_logs_def)
  qed (simp_all add: ht_logs_def)
  have go': "ht_inv ((ht_startInternal env ?i ?s2)\<lparr>ht_startPromise := Some ?i\<rparr>)" if "ht_state s = CDisconnected"
    by (rule ht_inv_same [OF _ go [OF that]]) simp
  show ?thesis
  proof (cases "Arg_isIn (int_to_string f) TransferFormat_keys ''transferFormat''")
    case (Inl e)
    then have "ht_start env tf s = s\<lparr>ht_starts := ht_starts s @ [(f, StartEnded (Inl e))]\<rparr>"
      by (simp only: ht_start_def Let_def f_def [symmetric] Inl sum.case)
    then show ?thesis using rej by simp
  next
    case (Inr u)
    have "ht_start env tf s =
      (if ht_state ?s1 \<noteq> CDisconnected then
         ?s1\<lparr>ht_starts := ht_starts ?s1 @ [(f, StartEnded (Inl (Error (''Cannot start an HttpConnection that is not in the '' @ sq ''Disconnected'' @ '' state.''))))]\<rparr>
       else (ht_startInternal env ?i ?s2)\<lparr>ht_startPromise := Some ?i\<rparr>)"
      by (simp only: ht_start_def Let_def f_def [symmetric] Inr sum.case)
    then show ?thesis
      using rej [OF core_logs] go' by (cases "ht_state s = CDisconnected") (simp_all only: if_True if_False ht_logs_def, simp_all)
  qed
qed

text \<open>The transitions out of and into the disconnecting state.\<close>

lemma core_inv_disconnect:
  assumes "core_inv (st, ps, p, stops, started, cls, starts)" "ps' = (case p of None \<Rightarrow> ps | Some k \<Rightarrow> ps[k := True]) \<or> ps' = ps \<and> st \<noteq> CDisconnecting"
    and "length cls' + (if started' then 1 else 0) \<le> length cls + (if started then 1 else 0 :: nat)"
  shows "core_inv (CDisconnected, ps', p, stops, started', cls', starts)"
proof -
  have l: "length ps' = length ps" using assms(2) by (auto split: option.splits)
  have "ps' ! k" if k: "k < length ps'" for k
  proof (rule ccontr)
    assume n: "\<not> ps' ! k"
    have "\<not> ps ! k \<and> (p = Some k \<longrightarrow> ps' = ps \<and> st \<noteq> CDisconnecting)"
    proof (cases "ps' = ps")
      case True
      with n have m: "\<not> ps ! k" by simp
      have "ps' = ps[k := True] \<Longrightarrow> ps' ! k" using k by auto
      with n assms(2) m show ?thesis by auto
    next
      case False
      then obtain j where j: "p = Some j" "ps' = ps[j := True]" using assms(2) by (cases p) auto
      then show ?thesis using n k by (cases "j = k") auto
    qed
    then show False using core_invD(1) [OF assms(1)] k unfolding l by auto
  qed
  then show ?thesis
    using core_invD(2,4,5,6) [OF assms(1)] assms(3) unfolding l [symmetric]
    by (intro core_invI) (blast, assumption, simp, assumption, assumption, linarith)
qed

lemma ht_logs_simps [simp]:
  "ht_state (ht_logs l m s) = ht_state s" "ht_stopPromises (ht_logs l m s) = ht_stopPromises s" "ht_stopPromise (ht_logs l m s) = ht_stopPromise s"
  "ht_stops (ht_logs l m s) = ht_stops s" "ht_started (ht_logs l m s) = ht_started s" "ht_closes (ht_logs l m s) = ht_closes s"
  "ht_starts (ht_logs l m s) = ht_starts s" "ht_onclose (ht_logs l m s) = ht_onclose s" "ht_sendQueue (ht_logs l m s) = ht_sendQueue s"
  "ht_queues (ht_logs l m s) = ht_queues s" "ht_stopError (ht_logs l m s) = ht_stopError s" "ht_transport (ht_logs l m s) = ht_transport s"
  "ht_connects (ht_logs l m s) = ht_connects s" "ht_requests (ht_logs l m s) = ht_requests s" "ht_baseUrl (ht_logs l m s) = ht_baseUrl s"
  by (simp_all add: ht_logs_def)

lemma ht_resolveStop_simps [simp]:
  "ht_state (ht_resolveStop s) = ht_state s" "ht_stopPromise (ht_resolveStop s) = ht_stopPromise s"
  "ht_stops (ht_resolveStop s) = ht_stops s" "ht_started (ht_resolveStop s) = ht_started s" "ht_closes (ht_resolveStop s) = ht_closes s"
  "ht_starts (ht_resolveStop s) = ht_starts s" "ht_onclose (ht_resolveStop s) = ht_onclose s" "ht_sendQueue (ht_resolveStop s) = ht_sendQueue s"
  "ht_queues (ht_resolveStop s) = ht_queues s"
  by (simp_all add: ht_resolveStop_def split: option.split)

lemma ht_resolveStop_promises:
  "ht_stopPromises s1 = ht_stopPromises s \<Longrightarrow> ht_stopPromise s1 = ht_stopPromise s \<Longrightarrow>
   ht_stopPromises (ht_resolveStop s1) = ht_stopPromises (ht_resolveStop s)"
  by (simp add: ht_resolveStop_def split: option.split)

lemma ht_stopConnection_ignored:
  assumes "ht_state s \<in> {CDisconnected, CConnecting}" "ht_stopConnection oc e s = (s', r)"
  shows "ht_core s' = ht_core s"
  using assms by (auto simp: ht_stopConnection_def Let_def simp del: append_Cons append.simps)

lemma core_stop_queue [simp]: "ht_core (ht_stop_queue s) = ht_core s"
  by (simp add: ht_stop_queue_def split: option.split)

lemma ht_fire_onclose_core:
  "\<exists>cls. ht_core (ht_fire_onclose oc e s) =
     (ht_state s, ht_stopPromises s, ht_stopPromise s, ht_stops s, False, ht_closes s @ cls, ht_starts s) \<and>
     cls = (if ht_started s \<and> ht_onclose s then [e] else [])"
  by (cases oc) (simp_all add: ht_fire_onclose_def ht_core_def Let_def)

lemma ht_disconnect_core:
  "\<exists>cls. ht_core (ht_disconnect oc e s) =
     (CDisconnected, (if ht_state s = CDisconnecting then ht_stopPromises (ht_resolveStop s) else ht_stopPromises s),
      ht_stopPromise s, ht_stops s, False, ht_closes s @ cls, ht_starts s) \<and> (cls = [] \<or> ht_started s \<and> (\<exists>x. cls = [x]))"
proof -
  define s2 where "s2 = (if ht_state s = CDisconnecting then ht_resolveStop s else s)"
  define s4 where "s4 = ht_stop_queue (if err_truthy e then ht_logs LError (''Connection disconnected with error '' @ sq (opt_err_to_string e) @ ''.'') s2
                else ht_logs LInformation ''Connection disconnected.'' s2)"
  let ?s5 = "s4\<lparr>ht_connectionId := JUndef, ht_state := CDisconnected\<rparr>"
  have d: "ht_disconnect oc e s = ht_fire_onclose oc e ?s5"
    unfolding ht_disconnect_def Let_def s4_def s2_def ..
  have "ht_core s4 = ht_core s2" unfolding s4_def by simp
  then have c: "ht_stopPromises s4 = ht_stopPromises s2" "ht_stopPromise s4 = ht_stopPromise s" "ht_stops s4 = ht_stops s"
    "ht_started s4 = ht_started s" "ht_closes s4 = ht_closes s" "ht_starts s4 = ht_starts s"
    by (simp_all add: ht_core_def s2_def split: if_splits)
  from ht_fire_onclose_core [of oc e ?s5] show ?thesis
    unfolding d using c by (auto simp: s2_def)
qed

lemma ht_inv_disconnect:
  assumes "ht_inv s"
  shows "ht_inv (ht_disconnect oc e s)"
proof -
  have "core_inv (ht_core s)" using assms by (simp only: ht_inv_core)
  note d = core_inv_disconnect [OF this [unfolded ht_core_def]]
  from ht_disconnect_core [of oc e s] obtain cls where
    c: "ht_core (ht_disconnect oc e s) =
     (CDisconnected, (if ht_state s = CDisconnecting then ht_stopPromises (ht_resolveStop s) else ht_stopPromises s),
      ht_stopPromise s, ht_stops s, False, ht_closes s @ cls, ht_starts s)" "cls = [] \<or> ht_started s \<and> (\<exists>x. cls = [x])" by blast
  show ?thesis unfolding ht_inv_core c(1)
    by (rule d) (use c(2) in \<open>auto simp: ht_resolveStop_def split: option.splits\<close>)
qed

lemma ht_inv_stopConnection:
  assumes "ht_inv s" "ht_stopConnection oc e s = (s', r)"
  shows "ht_inv s'"
proof (cases "ht_state s \<in> {CDisconnected, CConnecting}")
  case True
  then show ?thesis using ht_stopConnection_ignored [OF _ assms(2)] ht_inv_same assms(1) by blast
next
  case False
  let ?s1 = "(ht_logs LDebug (''HttpConnection.stopConnection('' @ opt_err_to_string e @ '') called while in state ''
                   @ conn_state_name (ht_state s) @ ''.'') s)\<lparr>ht_transport := None, ht_stopError := None\<rparr>"
  have "s' = ht_disconnect oc (if err_truthy (ht_stopError s) then ht_stopError s else e) ?s1"
    using assms(2) False unfolding ht_stopConnection_def Let_def by (cases "ht_state s") simp_all
  then show ?thesis using ht_inv_disconnect [OF ht_inv_same [of ?s1, OF _ assms(1)]] by simp
qed

lemma ht_inv_transport_stopped:
  assumes "ht_inv s"
  shows "ht_inv (ht_transport_stopped k r oc s)"
proof (cases r)
  case (Inr u)
  then show ?thesis using ht_inv_await_stopped [OF ht_inv_same [OF core_updates(2) assms]] by (simp add: ht_transport_stopped_def)
next
  case (Inl e)
  let ?s = "ht_logs LError (''HttpConnection.transport.stop() threw error '' @ sq (err_to_string e) @ ''.'') s"
  obtain s1 x where st: "ht_stopConnection oc None ?s = (s1, x)" by force
  have i: "ht_inv s1" by (rule ht_inv_stopConnection [OF ht_inv_same [OF core_logs assms] st])
  have t: "ht_transport_stopped k r oc s =
      (case x of Inl e' \<Rightarrow> ht_set_stop k (StopEnded (Inl e')) s1 | Inr _ \<Rightarrow> ht_await_stopped k (s1\<lparr>ht_transport := None\<rparr>))"
    by (simp only: ht_transport_stopped_def Inl sum.case st prod.case)
  show ?thesis unfolding t
    using ht_inv_await_stopped [OF ht_inv_same [OF core_updates(2) i]] ht_inv_set_stop [OF i] by (cases x) auto
qed

lemma core_inv_stopping:
  assumes "core_inv (st, ps, p, stops, started, cls, starts)" "st \<noteq> CDisconnecting"
  shows "core_inv (CDisconnecting, ps @ [False], Some (length ps), stops @ [AwaitStart x], started, cls, starts)"
proof (rule core_invI)
  have "\<forall>k < length ps. ps ! k" using core_invD(1) [OF assms(1)] assms(2) by blast
  then show "\<forall>k < length (ps @ [False]). \<not> (ps @ [False]) ! k \<longrightarrow> Some (length ps) = Some k \<and> CDisconnecting = CDisconnecting"
    by (auto simp: nth_append less_Suc_eq)
  have a: "start_at_ok (length ps) a \<Longrightarrow> start_at_ok (length (ps @ [False])) a" for a by (cases a) auto
  have b: "stop_at_ok (length ps) a \<Longrightarrow> stop_at_ok (length (ps @ [False])) a" for a by (cases a) auto
  show "\<forall>f \<in> set starts. start_at_ok (length (ps @ [False])) (snd f)" using core_invD(4) [OF assms(1)] a by blast
  show "\<forall>a \<in> set (stops @ [AwaitStart x]). stop_at_ok (length (ps @ [False])) a"
    using core_invD(5) [OF assms(1)] b by auto
qed (use core_invD(6) [OF assms(1)] in simp_all)

lemma ht_inv_stop:
  assumes "ht_inv s"
  shows "ht_inv (ht_stop e s)"
proof -
  have c: "core_inv (ht_state s, ht_stopPromises s, ht_stopPromise s, ht_stops s, ht_started s, ht_closes s, ht_starts s)"
    using assms by (simp add: ht_inv_core ht_core_def)
  have d: "stop_at_ok (length (ht_stopPromises s)) (case ht_stopPromise s of Some k \<Rightarrow> AwaitStopped k | None \<Rightarrow> StopEnded (Inr ()))"
    using core_invD(2) [OF c] by (simp split: option.split)
  show ?thesis
  proof (cases "ht_state s")
    case CDisconnected
    then show ?thesis using core_inv_add_stop [OF c, of "StopEnded (Inr ())"] by (simp add: ht_stop_def ht_inv_core ht_core_def ht_logs_def)
  next
    case CDisconnecting
    then show ?thesis using core_inv_add_stop [OF c d] by (simp add: ht_stop_def ht_inv_core ht_core_def ht_logs_def)
  qed (use core_inv_stopping [OF c] in \<open>simp_all add: ht_stop_def ht_inv_core ht_core_def\<close>)
qed

lemma core_inv_end_start:
  assumes "core_inv (st, ps, p, stops, started, cls, starts)" "i < length starts" "snd (starts ! i) \<noteq> StartEnded (Inr ())"
    "start_at_ok (length ps) a" "started' \<longrightarrow> started \<or> a = StartEnded (Inr ())"
  shows "core_inv (st, ps, p, stops, started', cls, starts[i := (f, a)])"
proof (rule core_invI)
  show "\<forall>f \<in> set (starts[i := (f, a)]). start_at_ok (length ps) (snd f)"
    using core_invD(4) [OF assms(1)] assms(4) set_update_subset_insert [of starts i "(f, a)"] by auto
  show "length cls + (if started' then 1 else 0) \<le> length (filter (\<lambda>f. snd f = StartEnded (Inr ())) (starts[i := (f, a)]))"
    using core_invD(6) [OF assms(1)] assms(3,5) length_filter_upd [OF assms(2), of "\<lambda>f. snd f = StartEnded (Inr ())" "(f, a)"]
    by (auto split: if_splits)
qed (rule core_invD [OF assms(1)])+

lemma ht_inv_set_start:
  assumes "ht_inv s" "ht_core s1 = ht_core s" "i < length (ht_starts s)" "snd (ht_starts s ! i) \<noteq> StartEnded (Inr ())"
    "start_at_ok (length (ht_stopPromises s)) a"
  shows "ht_inv (ht_set_start i a s1)"
proof -
  have "core_inv (ht_state s, ht_stopPromises s, ht_stopPromise s, ht_stops s, ht_started s, ht_closes s, ht_starts s)"
    using assms(1) by (simp add: ht_inv_core ht_core_def)
  from core_inv_end_start [OF this assms(3-5), of "ht_started s"] show ?thesis
    using assms(2) by (simp add: ht_inv_core ht_core_def ht_set_start_def)
qed

lemma ht_inv_start_resumes:
  assumes "ht_inv s" "i < length (ht_starts s)" "snd (ht_starts s ! i) = InnerSettled r"
  shows "ht_inv (ht_start_resumes i r s)"
proof -
  have c: "core_inv (ht_state s, ht_stopPromises s, ht_stopPromise s, ht_stops s, ht_started s, ht_closes s, ht_starts s)"
    using assms(1) by (simp add: ht_inv_core ht_core_def)
  have n: "snd (ht_starts s ! i) \<noteq> StartEnded (Inr ())" using assms(3) by simp
  have e: "ht_inv (ht_set_start i a s1)" if "ht_core s1 = ht_core s" "start_at_ok (length (ht_stopPromises s)) a" for a s1
    by (rule ht_inv_set_start [OF assms(1) that(1) assms(2) n that(2)])
  have k: "ht_inv (ht_set_start i (StartEnded (Inr ())) (s\<lparr>ht_started := True\<rparr>))"
    using core_inv_end_start [OF c assms(2) n, of "StartEnded (Inr ())" True] by (simp add: ht_inv_core ht_core_def ht_set_start_def)
  show ?thesis
    using k core_invD(2) [OF c]
    by (auto simp: ht_start_resumes_def Let_def simp del: append_Cons append.simps intro!: e split: sum.split option.split)
qed

lemma core_send: "ht_send d s = (s', r) \<Longrightarrow> ht_core s' = ht_core s"
  by (auto simp: ht_send_def Let_def simp del: append_Cons append.simps split: if_splits option.splits sum.splits prod.splits)

lemma ht_inv_step:
  assumes "ht_inv s" "ht_step env s e s'"
  shows "ht_inv s'"
  using assms(2)
proof cases
  case (hs_start tf)
  then show ?thesis using ht_inv_start assms(1) by simp
next
  case (hs_negotiated i u n r)
  then show ?thesis using ht_inv_moved [OF assms(1) start_moved_negotiated] by simp
next
  case (hs_renegotiated i ep r)
  then show ?thesis using ht_inv_moved [OF assms(1) start_moved_renegotiated] by simp
next
  case (hs_connected i r)
  then show ?thesis using ht_inv_moved [OF assms(1) start_moved_connected] by auto
next
  case (hs_start_resumes i r)
  then show ?thesis using ht_inv_start_resumes [OF assms(1)] by simp
next
  case (hs_start_stopped i k)
  then show ?thesis unfolding hs_start_stopped(2) ht_start_stopped_def by (intro ht_inv_set_start [OF assms(1) refl]) simp_all
next
  case (hs_send d r)
  then show ?thesis using core_send ht_inv_same assms(1) by blast
next
  case (hs_stop e)
  then show ?thesis using ht_inv_stop assms(1) by simp
next
  case (hs_stop_resumes k p)
  have "ht_inv (ht_stop_resumes k s)"
    using ht_inv_set_stop [OF assms(1)] ht_inv_await_stopped [OF ht_inv_same [OF core_logs assms(1)]]
    by (simp add: ht_stop_resumes_def split: option.split)
  then show ?thesis using hs_stop_resumes by simp
next
  case (hs_transport_stopped k r oc)
  then show ?thesis using ht_inv_transport_stopped assms(1) by simp
next
  case (hs_stopped k p)
  then show ?thesis using ht_inv_set_stop [OF assms(1)] by simp
next
  case (hs_closed oc e r)
  then show ?thesis using ht_inv_stopConnection assms(1) by blast
next
  case (hs_queue n e q)
  show ?thesis unfolding hs_queue(2) by (rule ht_inv_same [OF core_updates(10) assms(1)])
qed

lemma ht_inv_new: "ht_inv (HttpConnection_new opts url logged onclose)"
  by (simp add: ht_inv_def HttpConnection_new_def succeeded_def)

lemma ht_inv_runs: "runs (ht_step env) (HttpConnection_new opts url logged onclose) es s \<Longrightarrow> ht_inv s"
  by (rule runs_invariant [where P = ht_inv]) (use ht_inv_new ht_inv_step in blast)+

text \<open>
  C7: In every run of an HttpConnection: a call of \<^verbatim>\<open>stop\<close> (or of \<^verbatim>\<open>start\<close>) that waits for the stop promise can
  end as soon as the connection is not disconnecting; the application's \<^verbatim>\<open>onclose\<close> has been called at most
  once per successful \<^verbatim>\<open>start\<close>; and a \<^verbatim>\<open>start\<close> that negotiates has followed fewer than a hundred redirects.
\<close>

theorem http_connection_invariant:
  assumes "runs (ht_step env) (HttpConnection_new opts url logged onclose) es s"
  shows "(\<forall>k < length (ht_stops s). \<forall>p. ht_stops s ! k = AwaitStopped p \<longrightarrow> ht_state s \<noteq> CDisconnecting \<longrightarrow>
            ht_step env s (HtStopped k) (ht_set_stop k (StopEnded (Inr ())) s)) \<and>
    (\<forall>i < length (ht_starts s). \<forall>p. snd (ht_starts s ! i) = AwaitStopPromise p \<longrightarrow> ht_state s \<noteq> CDisconnecting \<longrightarrow>
            ht_step env s (HtStartStopped i) (ht_start_stopped i s)) \<and>
    length (ht_closes s) \<le> succeeded s \<and>
    (\<forall>i < length (ht_starts s). \<forall>u n. snd (ht_starts s ! i) = AwaitNegotiate u n \<longrightarrow> n < MAX_REDIRECTS)"
proof -
  have c: "core_inv (ht_state s, ht_stopPromises s, ht_stopPromise s, ht_stops s, ht_started s, ht_closes s, ht_starts s)"
    using ht_inv_runs [OF assms] by (simp add: ht_inv_core ht_core_def)
  have r: "ht_stopPromises s ! p" if "p < length (ht_stopPromises s)" "ht_state s \<noteq> CDisconnecting" for p
    using core_invD(1) [OF c] that by blast
  have "ht_step env s (HtStopped k) (ht_set_stop k (StopEnded (Inr ())) s)"
    if "k < length (ht_stops s)" "ht_stops s ! k = AwaitStopped p" "ht_state s \<noteq> CDisconnecting" for k p
  proof -
    have "stop_at_ok (length (ht_stopPromises s)) (AwaitStopped p)" using core_invD(5) [OF c] that nth_mem by metis
    then show ?thesis using hs_stopped [OF that(1,2) r] that(3) by simp
  qed
  moreover have "ht_step env s (HtStartStopped i) (ht_start_stopped i s)"
    if "i < length (ht_starts s)" "snd (ht_starts s ! i) = AwaitStopPromise p" "ht_state s \<noteq> CDisconnecting" for i p
  proof -
    have "start_at_ok (length (ht_stopPromises s)) (AwaitStopPromise p)" using core_invD(4) [OF c] that nth_mem by metis
    then show ?thesis using hs_start_stopped [OF that(1,2) r] that(3) by simp
  qed
  moreover have "n < MAX_REDIRECTS" if "i < length (ht_starts s)" "snd (ht_starts s ! i) = AwaitNegotiate u n" for i u n
  proof -
    have "start_at_ok (length (ht_stopPromises s)) (AwaitNegotiate u n)" using core_invD(4) [OF c] that nth_mem by metis
    then show ?thesis by simp
  qed
  moreover have "length (ht_closes s) \<le> succeeded s" using core_invD(6) [OF c] by (simp add: succeeded_def)
  ultimately show ?thesis by blast
qed

section \<open>A stop that never ends\<close>

definition sample_http_options :: http_options where
  "sample_http_options =
     \<lparr>ho_transport = ReqAny, ho_skipNegotiation = False, ho_WebSocket = True, ho_EventSource = True, ho_factory = False,
      ho_send = to_send sample_options\<rparr>"

definition sample_env :: ht_env where
  "sample_env = \<lparr>he_options = sample_http_options, he_platform = to_platform sample_options\<rparr>"

text \<open>A server that offers long polling, and its answer to the first poll: 204.\<close>

definition polling_only :: http_response where
  "polling_only = new_HttpResponse 200 [] (JStr (stringify_template (JObj
     [(''negotiateVersion'', JNum 1), (''connectionId'', JStr ''c''), (''connectionToken'', JStr ''t''),
      (''availableTransports'', JArr [JObj [(''transport'', JStr ''LongPolling''), (''transferFormats'', JArr [JStr ''Text''])]])])))"

definition no_content :: http_response where
  "no_content = new_HttpResponse 204 [] (JStr [])"

definition poll_failure :: js_error where
  "poll_failure = new_HttpError [] 204"

definition sample_ht :: "nat \<Rightarrow> http_connection" where
  "sample_ht n =
     foldl (\<lambda>s f. f s) (HttpConnection_new sample_http_options ''http://h/hub'' [] True)
       (take n [ht_start sample_env 1, ht_negotiated sample_env 0 ''http://h/hub'' 0 (Inr polling_only),
          \<lambda>s. fst (ht_stopConnection (Inr ()) (Some poll_failure) s), ht_connected sample_env 0 (Inr ()),
          ht_start_resumes 0 (Inr ()), ht_stop None, ht_stop_resumes 0])"

lemma sample_ht_steps:
  "sample_ht 0 = HttpConnection_new sample_http_options ''http://h/hub'' [] True"
  "sample_ht 1 = ht_start sample_env 1 (sample_ht 0)"
  "sample_ht 2 = ht_negotiated sample_env 0 ''http://h/hub'' 0 (Inr polling_only) (sample_ht 1)"
  "sample_ht 3 = fst (ht_stopConnection (Inr ()) (Some poll_failure) (sample_ht 2))"
  "sample_ht 4 = ht_connected sample_env 0 (Inr ()) (sample_ht 3)"
  "sample_ht 5 = ht_start_resumes 0 (Inr ()) (sample_ht 4)"
  "sample_ht 6 = ht_stop None (sample_ht 5)"
  "sample_ht 7 = ht_stop_resumes 0 (sample_ht 6)"
  by (simp_all only: sample_ht_def) (simp_all add: numeral_eq_Suc)

lemma sample_ht_at:
  "map snd (ht_starts (sample_ht 1)) = [AwaitNegotiate ''http://h/hub'' 0]"
  by code_simp

fun is_AwaitTransport :: "ht_start_at \<Rightarrow> bool" where
  "is_AwaitTransport (AwaitTransport _) = True"
| "is_AwaitTransport _ = False"

lemma sample_ht_facts:
  "(let s2 = sample_ht 2; s3 = fst (ht_stopConnection (Inr ()) (Some poll_failure) s2); s4 = ht_connected sample_env 0 (Inr ()) s3;
        s5 = ht_start_resumes 0 (Inr ()) s4; s6 = ht_stop None s5; s7 = ht_stop_resumes 0 s6 in
    ht_connects s2 = [(TLongPolling, ''http://h/hub?id=t'', 1)] \<and>
    snd (ht_stopConnection (Inr ()) (Some poll_failure) s2) \<noteq> Inr () \<and>
    list_all (\<lambda>f. is_AwaitTransport (snd f)) (ht_starts s3) \<and>
    map snd (ht_starts s4) = [InnerSettled (Inr ())] \<and>
    map snd (ht_starts s6) = [StartEnded (Inr ())] \<and> length (ht_starts s3) = 1 \<and>
    ht_stops s6 = [AwaitStart (Some 0)] \<and> ht_state s5 = CConnected \<and> ht_transport s5 = None \<and>
    ht_state s7 = CDisconnecting \<and> ht_transport s7 = None \<and> ht_stops s7 = [AwaitStopped 0] \<and> ht_stopPromises s7 = [False] \<and>
    ht_stopPromise s7 = Some 0 \<and> map snd (ht_starts s7) = [StartEnded (Inr ())] \<and> ht_queues s7 = [])"
  by code_simp

lemmas sample_ht_states = sample_ht_facts [unfolded Let_def, folded sample_ht_steps(4), folded sample_ht_steps(5), folded sample_ht_steps(6),
  folded sample_ht_steps(7), folded sample_ht_steps(8)]

lemma list_single: "map snd xs = [a] \<Longrightarrow> length xs = Suc 0 \<and> snd (xs ! 0) = a"
  by (cases xs) auto

definition hanging_events :: "ht_event list" where
  "hanging_events =
     [HtStart 1, HtNegotiated 0 (Inr polling_only),
      HtClosed (Some poll_failure) (snd (ht_stopConnection (Inr ()) (Some poll_failure) (sample_ht 2))) (Inr ()),
      HtConnected 0 (Inr ()), HtStartResumes 0, HtStop None, HtStopResumes 0]"

lemma sample_ht_run: "runs (ht_step sample_env) (sample_ht 0) hanging_events (sample_ht 7)"
  unfolding hanging_events_def
proof (intro runs_cons [of "ht_step sample_env"])
  note st = sample_ht_states
  show "ht_step sample_env (sample_ht 0) (HtStart 1) (sample_ht 1)" unfolding sample_ht_steps(2) by (rule hs_start)
  show "ht_step sample_env (sample_ht 1) (HtNegotiated 0 (Inr polling_only)) (sample_ht 2)"
    unfolding sample_ht_steps(3) using list_single [OF sample_ht_at] by (intro hs_negotiated) simp_all
  show "ht_step sample_env (sample_ht 2) (HtClosed (Some poll_failure) (snd (ht_stopConnection (Inr ()) (Some poll_failure) (sample_ht 2))) (Inr ())) (sample_ht 3)"
    unfolding sample_ht_steps(4) by (rule hs_closed) (use st in \<open>simp_all only: list.simps not_False_eq_True prod.collapse\<close>)
  show "ht_step sample_env (sample_ht 3) (HtConnected 0 (Inr ())) (sample_ht 4)"
    unfolding sample_ht_steps(5)
  proof (rule hs_connected)
    have l: "length (ht_starts (sample_ht 3)) = 1" "list_all (\<lambda>f. is_AwaitTransport (snd f)) (ht_starts (sample_ht 3))" using st by blast+
    then show "0 < length (ht_starts (sample_ht 3))" by linarith
    from l have "is_AwaitTransport (snd (ht_starts (sample_ht 3) ! 0))" by (simp only: list_all_length)
    then show "snd (ht_starts (sample_ht 3) ! 0) = AwaitSkipConnect \<or> (\<exists>n. snd (ht_starts (sample_ht 3) ! 0) = AwaitUserConnect n) \<or>
      (\<exists>ep. snd (ht_starts (sample_ht 3) ! 0) = AwaitTransport ep)"
      by (cases "snd (ht_starts (sample_ht 3) ! 0)") simp_all
  qed
  have "map snd (ht_starts (sample_ht 4)) = [InnerSettled (Inr ())]" using st by blast
  from list_single [OF this] show "ht_step sample_env (sample_ht 4) (HtStartResumes 0) (sample_ht 5)"
    unfolding sample_ht_steps(6) by (intro hs_start_resumes) simp_all
  show "ht_step sample_env (sample_ht 5) (HtStop None) (sample_ht 6)" unfolding sample_ht_steps(7) by (rule hs_stop)
  have m: "map snd (ht_starts (sample_ht 6)) = [StartEnded (Inr ())]" "ht_stops (sample_ht 6) = [AwaitStart (Some 0)]" using st by blast+
  from list_single [OF m(1)] m(2) show "ht_step sample_env (sample_ht 6) (HtStopResumes 0) (sample_ht 7)"
    unfolding sample_ht_steps(8) by (intro hs_stop_resumes) auto
qed (rule runs_Nil)

definition hanging :: "http_connection \<Rightarrow> bool" where
  "hanging s \<longleftrightarrow> ht_state s = CDisconnecting \<and> ht_stopPromises s = [False] \<and> ht_stopPromise s = Some 0 \<and> ht_queues s = [] \<and>
     (\<forall>i < length (ht_starts s). \<exists>r. snd (ht_starts s ! i) = StartEnded r) \<and>
     ht_stops s \<noteq> [] \<and> (\<forall>k < length (ht_stops s). ht_stops s ! k = AwaitStopped 0)"

fun not_HtClosed :: "ht_event \<Rightarrow> bool" where
  "not_HtClosed (HtClosed _ _ _) = False"
| "not_HtClosed _ = True"

lemma hanging_start: "hanging s \<Longrightarrow> hanging (ht_start env tf s)"
  by (auto simp: ht_start_def Let_def hanging_def nth_append simp del: append_Cons append.simps split: sum.split)

lemma hanging_stop: "hanging s \<Longrightarrow> hanging (ht_stop e s)"
  by (auto simp: ht_stop_def hanging_def nth_append simp del: append_Cons append.simps)

lemma hanging_step:
  assumes "hanging s" "ht_step env s e s'" "not_HtClosed e"
  shows "hanging s'"
  using assms(2)
proof cases
  case (hs_start tf)
  then show ?thesis using hanging_start assms(1) by simp
next
  case (hs_stop e)
  then show ?thesis using hanging_stop assms(1) by simp
next
  case (hs_send d r)
  then show ?thesis using assms(1) by (auto simp: ht_send_def hanging_def simp del: append_Cons append.simps)
next
  case (hs_closed oc e r)
  then show ?thesis using assms(3) by simp
qed (use assms(1) in \<open>auto simp: hanging_def\<close>)

lemma hanging_runs: "runs (ht_step env) s es s' \<Longrightarrow> hanging s \<Longrightarrow> list_all not_HtClosed es \<Longrightarrow> hanging s'"
  by (induction rule: runs.induct) (auto intro: hanging_step)

lemma sample_ht_hanging: "hanging (sample_ht 7)"
proof -
  note st = sample_ht_states
  have m: "map snd (ht_starts (sample_ht 7)) = [StartEnded (Inr ())]" "ht_stops (sample_ht 7) = [AwaitStopped 0]" using st by blast+
  have "ht_state (sample_ht 7) = CDisconnecting" "ht_stopPromises (sample_ht 7) = [False]" "ht_stopPromise (sample_ht 7) = Some 0"
    "ht_queues (sample_ht 7) = []" using st by blast+
  with list_single [OF m(1)] m(2) show ?thesis by (auto simp: hanging_def)
qed

lemma lp_connected_no_content:
  assumes "lp_onclose l" "\<not> ac_isAborted (lp_pollAbort l)"
  shows "lp_up (lp_connected now (Inl x) rq (Inr no_content) l) = lp_up l @ [UpClose (Some poll_failure)]"
    "lp_loop (lp_connected now (Inl x) rq (Inr no_content) l) = PollThrew x"
  using assms by (simp_all add: lp_connected_def no_content_def new_HttpResponse_def lp_status_error_def lp_poll_def
      lp_raiseOnClose_def poll_failure_def Let_def)

text \<open>
  C10: The server answers the first poll of a long-polling transport with 204. The transport tells its
  close from inside \<^verbatim>\<open>connect\<close>; \<^verbatim>\<open>_stopConnection\<close>, still in the connecting state, drops the transport and
  throws, the throw is lost with the polling loop, and \<^verbatim>\<open>connect\<close> succeeds: \<^verbatim>\<open>start\<close> is fulfilled and the
  connection is connected without a transport. A later \<^verbatim>\<open>stop\<close> never ends: whatever happens but another
  close of the transport, whose polling loop has ended, it stays waiting and the state disconnecting.
\<close>

theorem stop_hangs_after_empty_first_poll:
  assumes "lp_onclose l" "\<not> ac_isAborted (lp_pollAbort l)"
    and "snd (ht_stopConnection (Inr ()) (Some poll_failure) (sample_ht 2)) = Inl x"
    and "runs (ht_step sample_env) (sample_ht 7) es s" "list_all not_HtClosed es"
  shows "lp_up (lp_connected now (Inl x) rq (Inr no_content) l) = lp_up l @ [UpClose (Some poll_failure)] \<and>
    lp_loop (lp_connected now (Inl x) rq (Inr no_content) l) = PollThrew x \<and>
    runs (ht_step sample_env) (HttpConnection_new sample_http_options ''http://h/hub'' [] True) hanging_events (sample_ht 7) \<and>
    ht_state (sample_ht 5) = CConnected \<and> ht_transport (sample_ht 5) = None \<and> map snd (ht_starts (sample_ht 7)) = [StartEnded (Inr ())] \<and>
    ht_stops s ! 0 = AwaitStopped 0 \<and> ht_state s = CDisconnecting"
proof -
  have "hanging s" using hanging_runs [OF assms(4) sample_ht_hanging assms(5)] .
  then have "ht_stops s ! 0 = AwaitStopped 0 \<and> ht_state s = CDisconnecting" by (auto simp: hanging_def)
  then show ?thesis
    using lp_connected_no_content [OF assms(1,2)] sample_ht_run [unfolded sample_ht_steps(1)] sample_ht_states by blast
qed

theorem stop_hangs_after_empty_first_poll_witness:
  "\<exists>x. lp_up (lp_connected 0 (Inl x) empty_request (Inr no_content) (sample_lp 1)) = lp_up (sample_lp 1) @ [UpClose (Some poll_failure)] \<and>
     ht_stops (ht_stop None (sample_ht 7)) ! 0 = AwaitStopped 0 \<and> ht_state (ht_stop None (sample_ht 7)) = CDisconnecting"
proof -
  obtain x where x: "snd (ht_stopConnection (Inr ()) (Some poll_failure) (sample_ht 2)) = Inl x"
    using sample_ht_states by (cases "snd (ht_stopConnection (Inr ()) (Some poll_failure) (sample_ht 2))") auto
  have l: "lp_onclose (sample_lp 1)" "\<not> ac_isAborted (lp_pollAbort (sample_lp 1))" by code_simp+
  have r: "runs (ht_step sample_env) (sample_ht 7) [HtStop None] (ht_stop None (sample_ht 7))"
    by (rule runs_one [of "ht_step sample_env"]) (rule hs_stop)
  have a: "list_all not_HtClosed [HtStop None]" by simp
  show ?thesis
    using stop_hangs_after_empty_first_poll [OF l x r a] by blast
qed

text \<open>The invariant at the run above.\<close>

theorem http_connection_invariant_witness:
  "length (ht_closes (sample_ht 7)) \<le> succeeded (sample_ht 7) \<and> succeeded (sample_ht 7) = 1"
proof -
  have "runs (ht_step sample_env) (HttpConnection_new sample_http_options ''http://h/hub'' [] True) hanging_events (sample_ht 7)"
    using sample_ht_run unfolding sample_ht_steps(1) .
  note i = http_connection_invariant [OF this]
  have "map snd (ht_starts (sample_ht 7)) = [StartEnded (Inr ())]" using sample_ht_states by blast
  then have "succeeded (sample_ht 7) = 1" by (auto simp: succeeded_def)
  with i show ?thesis by blast
qed

section \<open>Redirects\<close>

text \<open>An answer of the server that sends the client elsewhere.\<close>

definition redirects_to :: "http_response result \<Rightarrow> string \<Rightarrow> bool" where
  "redirects_to r u \<longleftrightarrow> (\<exists>n. negotiation_response r = (Inr n, []) \<and> ht_prop n ''url'' = JStr u \<and> u \<noteq> [] \<and>
     \<not> truthy (ht_prop n ''error'') \<and> \<not> truthy (ht_prop n ''ProtocolVersion'') \<and> ht_prop n ''accessToken'' = JUndef)"

lemma redirect_turn:
  assumes "redirects_to r v" "ht_state s = CConnecting" "i < length (ht_starts s)"
  shows "Suc k < MAX_REDIRECTS \<Longrightarrow> ht_negotiated env i u k r s = ht_set_start i (AwaitNegotiate v (Suc k)) (ht_send_negotiate env v s)"
    and "Suc k = MAX_REDIRECTS \<Longrightarrow> ht_negotiated env i u k r s = ht_start_failed i (Error ''Negotiate redirection limit exceeded.'') s"
proof -
  from assms(1) obtain n where n: "negotiation_response r = (Inr n, [])" "ht_prop n ''url'' = JStr v" "v \<noteq> []"
     "\<not> truthy (ht_prop n ''error'')" "\<not> truthy (ht_prop n ''ProtocolVersion'')" "ht_prop n ''accessToken'' = JUndef"
    unfolding redirects_to_def by blast
  have t: "ht_set_token (ht_prop n ''accessToken'') s = Inr s" for s by (simp add: n(6) ht_set_token_def)
  have u: "truthy (ht_prop n ''url'')" unfolding n(2) using n(3) by simp
  have s: "s\<lparr>ht_log := ht_log s @ []\<rparr> = s" by simp
  have st: "(ht_state s = CDisconnecting \<or> ht_state s = CDisconnected) = False" using assms(2) by simp
  have e: "truthy (ht_prop n ''error'') = False" "truthy (ht_prop n ''ProtocolVersion'') = False" using n(4,5) by blast+
  have x: "ht_negotiated env i u k r s =
    (if truthy (ht_prop n ''url'') \<and> Suc k < MAX_REDIRECTS then ht_negotiate env i (ht_prop n ''url'') (Suc k) s
     else if Suc k = MAX_REDIRECTS \<and> truthy (ht_prop n ''url'')
     then ht_start_failed i (Error ''Negotiate redirection limit exceeded.'') s
     else ht_createTransport env i u n s)"
    unfolding ht_negotiated_def n(1) prod.case sum.case Let_def s st e if_False t ..
  have y: "ht_negotiate env i (ht_prop n ''url'') (Suc k) s = ht_set_start i (AwaitNegotiate v (Suc k)) (ht_send_negotiate env v s)"
    unfolding n(2) by (simp only: ht_negotiate_def url_text_def jsval.case sum.case)
  show "Suc k < MAX_REDIRECTS \<Longrightarrow> ht_negotiated env i u k r s = ht_set_start i (AwaitNegotiate v (Suc k)) (ht_send_negotiate env v s)"
    unfolding x y using u by simp
  show "Suc k = MAX_REDIRECTS \<Longrightarrow> ht_negotiated env i u k r s = ht_start_failed i (Error ''Negotiate redirection limit exceeded.'') s"
    unfolding x using u by simp
qed

text \<open>The start keeps asking while it is redirected: its answers are taken from \<open>f\<close>, at most \<open>n\<close> of them.\<close>

fun follow :: "ht_env \<Rightarrow> nat \<Rightarrow> (nat \<Rightarrow> http_response result) \<Rightarrow> nat \<Rightarrow> http_connection \<Rightarrow> http_connection" where
  "follow env i f 0 s = s"
| "follow env i f (Suc n) s =
     (case snd (ht_starts s ! i) of AwaitNegotiate u k \<Rightarrow> follow env i f n (ht_negotiated env i u k (f k) s) | _ \<Rightarrow> s)"

lemma set_start_at:
  "i < length (ht_starts s) \<Longrightarrow> snd (ht_starts (ht_set_start i a s) ! i) = a"
  "length (ht_starts (ht_set_start i a s)) = length (ht_starts s)"
  "ht_state (ht_set_start i a s) = ht_state s" "ht_requests (ht_set_start i a s) = ht_requests s"
  by (simp_all add: ht_set_start_def)

lemma send_negotiate_at:
  "ht_starts (ht_send_negotiate env u s) = ht_starts s" "ht_state (ht_send_negotiate env u s) = ht_state s"
  "length (ht_requests (ht_send_negotiate env u s)) = Suc (length (ht_requests s))"
  by (simp_all add: ht_send_negotiate_def ht_logs_def Let_def)

lemma start_failed_at:
  "i < length (ht_starts s) \<Longrightarrow> snd (ht_starts (ht_start_failed i e s) ! i) = InnerSettled (Inl e)"
  "ht_state (ht_start_failed i e s) = CDisconnected" "ht_requests (ht_start_failed i e s) = ht_requests s"
  by (simp_all add: ht_start_failed_def ht_set_start_def ht_resolveStop_def ht_logs_def split: option.split)

lemma follow_ended: "snd (ht_starts s ! i) = InnerSettled r \<Longrightarrow> follow env i f n s = s"
  by (cases n) simp_all

lemma follow_limit:
  assumes "\<And>k. \<exists>v. redirects_to (f k) v"
  shows "ht_state s = CConnecting \<Longrightarrow> i < length (ht_starts s) \<Longrightarrow> snd (ht_starts s ! i) = AwaitNegotiate u k \<Longrightarrow>
    k + n = MAX_REDIRECTS \<Longrightarrow> 0 < n \<Longrightarrow> n \<le> m \<Longrightarrow>
    snd (ht_starts (follow env i f m s) ! i) = InnerSettled (Inl (Error ''Negotiate redirection limit exceeded.'')) \<and>
    ht_state (follow env i f m s) = CDisconnected \<and>
    length (ht_requests (follow env i f m s)) = length (ht_requests s) + n - 1"
proof (induction n arbitrary: k u s m)
  case (Suc n)
  obtain v where v: "redirects_to (f k) v" using assms by blast
  obtain m' where m: "m = Suc m'" using Suc.prems(6) by (cases m) auto
  have g: "follow env i f m s = follow env i f m' (ht_negotiated env i u k (f k) s)" using Suc.prems(3) m by simp
  show ?case
  proof (cases n)
    case 0
    have "Suc k = MAX_REDIRECTS" using Suc.prems(4) 0 by simp
    then have x: "ht_negotiated env i u k (f k) s = ht_start_failed i (Error ''Negotiate redirection limit exceeded.'') s"
      using redirect_turn(2) [OF v Suc.prems(1,2)] by blast
    show ?thesis unfolding g x using start_failed_at Suc.prems(2) 0 by (simp add: follow_ended)
  next
    case (Suc n')
    let ?t = "ht_set_start i (AwaitNegotiate v (Suc k)) (ht_send_negotiate env v s)"
    have "Suc k < MAX_REDIRECTS" using Suc.prems(4) Suc by simp
    then have x: "ht_negotiated env i u k (f k) s = ?t" using redirect_turn(1) [OF v Suc.prems(1,2)] by blast
    have t: "ht_state ?t = CConnecting" "i < length (ht_starts ?t)" "snd (ht_starts ?t ! i) = AwaitNegotiate v (Suc k)"
      "length (ht_requests ?t) = Suc (length (ht_requests s))"
      using Suc.prems(1,2) by (simp_all add: set_start_at send_negotiate_at)
    show ?thesis unfolding g x using Suc.IH [OF t(1-3), of m'] Suc.prems(4,6) m Suc t(4) by simp
  qed
qed simp

lemma format_keys:
  "Arg_isIn (int_to_string 1) TransferFormat_keys ''transferFormat'' = Inr ()"
  "Arg_isIn (int_to_string 2) TransferFormat_keys ''transferFormat'' = Inr ()"
  by code_simp+

text \<open>
  C8: The redirect loop of \<^verbatim>\<open>_startInternal\<close> ends: a server that answers every negotiation with another url is
  asked a hundred times and then \<^verbatim>\<open>start\<close> fails with the redirection limit.
\<close>

theorem redirects_end:
  fixes tf :: int
  assumes "\<And>k. \<exists>v. redirects_to (f k) v" "ht_state s = CDisconnected" "\<not> ho_skipNegotiation (he_options env)" "100 \<le> m"
    and "tf \<in> {1, 2}"
  defines "i \<equiv> length (ht_starts s)" and "s' \<equiv> follow env (length (ht_starts s)) f m (ht_start env tf s)"
  shows "snd (ht_starts s' ! i) = InnerSettled (Inl (Error ''Negotiate redirection limit exceeded.'')) \<and>
    ht_state s' = CDisconnected \<and> length (ht_requests s') = length (ht_requests s) + 100"
proof -
  let ?s = "ht_start env tf s"
  have k: "Arg_isIn (int_to_string tf) TransferFormat_keys ''transferFormat'' = Inr ()" using assms(5) format_keys by auto
  have z: "(if tf = 0 then TransferFormat_Binary else tf) = tf" using assms(5) by auto
  have b: "ht_state ?s = CConnecting" "length (ht_starts ?s) = Suc i" "snd (ht_starts ?s ! i) = AwaitNegotiate (ht_baseUrl s) 0"
    "length (ht_requests ?s) = Suc (length (ht_requests s))"
    using assms(2,3)
    by (simp_all add: ht_start_def Let_def z k ht_startInternal_def ht_negotiate_def url_text_def i_def set_start_at send_negotiate_at
        del: append_Cons append.simps)
  have "snd (ht_starts (follow env i f m ?s) ! i) = InnerSettled (Inl (Error ''Negotiate redirection limit exceeded.'')) \<and>
    ht_state (follow env i f m ?s) = CDisconnected \<and> length (ht_requests (follow env i f m ?s)) = length (ht_requests ?s) + 100 - 1"
    by (rule follow_limit [OF assms(1) b(1) _ b(3)]) (use b(2) assms(4) in \<open>simp_all add: MAX_REDIRECTS_def\<close>)
  then show ?thesis unfolding s'_def i_def [symmetric] b(4) by simp
qed

definition redirect_response :: http_response where
  "redirect_response = new_HttpResponse 200 [] (JStr (stringify_template (JObj [(''url'', JStr ''http://b/'')])))"

lemma redirect_response_redirects: "redirects_to (Inr redirect_response) ''http://b/''"
proof -
  let ?n = "JObj [(''url'', JStr ''http://b/''), (''connectionToken'', JUndef)]"
  have "negotiation_response (Inr redirect_response) = (Inr ?n, [])" by code_simp
  moreover have "ht_prop ?n ''url'' = JStr ''http://b/''" "\<not> truthy (ht_prop ?n ''error'')" "\<not> truthy (ht_prop ?n ''ProtocolVersion'')"
    "ht_prop ?n ''accessToken'' = JUndef" by code_simp+
  ultimately show ?thesis unfolding redirects_to_def by blast
qed

theorem redirects_end_witness:
  "length (ht_requests (follow sample_env 0 (\<lambda>_. Inr redirect_response) 100 (ht_start sample_env 1 (sample_ht 0)))) = 100"
proof -
  have s: "ht_state (sample_ht 0) = CDisconnected" "\<not> ho_skipNegotiation (he_options sample_env)" "length (ht_starts (sample_ht 0)) = 0"
    "length (ht_requests (sample_ht 0)) = 0" by code_simp+
  have "length (ht_requests (follow sample_env (length (ht_starts (sample_ht 0))) (\<lambda>_. Inr redirect_response) 100 (ht_start sample_env 1 (sample_ht 0))))
      = length (ht_requests (sample_ht 0)) + 100"
    using redirects_end [of "\<lambda>_. Inr redirect_response" "sample_ht 0" sample_env 100 1] redirect_response_redirects s(1,2) by blast
  then show ?thesis unfolding s(3,4) by simp
qed

section \<open>Which transport is chosen\<close>

lemma enum_numbers:
  "enum_get HttpTransportType_object (JNum 1) = JStr ''WebSockets''" "enum_get HttpTransportType_object (JNum 2) = JStr ''ServerSentEvents''"
  "enum_get HttpTransportType_object (JNum 4) = JStr ''LongPolling''"
  by code_simp+

text \<open>What it takes for an endpoint to be used, said without the order of the checks.\<close>

definition usable :: "http_options \<Rightarrow> int \<Rightarrow> jsval \<Rightarrow> itransport \<Rightarrow> bool" where
  "usable opts fmt endpoint t \<longleftrightarrow>
     (\<exists>n. enum_get HttpTransportType_object (ht_prop endpoint ''transport'') = JNum n \<and>
        (n, t) \<in> {(1, TWebSocket), (2, TServerSentEvents), (4, TLongPolling)} \<and>
        transportMatches (ho_transport opts) (JNum n) \<and>
        (\<exists>fs. endpoint_formats endpoint = Inr fs \<and> JNum fmt \<in> set fs) \<and>
        (t = TWebSocket \<longrightarrow> ho_WebSocket opts) \<and> (t = TServerSentEvents \<longrightarrow> ho_EventSource opts))"

lemma constructTransport_iff:
  "constructTransport opts v = Inr t \<longleftrightarrow>
     (v = JNum 1 \<and> t = TWebSocket \<and> ho_WebSocket opts) \<or> (v = JNum 2 \<and> t = TServerSentEvents \<and> ho_EventSource opts) \<or>
     (v = JNum 4 \<and> t = TLongPolling)"
  by (auto simp: constructTransport_def HttpTransportType_WebSockets_def HttpTransportType_ServerSentEvents_def HttpTransportType_LongPolling_def)

lemma resolve_iff:
  "(\<exists>l. resolveTransportOrError opts (ho_transport opts) fmt endpoint = Inr (Inr t, l)) \<longleftrightarrow>
   usable opts fmt endpoint t"
proof (cases "get_prop endpoint ''transport''")
  case (Inl e)
  then have "endpoint = JUndef \<or> endpoint = JNull" by (cases endpoint) auto
  then have "endpoint_formats endpoint \<noteq> Inr fs" for fs by (auto simp: endpoint_formats_def)
  then show ?thesis using Inl unfolding resolveTransportOrError_def usable_def by auto
next
  case (Inr v)
  have p: "ht_prop endpoint ''transport'' = v" using Inr by (simp only: ht_prop_def sum.case)
  define tr where "tr = enum_get HttpTransportType_object v"
  show ?thesis
    unfolding resolveTransportOrError_def Inr rbind_simps Let_def usable_def p tr_def [symmetric]
    by (cases "endpoint_formats endpoint"; cases "transportMatches (ho_transport opts) tr")
       (auto simp: constructTransport_iff HttpTransportType_WebSockets_def HttpTransportType_ServerSentEvents_def
         simp del: append_Cons append.simps split: if_splits)
qed

definition well_formed :: "jsval \<Rightarrow> bool" where
  "well_formed endpoint \<longleftrightarrow> (\<exists>v fs. get_prop endpoint ''transport'' = Inr v \<and> endpoint_formats endpoint = Inr fs)"

lemma well_formed_resolves:
  assumes "well_formed endpoint"
  shows "\<exists>r l. resolveTransportOrError opts req fmt endpoint = Inr (r, l)"
proof -
  from assms obtain v fs where v: "get_prop endpoint ''transport'' = Inr v" and f: "endpoint_formats endpoint = Inr fs"
    unfolding well_formed_def by blast
  show ?thesis unfolding resolveTransportOrError_def v f rbind_simps Let_def by (simp split: if_split)
qed

lemma unusable_resolves:
  assumes "well_formed endpoint" "\<And>t. \<not> usable opts fmt endpoint t"
  shows "\<exists>err l. resolveTransportOrError opts (ho_transport opts) fmt endpoint = Inr (Inl err, l)"
proof -
  obtain r l where r: "resolveTransportOrError opts (ho_transport opts) fmt endpoint = Inr (r, l)"
    using well_formed_resolves [OF assms(1)] by blast
  show ?thesis
  proof (cases r)
    case (Inr t)
    then show ?thesis using resolve_iff [of opts fmt endpoint t] r assms(2) by blast
  qed (use r in blast)
qed

lemma try_skips:
  assumes "\<forall>x \<in> set pre. well_formed x \<and> (\<forall>t. \<not> usable (he_options env) fmt x t)" "fst (ht_starts s ! i) = fmt"
  shows "\<exists>excs' l. length excs' = length excs + 2 * length pre \<and>
    ht_try env i url cu ng excs (pre @ rest) s = ht_try env i url cu ng excs' rest (s\<lparr>ht_log := l\<rparr>)"
  using assms
proof (induction pre arbitrary: excs s)
  case Nil
  then show ?case by (intro exI [of _ excs] exI [of _ "ht_log s"]) simp
next
  case (Cons x pre)
  obtain err l where e: "resolveTransportOrError (he_options env) (ho_transport (he_options env)) fmt x = Inr (Inl err, l)"
    using unusable_resolves [of x "he_options env" fmt] Cons.prems(1) by auto
  let ?s = "s\<lparr>ht_log := ht_log s @ [l]\<rparr>" and ?e = "excs @ [ThrownString (endpoint_name x @ '' failed:''), err]"
  have t: "ht_try env i url cu ng excs ((x # pre) @ rest) s = ht_try env i url cu ng ?e (pre @ rest) ?s"
    by (simp only: append_Cons ht_try.simps Let_def Cons.prems(2) e sum.case prod.case)
  have p: "\<forall>x \<in> set pre. well_formed x \<and> (\<forall>t. \<not> usable (he_options env) fmt x t)" "fst (ht_starts ?s ! i) = fmt"
    using Cons.prems by auto
  obtain excs' l' where i: "length excs' = length ?e + 2 * length pre"
    "ht_try env i url cu ng ?e (pre @ rest) ?s = ht_try env i url cu ng excs' rest (?s\<lparr>ht_log := l'\<rparr>)"
    using Cons.IH [OF p, of ?e] by blast
  show ?case unfolding t i(2)
    by (rule exI [of _ excs'], rule exI [of _ l']) (simp add: i(1))
qed

text \<open>
  C9: \<^verbatim>\<open>_createTransport\<close> takes the endpoints in the order of the server: it connects the transport of the
  first one that is known to the client, allowed by the requested transports, speaks the transfer
  format and has its browser class, with the url of the negotiation; when there is none, \<^verbatim>\<open>start\<close> fails and the
  error lists two entries per endpoint.
\<close>

theorem first_usable_transport:
  assumes "\<forall>x \<in> set pre. well_formed x \<and> (\<forall>t. \<not> usable (he_options env) fmt x t)"
    and "fst (ht_starts s ! i) = fmt" "i < length (ht_starts s)"
  shows "(usable (he_options env) fmt e t \<longrightarrow>
      (let s' = ht_try env i url cu (Some n) [] (pre @ e # rest) s in
        ht_connects s' = ht_connects s @ [(t, cu, fmt)] \<and> ht_transport s' = Some t \<and>
        (\<exists>ep. snd (ht_starts s' ! i) = AwaitTransport ep \<and> ep_endpoint ep = e \<and> ep_rest ep = rest \<and> ep_negotiate ep = n))) \<and>
    (\<exists>excs. length excs = 2 * length pre \<and>
       snd (ht_starts (ht_try env i url cu (Some n) [] pre s) ! i) = InnerSettled (Inl (no_transports_error excs)) \<and>
       ht_state (ht_try env i url cu (Some n) [] pre s) = CDisconnected)"
proof (intro conjI impI)
  assume u: "usable (he_options env) fmt e t"
  obtain excs' l where k: "ht_try env i url cu (Some n) [] (pre @ e # rest) s = ht_try env i url cu (Some n) excs' (e # rest) (s\<lparr>ht_log := l\<rparr>)"
    using try_skips [OF assms(1,2), of "[]" url cu "Some n" "e # rest"] by blast
  obtain l' where r: "resolveTransportOrError (he_options env) (ho_transport (he_options env)) fmt e = Inr (Inr t, l')"
    using resolve_iff u by blast
  have f: "fst (ht_starts (s\<lparr>ht_log := l\<rparr>) ! i) = fmt" using assms(2) by simp
  show "let s' = ht_try env i url cu (Some n) [] (pre @ e # rest) s in
        ht_connects s' = ht_connects s @ [(t, cu, fmt)] \<and> ht_transport s' = Some t \<and>
        (\<exists>ep. snd (ht_starts s' ! i) = AwaitTransport ep \<and> ep_endpoint ep = e \<and> ep_rest ep = rest \<and> ep_negotiate ep = n)"
    unfolding k ht_try.simps Let_def f r sum.case prod.case option.case
    using assms(3) by (simp add: ht_startTransport_def ht_set_start_def)
next
  obtain excs' l where k: "length excs' = 2 * length pre"
    "ht_try env i url cu (Some n) [] (pre @ []) s = ht_try env i url cu (Some n) excs' [] (s\<lparr>ht_log := l\<rparr>)"
    using try_skips [OF assms(1,2), of "[]" url cu "Some n" "[]"] by auto
  show "\<exists>excs. length excs = 2 * length pre \<and>
       snd (ht_starts (ht_try env i url cu (Some n) [] pre s) ! i) = InnerSettled (Inl (no_transports_error excs)) \<and>
       ht_state (ht_try env i url cu (Some n) [] pre s) = CDisconnected"
    using k assms(3) start_failed_at by (intro exI [of _ excs']) simp
qed

definition endpoint_of :: "string \<Rightarrow> string list \<Rightarrow> jsval" where
  "endpoint_of name formats = JObj [(''transport'', JStr name), (''transferFormats'', JArr (map JStr formats))]"

lemma endpoint_of_formats:
  "endpoint_formats (endpoint_of name fs) = Inr (map (\<lambda>f. enum_get TransferFormat_object (JStr f)) fs)"
  "get_prop (endpoint_of name fs) ''transport'' = Inr (JStr name)"
  by (simp_all add: endpoint_formats_def endpoint_of_def)

theorem first_usable_transport_witness:
  "ht_transport (ht_try sample_env 0 ''u'' ''v'' (Some JNull) [] [endpoint_of ''WebRTC'' [''Text''], endpoint_of ''LongPolling'' [''Text'']] (sample_ht 1))
     = Some TLongPolling"
proof -
  have a: "enum_get HttpTransportType_object (JStr ''WebRTC'') = JUndef" by code_simp
  have "\<forall>x \<in> set [endpoint_of ''WebRTC'' [''Text'']]. well_formed x \<and> (\<forall>t. \<not> usable (he_options sample_env) 1 x t)"
    by (simp add: well_formed_def usable_def endpoint_of_formats ht_prop_def a)
  moreover have "fst (ht_starts (sample_ht 1) ! 0) = 1" by code_simp
  moreover have "0 < length (ht_starts (sample_ht 1))" by code_simp
  moreover have "usable (he_options sample_env) 1 (endpoint_of ''LongPolling'' [''Text'']) TLongPolling"
  proof -
    have "enum_get HttpTransportType_object (JStr ''LongPolling'') = JNum 4" "enum_get TransferFormat_object (JStr ''Text'') = JNum 1"
      "transportMatches (ho_transport (he_options sample_env)) (JNum 4)" by code_simp+
    then show ?thesis by (simp add: usable_def endpoint_of_formats ht_prop_def)
  qed
  ultimately show ?thesis
    using first_usable_transport [of "[endpoint_of ''WebRTC'' [''Text'']]" sample_env 1 "sample_ht 1" 0
        "endpoint_of ''LongPolling'' [''Text'']" TLongPolling "''u''" "''v''" JNull "[]"]
    by (simp add: Let_def)
qed

end
