(* ===== verification/Sr_Builder.thy ===== *)
theory Sr_Builder
  imports Sr_HubConnection Sr_HttpConnection
begin

text \<open>
  HubConnectionBuilder.ts, the module wrapper webpack puts around signalr.js, and the polyfills of
  browser-index.ts. The options object is an association list in property order, so that the spreads
  of \<^verbatim>\<open>withUrl\<close> are \<open>obj_spread\<close>; \<open>OThing\<close> is a class, function or object the code only tests.
\<close>

section \<open>The module wrapper\<close>

datatype umd_target = ModuleExports | AmdDefine | ExportsProperty string | RootProperty string

text \<open>The arguments: \<^verbatim>\<open>typeof exports\<close>, \<^verbatim>\<open>typeof module\<close>, \<^verbatim>\<open>typeof define\<close> and whether \<^verbatim>\<open>define.amd\<close> is truthy.\<close>

definition umd :: "string \<Rightarrow> string \<Rightarrow> string \<Rightarrow> bool \<Rightarrow> umd_target" where
  "umd t_exports t_module t_define amd =
     (if t_exports = ''object'' \<and> t_module = ''object'' then ModuleExports
      else if t_define = ''function'' \<and> amd then AmdDefine
      else if t_exports = ''object'' then ExportsProperty ''signalR''
      else RootProperty ''signalR'')"

definition webpack_o :: "(string \<times> 'v) list \<Rightarrow> string \<Rightarrow> bool" where
  "webpack_o obj prop = (prop \<in> set (obj_keys obj))"

fun webpack_d :: "(string \<times> 'v) list \<Rightarrow> (string \<times> 'v) list \<Rightarrow> (string \<times> 'v) list" where
  "webpack_d exports [] = exports"
| "webpack_d exports ((key, get) # definition) =
     webpack_d (if \<not> webpack_o exports key then exports @ [(key, get)] else exports) definition"

text \<open>\<^verbatim>\<open>Symbol.toStringTag\<close>, when there is one, and \<^verbatim>\<open>__esModule\<close>.\<close>

definition webpack_r :: "bool \<Rightarrow> (string \<times> jsval) list \<Rightarrow> (string \<times> jsval) list" where
  "webpack_r has_tag exports =
     obj_set ''__esModule'' (JBool True) (if has_tag then obj_set ''Symbol.toStringTag'' (JStr ''Module'') exports else exports)"

text \<open>\<^verbatim>\<open>this\<close> is \<^verbatim>\<open>undefined\<close> in strict code; \<open>eval_allowed\<close>: whether \<^verbatim>\<open>new Function\<close> is permitted.\<close>

datatype webpack_global = WpGlobalThis | WpFunctionThis | WpWindow | WpUndefined

definition webpack_g :: "bool \<Rightarrow> bool \<Rightarrow> bool \<Rightarrow> webpack_global" where
  "webpack_g has_globalThis eval_allowed has_window =
     (if has_globalThis then WpGlobalThis else if eval_allowed then WpFunctionThis
      else if has_window then WpWindow else WpUndefined)"

definition signalR_exports :: "string list" where
  "signalR_exports =
     [''AbortError'', ''DefaultHttpClient'', ''HttpClient'', ''HttpError'', ''HttpResponse'', ''HttpTransportType'', ''HubConnection'',
      ''HubConnectionBuilder'', ''HubConnectionState'', ''JsonHubProtocol'', ''LogLevel'', ''MessageType'', ''NullLogger'', ''Subject'',
      ''TimeoutError'', ''TransferFormat'', ''VERSION'']"

section \<open>browser-index.ts\<close>

text \<open>\<^verbatim>\<open>Array.prototype.slice.call(a, start, end)\<close>: negative positions count from the end; an absent end is the length.\<close>

definition slice_pos :: "nat \<Rightarrow> int \<Rightarrow> nat" where
  "slice_pos len i = (if i < 0 then nat (max 0 (int len + i)) else min (nat i) len)"

definition array_slice :: "'a list \<Rightarrow> int \<Rightarrow> int option \<Rightarrow> 'a list" where
  "array_slice a start end =
     (let k = slice_pos (length a) start; f = (case end of None \<Rightarrow> length a | Some e \<Rightarrow> slice_pos (length a) e)
      in take (f - k) (drop k a))"

text \<open>The methods the script adds to \<^verbatim>\<open>Uint8Array.prototype\<close> when they are missing.\<close>

definition polyfills :: "string list \<Rightarrow> string list" where
  "polyfills present = present @ filter (\<lambda>m. m \<notin> set present) [''indexOf'', ''slice'', ''forEach'']"

section \<open>HubConnectionBuilder.ts\<close>

definition LogLevelNameMapping :: "(string \<times> log_level) list" where
  "LogLevelNameMapping =
     [(''trace'', LTrace), (''debug'', LDebug), (''info'', LInformation), (''information'', LInformation), (''warn'', LWarning),
      (''warning'', LWarning), (''error'', LError), (''critical'', LCritical), (''none'', LNone)]"

text \<open>
  \<^verbatim>\<open>parseLogLevel\<close>. A name that is a property of \<^verbatim>\<open>Object.prototype\<close> is found there and returned as a level
  that is no number; the model does not follow that value.
\<close>

definition parseLogLevel :: "string \<Rightarrow> log_level result" where
  "parseLogLevel name =
     (case obj_get LogLevelNameMapping (toLowerCase name) of
        Some l \<Rightarrow> Inr l
      | None \<Rightarrow> if toLowerCase name \<in> set object_prototype then Inl OutsideModel else Inl (Error (''Unknown log level: '' @ name)))"

datatype opt_val = OJs jsval | OHeaders "(string \<times> string) list" | OLogger logger_arg | OThing

type_synonym options = "(string \<times> opt_val) list"

datatype policy_arg = PolicyNone | PolicyDelays "jsval list" | PolicyObject nat

datatype policy = DelayPolicy "jsval list" | GivenPolicy nat

record hub_builder =
  hb_logger :: "logger option"
  hb_url :: "string option"
  hb_httpConnectionOptions :: "options option"
  hb_protocol :: "nat option"
  hb_reconnectPolicy :: "policy option"

definition HubConnectionBuilder_new :: hub_builder where
  "HubConnectionBuilder_new =
     \<lparr>hb_logger = None, hb_url = None, hb_httpConnectionOptions = None, hb_protocol = None, hb_reconnectPolicy = None\<rparr>"

datatype logging_arg = LoggingMissing | LoggingLogger logger | LoggingName string | LoggingLevel log_level

definition configureLogging :: "logging_arg \<Rightarrow> hub_builder \<Rightarrow> hub_builder result" where
  "configureLogging logging b =
     (case logging of
        LoggingMissing \<Rightarrow> Inl (Error (''The '' @ sq ''logging'' @ '' argument is required.''))
      | LoggingLogger l \<Rightarrow> Inr (b\<lparr>hb_logger := Some l\<rparr>)
      | LoggingName name \<Rightarrow> rbind (parseLogLevel name) (\<lambda>l. Inr (b\<lparr>hb_logger := Some (ConsoleLogger l)\<rparr>))
      | LoggingLevel l \<Rightarrow> Inr (b\<lparr>hb_logger := Some (ConsoleLogger l)\<rparr>))"

text \<open>The second argument of \<^verbatim>\<open>withUrl\<close>: an object (\<^verbatim>\<open>null\<close> is one, without properties) or anything else.\<close>

datatype url_arg = UrlObject options | UrlOther jsval

definition withUrl :: "jsval \<Rightarrow> url_arg \<Rightarrow> hub_builder \<Rightarrow> hub_builder result" where
  "withUrl url transportTypeOrOptions b =
     rbind (Arg_isRequired url ''url'') (\<lambda>_.
       case url of
         JStr u \<Rightarrow>
           rbind (Arg_isNotEmpty u ''url'') (\<lambda>_.
             let old = (case hb_httpConnectionOptions b of None \<Rightarrow> [] | Some o' \<Rightarrow> o') in
             Inr (b\<lparr>hb_url := Some u,
                    hb_httpConnectionOptions := Some (obj_spread (obj_spread [] old)
                      (case transportTypeOrOptions of UrlObject o' \<Rightarrow> o' | UrlOther v \<Rightarrow> [(''transport'', OJs v)]))\<rparr>))
       | _ \<Rightarrow> if truthy url then Inl (TypeError ''val.match is not a function'')
              else Inl (Error (''The '' @ sq ''url'' @ '' argument should not be empty.'')))"

definition withHubProtocol :: "nat option \<Rightarrow> hub_builder \<Rightarrow> hub_builder result" where
  "withHubProtocol protocol b =
     (case protocol of
        None \<Rightarrow> Inl (Error (''The '' @ sq ''protocol'' @ '' argument is required.''))
      | Some p \<Rightarrow> Inr (b\<lparr>hb_protocol := Some p\<rparr>))"

definition withAutomaticReconnect :: "policy_arg \<Rightarrow> hub_builder \<Rightarrow> hub_builder result" where
  "withAutomaticReconnect arg b =
     (if hb_reconnectPolicy b \<noteq> None then Inl (Error ''A reconnectPolicy has already been set.'')
      else Inr (b\<lparr>hb_reconnectPolicy := Some (case arg of
             PolicyNone \<Rightarrow> DelayPolicy (DefaultReconnectPolicy_new None)
           | PolicyDelays ds \<Rightarrow> DelayPolicy (DefaultReconnectPolicy_new (Some ds))
           | PolicyObject p \<Rightarrow> GivenPolicy p)\<rparr>))"

text \<open>Reading the options object.\<close>

definition opt_get :: "options \<Rightarrow> string \<Rightarrow> opt_val" where
  "opt_get o' k = (case obj_get o' k of None \<Rightarrow> OJs JUndef | Some v \<Rightarrow> v)"

definition opt_truthy :: "opt_val \<Rightarrow> bool" where
  "opt_truthy v = (case v of OJs j \<Rightarrow> truthy j | OLogger LogUndef \<Rightarrow> False | OLogger LogNull \<Rightarrow> False | _ \<Rightarrow> True)"

definition opt_undefined :: "opt_val \<Rightarrow> bool" where
  "opt_undefined v \<longleftrightarrow> v = OJs JUndef \<or> v = OLogger LogUndef"

definition user_options_of :: "options \<Rightarrow> user_options result" where
  "user_options_of o' =
     (case (opt_get o' ''transport'', opt_get o' ''timeout'', opt_get o' ''headers'') of
        (transport, timeout, headers) \<Rightarrow>
          rbind (case transport of OJs JUndef \<Rightarrow> Inr ReqAny | OJs JNull \<Rightarrow> Inr ReqAny | OJs (JNum n) \<Rightarrow> Inr (ReqTypes n)
                 | OThing \<Rightarrow> Inr ReqInstance | _ \<Rightarrow> Inl OutsideModel) (\<lambda>tr.
          rbind (case timeout of OJs JUndef \<Rightarrow> Inr None | OJs (JNum n) \<Rightarrow> Inr (Some n) | _ \<Rightarrow> Inl OutsideModel) (\<lambda>tm.
          rbind (case headers of OJs JUndef \<Rightarrow> Inr [] | OHeaders h \<Rightarrow> Inr h | _ \<Rightarrow> Inl OutsideModel) (\<lambda>hs.
            Inr \<lparr>uo_logMessageContent = (if opt_undefined (opt_get o' ''logMessageContent'') then None else Some (opt_truthy (opt_get o' ''logMessageContent''))),
                 uo_withCredentials = (case opt_get o' ''withCredentials'' of OJs JUndef \<Rightarrow> TriUndef | OJs (JBool x) \<Rightarrow> TriBool x | _ \<Rightarrow> TriOther),
                 uo_timeout = tm, uo_headers = hs, uo_transport = tr,
                 uo_skipNegotiation = opt_truthy (opt_get o' ''skipNegotiation''),
                 uo_WebSocket = opt_truthy (opt_get o' ''WebSocket''), uo_EventSource = opt_truthy (opt_get o' ''EventSource''),
                 uo_factory = opt_truthy (opt_get o' ''accessTokenFactory''), uo_httpClient = opt_truthy (opt_get o' ''httpClient'')\<rparr>))))"

text \<open>The assignments of the HttpConnection constructor to the options object it was given.\<close>

definition options_written :: "http_options \<Rightarrow> options \<Rightarrow> options" where
  "options_written ho o' =
     (let o1 = (if opt_undefined (opt_get o' ''logMessageContent'') then obj_set ''logMessageContent'' (OJs (JBool False)) o' else o');
          o2 = obj_set ''withCredentials'' (OJs (JBool (so_withCredentials (ho_send ho)))) o1;
          o3 = obj_set ''timeout'' (OJs (JNum (so_timeout (ho_send ho)))) o2;
          o4 = (if ho_WebSocket ho \<and> \<not> opt_truthy (opt_get o3 ''WebSocket'') then obj_set ''WebSocket'' OThing o3 else o3)
      in if ho_EventSource ho \<and> \<not> opt_truthy (opt_get o4 ''EventSource'') then obj_set ''EventSource'' OThing o4 else o4)"

record built =
  bt_env :: ht_env
  bt_connection :: http_connection
  bt_connection_logger :: logger
  bt_hub :: hub
  bt_logger :: logger
  bt_protocol :: "nat option"
  bt_policy :: "policy option"

text \<open>
  \<^verbatim>\<open>build\<close>: the connection and the hub, and the builder with its options object as the constructor leaves it.
  No protocol means the JSON protocol.
\<close>

definition build_options :: "hub_builder \<Rightarrow> options" where
  "build_options b =
     (let o' = (case hb_httpConnectionOptions b of None \<Rightarrow> [] | Some x \<Rightarrow> x) in
      if opt_undefined (opt_get o' ''logger'')
      then obj_set ''logger'' (case hb_logger b of None \<Rightarrow> OJs JUndef | Some l \<Rightarrow> OLogger (LogObject l)) o' else o')"

definition opt_logger :: "opt_val \<Rightarrow> logger result" where
  "opt_logger v =
     (case v of OJs JUndef \<Rightarrow> Inr (createLogger LogUndef) | OJs JNull \<Rightarrow> Inr (createLogger LogNull)
      | OLogger a \<Rightarrow> Inr (createLogger a) | _ \<Rightarrow> Inl OutsideModel)"

definition HubConnectionBuilder_build ::
    "platform \<Rightarrow> bool \<times> bool \<Rightarrow> (string \<Rightarrow> string) \<Rightarrow> hub_builder \<Rightarrow> (built \<times> hub_builder) result" where
  "HubConnectionBuilder_build p modules anchor b =
     (let o' = build_options b in
      case hb_url b of
        None \<Rightarrow> Inl (Error (''The '' @ sq ''HubConnectionBuilder.withUrl'' @ '' method must be called before building the connection.''))
      | Some url \<Rightarrow>
          rbind (opt_logger (opt_get o' ''logger'')) (\<lambda>cl.
          rbind (user_options_of o') (\<lambda>u.
          rbind (HttpConnection_create p modules anchor (JStr url) u True) (\<lambda>(env, c).
            Inr (\<lparr>bt_env = env, bt_connection = c, bt_connection_logger = cl,
                   bt_hub = HubConnection_new (ht_inherentKeepAlive c) (ht_baseUrl c),
                   bt_logger = (case hb_logger b of None \<Rightarrow> NullLogger | Some l \<Rightarrow> l), bt_protocol = hb_protocol b,
                   bt_policy = hb_reconnectPolicy b\<rparr>,
                 b\<lparr>hb_httpConnectionOptions :=
                     (case hb_httpConnectionOptions b of None \<Rightarrow> None | Some _ \<Rightarrow> Some (options_written (he_options env) o'))\<rparr>)))))"

section \<open>Properties\<close>

lemma webpack_d_keys:
  "distinct (obj_keys defs) \<Longrightarrow> set (obj_keys defs) \<inter> set (obj_keys exports) = {} \<Longrightarrow>
   webpack_d exports defs = exports @ defs"
proof (induction defs arbitrary: exports)
  case (Cons d ds)
  obtain k g where d: "d = (k, g)" by force
  have "k \<notin> set (obj_keys exports)" "distinct (obj_keys ds)" "set (obj_keys ds) \<inter> set (obj_keys (exports @ [(k, g)])) = {}"
    using Cons.prems d by auto
  then show ?case using Cons.IH d by (simp add: webpack_o_def)
qed simp

lemma array_slice_all: "array_slice a 0 None = a"
  by (simp add: array_slice_def slice_pos_def)

lemma array_slice_length: "length (array_slice a i j) \<le> length a"
  by (simp add: array_slice_def Let_def)

lemma parseLogLevel_case: "toLowerCase a = toLowerCase b \<Longrightarrow> parseLogLevel a = Inr l \<Longrightarrow> parseLogLevel b = Inr l"
  by (simp add: parseLogLevel_def split: option.splits if_splits)

lemma HttpConnection_options_Some:
  "HttpConnection_options p m u = Inr ho \<Longrightarrow> uo_withCredentials u \<noteq> TriOther"
  by (auto simp: HttpConnection_options_def split: tri.splits)

lemma opt_get_set [simp]: "opt_get (obj_set k v o') k' = (if k' = k then v else opt_get o' k')"
  by (simp add: opt_get_def)

lemma options_written_get:
  "opt_get (options_written ho o') k =
     (if k = ''EventSource'' then (if ho_EventSource ho \<and> \<not> opt_truthy (opt_get o' k) then OThing else opt_get o' k)
      else if k = ''WebSocket'' then (if ho_WebSocket ho \<and> \<not> opt_truthy (opt_get o' k) then OThing else opt_get o' k)
      else if k = ''timeout'' then OJs (JNum (so_timeout (ho_send ho)))
      else if k = ''withCredentials'' then OJs (JBool (so_withCredentials (ho_send ho)))
      else if k = ''logMessageContent'' then (if opt_undefined (opt_get o' k) then OJs (JBool False) else opt_get o' k)
      else opt_get o' k)"
  by (auto simp: options_written_def Let_def)

text \<open>The options the constructor computes do not change when it reads what it wrote.\<close>

definition user_view :: "platform \<Rightarrow> bool \<times> bool \<Rightarrow> options \<Rightarrow> http_options result" where
  "user_view p m o' = rbind (user_options_of o') (HttpConnection_options p m)"

lemma options_again:
  assumes "HttpConnection_options p m u = Inr ho"
    "uo_transport u' = uo_transport u" "uo_skipNegotiation u' = uo_skipNegotiation u" "uo_factory u' = uo_factory u" "uo_headers u' = uo_headers u"
    "uo_withCredentials u' = TriBool (so_withCredentials (ho_send ho))" "uo_timeout u' = Some (so_timeout (ho_send ho))"
    "(uo_logMessageContent u' = Some True) = (uo_logMessageContent u = Some True)"
    "uo_WebSocket u' = (uo_WebSocket u \<or> ho_WebSocket ho)" "uo_EventSource u' = (uo_EventSource u \<or> ho_EventSource ho)"
  shows "HttpConnection_options p m u' = Inr ho"
proof -
  have "HttpConnection_options p m v = (if uo_withCredentials v = TriOther then Inl (Error (''withCredentials option was not a '' @ sq ''boolean'' @ '' or '' @ sq ''undefined'' @ '' value''))
    else Inr \<lparr>ho_transport = uo_transport v, ho_skipNegotiation = uo_skipNegotiation v,
               ho_WebSocket = (uo_WebSocket v \<or> (if isNode p then fst m else pf_has_WebSocket p)),
               ho_EventSource = (uo_EventSource v \<or> (if isNode p then snd m else pf_has_EventSource p)),
               ho_factory = uo_factory v,
               ho_send = \<lparr>so_logMessageContent = (uo_logMessageContent v = Some True),
                          so_headers = uo_headers v,
                          so_timeout = (case uo_timeout v of None \<Rightarrow> 100 * 1000 | Some t \<Rightarrow> t),
                          so_withCredentials = (uo_withCredentials v = TriUndef \<or> uo_withCredentials v = TriBool True)\<rparr>\<rparr>)" for v
    unfolding HttpConnection_options_def by (cases "uo_withCredentials v"; cases "uo_logMessageContent v") simp_all
  note e = this [of u] this [of u']
  have h: "ho = \<lparr>ho_transport = uo_transport u, ho_skipNegotiation = uo_skipNegotiation u,
               ho_WebSocket = (uo_WebSocket u \<or> (if isNode p then fst m else pf_has_WebSocket p)),
               ho_EventSource = (uo_EventSource u \<or> (if isNode p then snd m else pf_has_EventSource p)),
               ho_factory = uo_factory u,
               ho_send = \<lparr>so_logMessageContent = (uo_logMessageContent u = Some True),
                          so_headers = uo_headers u,
                          so_timeout = (case uo_timeout u of None \<Rightarrow> 100 * 1000 | Some t \<Rightarrow> t),
                          so_withCredentials = (uo_withCredentials u = TriUndef \<or> uo_withCredentials u = TriBool True)\<rparr>\<rparr>"
    using assms(1) unfolding e(1) by (simp split: if_splits)
  show ?thesis unfolding e(2) assms(2-10) by (subst h) (auto simp: h)
qed

lemma written_once:
  assumes "user_options_of o' = Inr u" "HttpConnection_options p m u = Inr ho"
  shows "\<exists>u'. user_options_of (options_written ho o') = Inr u' \<and> HttpConnection_options p m u' = Inr ho \<and> uo_httpClient u' = uo_httpClient u"
proof -
  let ?o = "options_written ho o'"
  obtain tr tm hs where
    u: "(case opt_get o' ''transport'' of OJs JUndef \<Rightarrow> Inr ReqAny | OJs JNull \<Rightarrow> Inr ReqAny | OJs (JNum n) \<Rightarrow> Inr (ReqTypes n)
                 | OThing \<Rightarrow> Inr ReqInstance | _ \<Rightarrow> Inl OutsideModel) = Inr tr"
      "(case opt_get o' ''headers'' of OJs JUndef \<Rightarrow> Inr [] | OHeaders h \<Rightarrow> Inr h | _ \<Rightarrow> Inl OutsideModel) = Inr hs"
    and ue: "u = \<lparr>uo_logMessageContent = (if opt_undefined (opt_get o' ''logMessageContent'') then None else Some (opt_truthy (opt_get o' ''logMessageContent''))),
                 uo_withCredentials = (case opt_get o' ''withCredentials'' of OJs JUndef \<Rightarrow> TriUndef | OJs (JBool x) \<Rightarrow> TriBool x | _ \<Rightarrow> TriOther),
                 uo_timeout = tm, uo_headers = hs, uo_transport = tr,
                 uo_skipNegotiation = opt_truthy (opt_get o' ''skipNegotiation''),
                 uo_WebSocket = opt_truthy (opt_get o' ''WebSocket''), uo_EventSource = opt_truthy (opt_get o' ''EventSource''),
                 uo_factory = opt_truthy (opt_get o' ''accessTokenFactory''), uo_httpClient = opt_truthy (opt_get o' ''httpClient'')\<rparr>"
    using assms(1) unfolding user_options_of_def prod.case rbind_Inr_iff by blast
  have k: "opt_get ?o ''transport'' = opt_get o' ''transport''" "opt_get ?o ''headers'' = opt_get o' ''headers''"
    "opt_get ?o ''timeout'' = OJs (JNum (so_timeout (ho_send ho)))"
    "opt_get ?o ''withCredentials'' = OJs (JBool (so_withCredentials (ho_send ho)))"
    "opt_get ?o ''skipNegotiation'' = opt_get o' ''skipNegotiation''" "opt_get ?o ''accessTokenFactory'' = opt_get o' ''accessTokenFactory''"
    "opt_get ?o ''httpClient'' = opt_get o' ''httpClient''"
    "opt_get ?o ''logMessageContent'' = (if opt_undefined (opt_get o' ''logMessageContent'') then OJs (JBool False) else opt_get o' ''logMessageContent'')"
    "opt_get ?o ''WebSocket'' = (if ho_WebSocket ho \<and> \<not> opt_truthy (opt_get o' ''WebSocket'') then OThing else opt_get o' ''WebSocket'')"
    "opt_get ?o ''EventSource'' = (if ho_EventSource ho \<and> \<not> opt_truthy (opt_get o' ''EventSource'') then OThing else opt_get o' ''EventSource'')"
    by (simp_all add: options_written_get)
  define u' where "u' = \<lparr>uo_logMessageContent = (if opt_undefined (opt_get ?o ''logMessageContent'') then None else Some (opt_truthy (opt_get ?o ''logMessageContent''))),
                 uo_withCredentials = TriBool (so_withCredentials (ho_send ho)),
                 uo_timeout = Some (so_timeout (ho_send ho)), uo_headers = hs, uo_transport = tr,
                 uo_skipNegotiation = opt_truthy (opt_get o' ''skipNegotiation''),
                 uo_WebSocket = opt_truthy (opt_get ?o ''WebSocket''), uo_EventSource = opt_truthy (opt_get ?o ''EventSource''),
                 uo_factory = opt_truthy (opt_get o' ''accessTokenFactory''), uo_httpClient = opt_truthy (opt_get o' ''httpClient'')\<rparr>"
  have "user_options_of ?o = Inr u'"
    unfolding user_options_of_def prod.case k(1-7) u rbind_simps u'_def by simp
  moreover have "HttpConnection_options p m u' = Inr ho"
    by (rule options_again [OF assms(2)]) (auto simp: ue u'_def k(8-10) opt_truthy_def opt_undefined_def)
  ultimately show ?thesis unfolding ue u'_def by auto
qed

lemma create_options:
  assumes "HttpConnection_create p m a url u oc = Inr (env, c)"
  shows "HttpConnection_options p m u = Inr (he_options env)"
proof -
  from assms obtain s where s: "(case resolveUrl p a s of (Inl e, _) \<Rightarrow> Inl e
       | (Inr baseUrl, logged) \<Rightarrow>
           rbind (HttpConnection_options p m u) (\<lambda>opts.
           rbind (if uo_httpClient u then Inr () else rbind (DefaultHttpClient_new p) (\<lambda>_. Inr ())) (\<lambda>_.
             Inr (\<lparr>he_options = opts, he_platform = p\<rparr>, HttpConnection_new opts baseUrl logged oc)))) = Inr (env, c)"
    unfolding HttpConnection_create_def rbind_Inr_iff by blast
  obtain r l where r: "resolveUrl p a s = (r, l)" by force
  from s show ?thesis unfolding r prod.case by (cases r) (auto simp: rbind_Inr_iff)
qed

lemma create_same:
  "HttpConnection_options p m u' = HttpConnection_options p m u \<Longrightarrow> uo_httpClient u' = uo_httpClient u \<Longrightarrow>
   HttpConnection_create p m a url u' oc = HttpConnection_create p m a url u oc"
  by (simp only: HttpConnection_create_def)

lemma user_options_logger: "user_options_of (obj_set ''logger'' v o') = user_options_of o'"
  by (simp add: user_options_of_def)

lemma build_Inr:
  "HubConnectionBuilder_build p m a b = Inr (x, b') \<longleftrightarrow>
   (\<exists>url cl u env c. hb_url b = Some url \<and> opt_logger (opt_get (build_options b) ''logger'') = Inr cl \<and>
      user_options_of (build_options b) = Inr u \<and> HttpConnection_create p m a (JStr url) u True = Inr (env, c) \<and>
      x = \<lparr>bt_env = env, bt_connection = c, bt_connection_logger = cl,
           bt_hub = HubConnection_new (ht_inherentKeepAlive c) (ht_baseUrl c),
           bt_logger = (case hb_logger b of None \<Rightarrow> NullLogger | Some l \<Rightarrow> l), bt_protocol = hb_protocol b,
           bt_policy = hb_reconnectPolicy b\<rparr> \<and>
      b' = b\<lparr>hb_httpConnectionOptions :=
             (case hb_httpConnectionOptions b of None \<Rightarrow> None | Some _ \<Rightarrow> Some (options_written (he_options env) (build_options b)))\<rparr>)"
  by (cases "hb_url b") (auto simp: HubConnectionBuilder_build_def Let_def rbind_Inr_iff)

text \<open>
  C34: The HttpConnection constructor writes its defaults into the options object of the builder;
  building a second time from the same builder still gives the same connection, hub and settings.
\<close>

theorem second_build_same:
  assumes "HubConnectionBuilder_build p m a b = Inr (x, b')"
  shows "\<exists>b''. HubConnectionBuilder_build p m a b' = Inr (x, b'')"
proof -
  let ?o = "build_options b"
  obtain url cl u env c where b: "hb_url b = Some url" "opt_logger (opt_get ?o ''logger'') = Inr cl" "user_options_of ?o = Inr u"
    "HttpConnection_create p m a (JStr url) u True = Inr (env, c)"
    "x = \<lparr>bt_env = env, bt_connection = c, bt_connection_logger = cl, bt_hub = HubConnection_new (ht_inherentKeepAlive c) (ht_baseUrl c),
           bt_logger = (case hb_logger b of None \<Rightarrow> NullLogger | Some l \<Rightarrow> l), bt_protocol = hb_protocol b, bt_policy = hb_reconnectPolicy b\<rparr>"
    "b' = b\<lparr>hb_httpConnectionOptions :=
             (case hb_httpConnectionOptions b of None \<Rightarrow> None | Some _ \<Rightarrow> Some (options_written (he_options env) ?o))\<rparr>"
    using assms unfolding build_Inr by blast
  let ?w = "options_written (he_options env) ?o"
  obtain u' where u': "user_options_of ?w = Inr u'" "HttpConnection_options p m u' = Inr (he_options env)" "uo_httpClient u' = uo_httpClient u"
    using written_once [OF b(3) create_options [OF b(4)]] by blast
  have cr: "HttpConnection_create p m a (JStr url) u' True = Inr (env, c)"
    using create_same [of p m u' u a "JStr url" True] u' create_options [OF b(4)] b(4) by simp
  have g: "opt_get ?w ''logger'' = opt_get ?o ''logger''" by (simp add: options_written_get)
  have lg: "opt_undefined (opt_get ?o ''logger'') \<Longrightarrow> hb_logger b = None \<and> opt_get ?o ''logger'' = OJs JUndef"
    by (auto simp: build_options_def Let_def opt_undefined_def opt_get_def split: option.splits if_splits)
  have "build_options b' = ?w \<or> (build_options b' = obj_set ''logger'' (OJs JUndef) ?w \<and> opt_get ?o ''logger'' = OJs JUndef)"
    if "hb_httpConnectionOptions b \<noteq> None"
  proof -
    have o: "hb_httpConnectionOptions b' = Some ?w" "hb_logger b' = hb_logger b" using that b(6) by auto
    have "build_options b' = (if opt_undefined (opt_get ?o ''logger'')
        then obj_set ''logger'' (case hb_logger b of None \<Rightarrow> OJs JUndef | Some l \<Rightarrow> OLogger (LogObject l)) ?w else ?w)"
      unfolding build_options_def [of b'] o option.case Let_def g ..
    then show ?thesis using lg by (cases "opt_undefined (opt_get ?o ''logger'')") simp_all
  qed
  then have r: "opt_get (build_options b') ''logger'' = opt_get ?o ''logger'' \<and> user_options_of (build_options b') = Inr u'"
    if "hb_httpConnectionOptions b \<noteq> None" using that g u'(1) by (auto simp: user_options_logger)
  show ?thesis
  proof (cases "hb_httpConnectionOptions b")
    case None
    then have "b' = b" using b(6) by simp
    then show ?thesis using assms by auto
  next
    case (Some o')
    then have r': "opt_logger (opt_get (build_options b') ''logger'') = Inr cl" "user_options_of (build_options b') = Inr u'" using r b(2) by auto
    have f: "hb_url b' = Some url" "hb_logger b' = hb_logger b" "hb_protocol b' = hb_protocol b" "hb_reconnectPolicy b' = hb_reconnectPolicy b"
      using b(1,6) by simp_all
    show ?thesis unfolding build_Inr using f r' cr b(5) by auto
  qed
qed

text \<open>What the two pages do: \<^verbatim>\<open>new HubConnectionBuilder().withUrl(path).build()\<close>.\<close>

definition page_connection :: "platform \<Rightarrow> bool \<times> bool \<Rightarrow> (string \<Rightarrow> string) \<Rightarrow> string \<Rightarrow> (built \<times> hub_builder) result" where
  "page_connection p m anchor path =
     rbind (withUrl (JStr path) (UrlOther JUndef) HubConnectionBuilder_new) (HubConnectionBuilder_build p m anchor)"

theorem second_build_same_witness:
  "\<exists>x b' b''. page_connection (to_platform sample_options) (False, False) (\<lambda>u. ''http://h'' @ u) ''/hubs/updates'' = Inr (x, b') \<and>
     HubConnectionBuilder_build (to_platform sample_options) (False, False) (\<lambda>u. ''http://h'' @ u) b' = Inr (x, b'') \<and>
     hb_httpConnectionOptions b' \<noteq> Some [(''transport'', OJs JUndef)]"
proof -
  define b where "b = \<lparr>hb_logger = None, hb_url = Some ''/hubs/updates'', hb_httpConnectionOptions = Some [(''transport'', OJs JUndef)], hb_protocol = None, hb_reconnectPolicy = None :: policy option\<rparr>"
  have w: "withUrl (JStr ''/hubs/updates'') (UrlOther JUndef) HubConnectionBuilder_new = Inr b" unfolding b_def by code_simp
  have "\<not> isl (HubConnectionBuilder_build (to_platform sample_options) (False, False) (\<lambda>u. ''http://h'' @ u) b) \<and>
     hb_httpConnectionOptions (snd (projr (HubConnectionBuilder_build (to_platform sample_options) (False, False) (\<lambda>u. ''http://h'' @ u) b)))
       \<noteq> Some [(''transport'', OJs JUndef)]"
    unfolding b_def by code_simp
  then obtain x b' where x: "HubConnectionBuilder_build (to_platform sample_options) (False, False) (\<lambda>u. ''http://h'' @ u) b = Inr (x, b')"
    "hb_httpConnectionOptions b' \<noteq> Some [(''transport'', OJs JUndef)]"
    by (cases "HubConnectionBuilder_build (to_platform sample_options) (False, False) (\<lambda>u. ''http://h'' @ u) b") auto
  have "page_connection (to_platform sample_options) (False, False) (\<lambda>u. ''http://h'' @ u) ''/hubs/updates'' = Inr (x, b')"
    by (simp only: page_connection_def w rbind_simps x(1))
  with second_build_same [OF x(1)] x(2) show ?thesis by blast
qed

end
