(* ===== verification/Dev_Console.thy ===== *)
theory Dev_Console
  imports Js_Json
begin

text \<open>
  The page of the developer console: console.js and the class of compare_window.js it refers to. The state
  is the part of the document the script touches, as Views/Shared/_Layout.cshtml lays it out: the
  contents of \<^verbatim>\<open>#console-container\<close> and the buttons of \<^verbatim>\<open>#console-list\<close> after its hidden template. What a
  handler asks of the hub connection is recorded in order. How the browser renders text
  (\<^verbatim>\<open>innerText\<close> of a tree) is a parameter. A handler that throws leaves the changes it has made.
\<close>

section \<open>The document\<close>

text \<open>A child of the container: a console channel with its id and \<^verbatim>\<open>innerHTML\<close>, or a text.\<close>

datatype page_node = Channel string string | PageText string

fun is_Channel :: "page_node \<Rightarrow> bool" where
  "is_Channel (Channel _ _) = True"
| "is_Channel (PageText _) = False"

fun node_id :: "page_node \<Rightarrow> string option" where
  "node_id (Channel i _) = Some i"
| "node_id (PageText _) = None"

datatype page_call =
    ConsoleLog string
  | ConnectionStart
  | ConnectionInvoke string "jsval list"

record console_page =
  cp_container :: "page_node list"
  cp_buttons :: "(string \<times> jsval) list"
  cp_dict :: "(string \<times> jsval) list"
  cp_calls :: "page_call list"

definition initial_page :: console_page where
  "initial_page =
     \<lparr>cp_container = [Channel ''console-default'' ''this is column 1 ss''], cp_buttons = [], cp_dict = [], cp_calls = [ConnectionStart]\<rparr>"

definition page_does :: "page_call \<Rightarrow> console_page \<Rightarrow> console_page" where
  "page_does c s = s\<lparr>cp_calls := cp_calls s @ [c]\<rparr>"

text \<open>The first channel with an id; the ids of the fixed elements are not represented.\<close>

fun find_node :: "string \<Rightarrow> page_node list \<Rightarrow> nat option" where
  "find_node i [] = None"
| "find_node i (n # ns) = (if node_id n = Some i then Some 0 else map_option Suc (find_node i ns))"

definition fixed_ids :: "string list" where
  "fixed_ids = [''console-container'', ''console-list'', ''compare-window'']"

definition getElementById :: "jsval \<Rightarrow> console_page \<Rightarrow> nat option result" where
  "getElementById v s =
     (if js_to_string v \<in> set fixed_ids then Inl OutsideModel else Inr (find_node (js_to_string v) (cp_container s)))"

fun append_html :: "string \<Rightarrow> page_node \<Rightarrow> page_node" where
  "append_html t (Channel i h) = Channel i (h @ t)"
| "append_html t (PageText x) = PageText x"

fun remove_nth :: "nat \<Rightarrow> 'a list \<Rightarrow> 'a list" where
  "remove_nth k [] = []"
| "remove_nth 0 (x # xs) = xs"
| "remove_nth (Suc k) (x # xs) = x # remove_nth k xs"

section \<open>Handlers\<close>

type_synonym handled = "console_page \<times> unit result"

definition null_read :: "string \<Rightarrow> js_error" where
  "null_read k = TypeError (''Cannot read properties of null (reading '' @ sq k @ '')'')"

definition logDebug :: "jsval \<Rightarrow> console_page \<Rightarrow> handled" where
  "logDebug txt s = (page_does (ConsoleLog (''logDebug: '' @ js_to_string txt)) s, Inr ())"

text \<open>\<^verbatim>\<open>innerText = v\<close>: \<^verbatim>\<open>null\<close> is the empty text.\<close>

definition inner_text :: "jsval \<Rightarrow> string" where
  "inner_text v = (if v = JNull then [] else js_to_string v)"

definition insertButton :: "jsval \<Rightarrow> console_page \<Rightarrow> handled" where
  "insertButton item s =
     (case get_prop item ''id'' of
        Inl e \<Rightarrow> (s, Inl e)
      | Inr i \<Rightarrow>
          (let s1 = page_does (ConsoleLog (''insert buttob '' @ js_to_string i)) s in
           (s1\<lparr>cp_buttons := cp_buttons s1 @ [(inner_text i, item)]\<rparr>, Inr ())))"

fun insert_all :: "jsval list \<Rightarrow> console_page \<Rightarrow> handled" where
  "insert_all [] s = (s, Inr ())"
| "insert_all (itew # items) s =
     (case insertButton itew s of (s1, Inl e) \<Rightarrow> (s1, Inl e) | (s1, Inr _) \<Rightarrow> insert_all items s1)"

text \<open>\<^verbatim>\<open>v.forEach\<close>: only an array has it.\<close>

definition for_each :: "string \<Rightarrow> jsval \<Rightarrow> jsval list result" where
  "for_each name v =
     (case v of
        JArr xs \<Rightarrow> Inr xs
      | JUndef \<Rightarrow> Inl (TypeError (''Cannot read properties of undefined (reading '' @ sq ''forEach'' @ '')''))
      | JNull \<Rightarrow> Inl (null_read ''forEach'')
      | _ \<Rightarrow> Inl (TypeError (name @ ''.forEach is not a function'')))"

definition initilize :: "jsval \<Rightarrow> console_page \<Rightarrow> handled" where
  "initilize txt s0 =
     (let s = page_does (ConsoleLog ''initilize()'') s0 in
      case JSON_parse (js_to_string txt) of
        Inl e \<Rightarrow> (s, Inl e)
      | Inr json \<Rightarrow>
          (let s1 = page_does (ConsoleLog (js_to_string json)) s in
           case rbind (get_prop json ''connections'') (for_each ''items'') of
             Inl e \<Rightarrow> (s1, Inl e)
           | Inr items \<Rightarrow> insert_all items s1))"

text \<open>\<^verbatim>\<open>el.innerText += txt\<close> on the container replaces all its children by one text.\<close>

definition write_text :: "(page_node list \<Rightarrow> string) \<Rightarrow> jsval \<Rightarrow> console_page \<Rightarrow> handled" where
  "write_text render txt s =
     (page_does (ConsoleLog (''logDebug: '' @ js_to_string txt))
        (s\<lparr>cp_container := [PageText (render (cp_container s) @ js_to_string txt)]\<rparr>), Inr ())"

fun first_channel :: "page_node list \<Rightarrow> nat option" where
  "first_channel [] = None"
| "first_channel (n # ns) = (if is_Channel n then Some 0 else map_option Suc (first_channel ns))"

definition write_line :: "jsval \<Rightarrow> console_page \<Rightarrow> handled" where
  "write_line txt s =
     (case first_channel (cp_container s) of
        None \<Rightarrow> (s, Inl (null_read ''innerHTML''))
      | Some k \<Rightarrow>
          (page_does (ConsoleLog (''logDebug: '' @ js_to_string txt))
             (s\<lparr>cp_container := (cp_container s)[k := append_html (''<br>'' @ js_to_string txt) (cp_container s ! k)]\<rparr>), Inr ()))"

definition create_tab :: "jsval \<Rightarrow> console_page \<Rightarrow> handled" where
  "create_tab txt s =
     (case rbind (JSON_parse (js_to_string txt)) (\<lambda>json. get_prop json ''id'') of
        Inl e \<Rightarrow> (s, Inl e)
      | Inr i \<Rightarrow>
          (let tab = JObj [(''tab_id'', i)] in
           (page_does (ConnectionInvoke ''ReportTabCreated'' [tab]) (s\<lparr>cp_dict := obj_set (js_to_string i) tab (cp_dict s)\<rparr>), Inr ())))"

definition connect_console :: "jsval \<Rightarrow> console_page \<Rightarrow> handled" where
  "connect_console txt s = insertButton txt s"

definition disconnect_console :: "jsval \<Rightarrow> console_page \<Rightarrow> handled" where
  "disconnect_console txt s = (s, Inr ())"

text \<open>The loop of \<^verbatim>\<open>fill-console\<close>; the element may not exist.\<close>

fun fill_logs :: "nat option \<Rightarrow> jsval list \<Rightarrow> console_page \<Rightarrow> handled" where
  "fill_logs el [] s = (s, Inr ())"
| "fill_logs None (item # items) s = (s, Inl (null_read ''innerHTML''))"
| "fill_logs (Some k) (item # items) s =
     fill_logs (Some k) items (s\<lparr>cp_container := (cp_container s)[k := append_html (''<br>'' @ js_to_string item) (cp_container s ! k)]\<rparr>)"

definition fill_console :: "jsval \<Rightarrow> console_page \<Rightarrow> handled" where
  "fill_console json s =
     (case rbind (get_prop json ''id'') (\<lambda>i. rbind (getElementById i s) (\<lambda>el.
             rbind (get_prop json ''logs'') (\<lambda>logs. rbind (for_each ''logs'' logs) (\<lambda>items. Inr (el, items))))) of
        Inl e \<Rightarrow> (s, Inl e)
      | Inr (el, items) \<Rightarrow> fill_logs el items s)"

definition requestLogs :: "jsval \<Rightarrow> console_page \<Rightarrow> console_page" where
  "requestLogs item s = page_does (ConnectionInvoke ''GetLogs'' [item]) s"

definition SwitchButton :: "jsval \<Rightarrow> console_page \<Rightarrow> handled" where
  "SwitchButton item s =
     (case rbind (get_prop item ''id'') (\<lambda>i. rbind (getElementById i s) (\<lambda>el. Inr (i, el))) of
        Inl e \<Rightarrow> (s, Inl e)
      | Inr (_, Some k) \<Rightarrow> (s\<lparr>cp_container := remove_nth k (cp_container s)\<rparr>, Inr ())
      | Inr (i, None) \<Rightarrow>
          (case find_node ''console-default'' (cp_container s) of
             None \<Rightarrow> (s, Inl (null_read ''parentElement''))
           | Some _ \<Rightarrow> (requestLogs item (s\<lparr>cp_container := cp_container s @ [Channel (js_to_string i) []]\<rparr>), Inr ())))"

text \<open>
  compare_window.js is not a valid script (\<^verbatim>\<open>let\<close> is used as a variable inside a class, which is strict code)
  and no view loads it, so the class is not defined.
\<close>

definition createCompareWindow :: "console_page \<Rightarrow> handled" where
  "createCompareWindow s = (s, Inl (ReferenceError ''CompareWindow is not defined''))"

text \<open>A click on the button at position \<open>k\<close> of the list.\<close>

definition click :: "nat \<Rightarrow> console_page \<Rightarrow> handled" where
  "click k s = SwitchButton (snd (cp_buttons s ! k)) s"

section \<open>The connection\<close>

definition page_start :: "console_page \<Rightarrow> console_page" where
  "page_start s = page_does ConnectionStart s"

definition greeting :: jsval where
  "greeting = JStr ''this is string from client sended after begin''"

text \<open>\<^verbatim>\<open>start()\<close> after the connection has started, and after \<^verbatim>\<open>NotifyStart\<close> has been answered.\<close>

definition page_started :: "console_page \<Rightarrow> console_page" where
  "page_started s = page_does (ConnectionInvoke ''NotifyStart'' [greeting]) s"

definition page_notified :: "console_page \<Rightarrow> console_page" where
  "page_notified s =
     page_does (ConnectionInvoke ''RequestInitilization'' [greeting]) (page_does (ConsoleLog ''Calling RequestInitilization'') s)"

definition page_closed :: "js_error option \<Rightarrow> console_page \<Rightarrow> console_page" where
  "page_closed er s = page_start (page_does (ConsoleLog (''Connection closed. Er:'' @ opt_err_to_string er)) s)"

datatype page_event =
    ServerCall string jsval
  | Started
  | Notified
  | Closed "js_error option"
  | Click nat

text \<open>The methods the page registers with \<^verbatim>\<open>connection.on\<close>.\<close>

definition page_methods :: "(page_node list \<Rightarrow> string) \<Rightarrow> (string \<times> (jsval \<Rightarrow> console_page \<Rightarrow> handled)) list" where
  "page_methods render =
     [(''logDebug'', logDebug), (''initilize'', initilize), (''write-text'', write_text render), (''write-line'', write_line),
      (''create-tab'', create_tab), (''connect-console'', connect_console), (''disconnect-console'', disconnect_console),
      (''fill-console'', fill_console)]"

inductive page_step :: "(page_node list \<Rightarrow> string) \<Rightarrow> console_page \<Rightarrow> page_event \<Rightarrow> console_page \<Rightarrow> bool" for render where
  pg_call: "obj_get (page_methods render) m = Some f \<Longrightarrow> page_step render s (ServerCall m x) (fst (f x s))"
| pg_started: "page_step render s Started (page_started s)"
| pg_notified: "page_step render s Notified (page_notified s)"
| pg_closed: "page_step render s (Closed e) (page_closed e s)"
| pg_click: "k < length (cp_buttons s) \<Longrightarrow> page_step render s (Click k) (fst (click k s))"

section \<open>Lemmas\<close>

lemma cp_does [simp]:
  "cp_container (page_does c s) = cp_container s" "cp_buttons (page_does c s) = cp_buttons s" "cp_dict (page_does c s) = cp_dict s"
  "cp_calls (page_does c s) = cp_calls s @ [c]"
  by (simp_all add: page_does_def)

lemma find_node_None: "find_node i ns = None \<longleftrightarrow> (\<forall>n \<in> set ns. node_id n \<noteq> Some i)"
  by (induction ns) auto

lemma find_node_append: "find_node i ns = None \<Longrightarrow> node_id n = Some i \<Longrightarrow> find_node i (ns @ [n]) = Some (length ns)"
  by (induction ns) (auto split: if_splits)

lemma remove_nth_last: "remove_nth (length ns) (ns @ [n]) = ns"
  by (induction ns) auto

lemma first_channel_None: "first_channel ns = None \<longleftrightarrow> (\<forall>n \<in> set ns. \<not> is_Channel n)"
  by (induction ns) auto

lemma node_id_append_html [simp]: "node_id (append_html t n) = node_id n" "is_Channel (append_html t n) = is_Channel n"
  by (cases n; simp)+

definition channel_ids :: "page_node list \<Rightarrow> string list" where
  "channel_ids ns = List.map_filter node_id ns"

lemma channel_ids_simps [simp]:
  "channel_ids [] = []" "channel_ids (Channel i h # ns) = i # channel_ids ns" "channel_ids (PageText t # ns) = channel_ids ns"
  "channel_ids (ns @ ms) = channel_ids ns @ channel_ids ms"
  by (simp_all add: channel_ids_def List.map_filter_simps) (simp add: List.map_filter_def)

lemma channel_ids_set: "i \<in> set (channel_ids ns) \<longleftrightarrow> (\<exists>n \<in> set ns. node_id n = Some i)"
proof (induction ns)
  case (Cons n ns)
  then show ?case by (cases n) auto
qed simp

lemma channel_ids_update: "k < length ns \<Longrightarrow> channel_ids (ns[k := append_html t (ns ! k)]) = channel_ids ns"
proof (induction ns arbitrary: k)
  case (Cons n ns)
  then show ?case by (cases k; cases n) auto
qed simp

lemma channel_ids_html [simp]: "channel_ids (ns[k := append_html t (ns ! k)]) = channel_ids ns"
  by (cases "k < length ns") (simp_all add: channel_ids_update not_less list_update_beyond)

lemma channel_ids_remove: "distinct (channel_ids ns) \<Longrightarrow> distinct (channel_ids (remove_nth k ns))"
proof (induction k ns rule: remove_nth.induct)
  case (2 x xs)
  then show ?case by (cases x) auto
next
  case (3 k x xs)
  have "set (channel_ids (remove_nth k xs)) \<subseteq> set (channel_ids xs)" for k xs
  proof (induction k xs rule: remove_nth.induct)
    case (2 x xs)
    then show ?case by (cases x) auto
  next
    case (3 k x xs)
    then show ?case by (cases x) auto
  qed simp
  then show ?case using 3 by (cases x) auto
qed simp

section \<open>The invariant of the page\<close>

definition page_inv :: "console_page \<Rightarrow> bool" where
  "page_inv s \<longleftrightarrow> distinct (channel_ids (cp_container s)) \<and>
     (\<forall>b \<in> set (cp_buttons s). \<exists>i. get_prop (snd b) ''id'' = Inr i \<and> fst b = inner_text i)"

lemma page_inv_same: "cp_container s' = cp_container s \<Longrightarrow> cp_buttons s' = cp_buttons s \<Longrightarrow> page_inv s' = page_inv s"
  by (simp add: page_inv_def)

lemma page_inv_insertButton: "page_inv s \<Longrightarrow> page_inv (fst (insertButton item s))"
  by (auto simp: insertButton_def page_inv_def Let_def split: sum.split)

lemma page_inv_insert_all: "page_inv s \<Longrightarrow> page_inv (fst (insert_all items s))"
proof (induction items arbitrary: s)
  case (Cons x xs)
  obtain s1 r where i: "insertButton x s = (s1, r)" by force
  then have "page_inv s1" using page_inv_insertButton [OF Cons.prems, of x] by simp
  then show ?case using Cons.IH i by (auto split: sum.split)
qed simp

lemma page_inv_fill_logs: "page_inv s \<Longrightarrow> page_inv (fst (fill_logs el items s))"
  by (induction el items s rule: fill_logs.induct) (simp_all add: page_inv_def)

lemma page_inv_SwitchButton:
  assumes "page_inv s"
  shows "page_inv (fst (SwitchButton item s))"
proof (cases "rbind (get_prop item ''id'') (\<lambda>i. rbind (getElementById i s) (\<lambda>el. Inr (i, el)))")
  case (Inr x)
  obtain i el where x: "x = (i, el)" by force
  have g: "getElementById i s = Inr el" using Inr x by (auto simp: rbind_Inr_iff)
  show ?thesis
  proof (cases el)
    case None
    then have "find_node (js_to_string i) (cp_container s) = None" using g by (auto simp: getElementById_def split: if_splits)
    then have "js_to_string i \<notin> set (channel_ids (cp_container s))" by (simp add: find_node_None channel_ids_set)
    then show ?thesis using assms Inr x None by (auto simp: SwitchButton_def requestLogs_def page_inv_def split: option.split)
  next
    case (Some k)
    then show ?thesis using assms Inr x channel_ids_remove by (auto simp: SwitchButton_def page_inv_def)
  qed
qed (use assms in \<open>simp add: SwitchButton_def\<close>)

lemma page_inv_does [simp]: "page_inv (page_does c s) = page_inv s"
  using page_inv_same [of "page_does c s" s] by simp

lemma page_inv_initilize: "page_inv s \<Longrightarrow> page_inv (fst (initilize x s))"
  unfolding initilize_def Let_def using page_inv_insert_all by (simp split: sum.split)

lemma page_inv_write_text: "page_inv s \<Longrightarrow> page_inv (fst (write_text render x s))"
  by (simp add: write_text_def page_inv_def)

lemma page_inv_write_line: "page_inv s \<Longrightarrow> page_inv (fst (write_line x s))"
  unfolding write_line_def by (simp add: page_inv_def split: option.split)

lemma page_inv_create_tab: "page_inv s \<Longrightarrow> page_inv (fst (create_tab x s))"
  unfolding create_tab_def Let_def by (simp add: page_inv_def split: sum.split)

lemma page_inv_fill_console: "page_inv s \<Longrightarrow> page_inv (fst (fill_console x s))"
  unfolding fill_console_def using page_inv_fill_logs by (simp split: sum.split prod.split)

lemmas page_inv_handlers = page_inv_insertButton page_inv_initilize page_inv_write_text page_inv_write_line page_inv_create_tab page_inv_fill_console

lemma page_inv_method:
  assumes "page_inv s" "obj_get (page_methods render) m = Some f"
  shows "page_inv (fst (f x s))"
proof -
  have "f \<in> {logDebug, initilize, write_text render, write_line, create_tab, connect_console, disconnect_console, fill_console}"
    using obj_get_Some_mem [OF assms(2)] unfolding page_methods_def by auto
  then show ?thesis
    by (elim insertE emptyE) (simp_all add: assms(1) page_inv_handlers logDebug_def connect_console_def disconnect_console_def)
qed

lemma page_inv_step: "page_inv s \<Longrightarrow> page_step render s e s' \<Longrightarrow> page_inv s'"
  by (erule page_step.cases)
     (simp_all add: page_inv_method page_inv_SwitchButton click_def page_started_def page_notified_def page_closed_def page_start_def)

lemma page_inv_initial: "page_inv initial_page"
  by (simp add: page_inv_def initial_page_def)

lemma switch_on:
  assumes "get_prop item ''id'' = Inr i" "js_to_string i \<notin> set fixed_ids" "find_node (js_to_string i) (cp_container s) = None"
    and "find_node ''console-default'' (cp_container s) \<noteq> None"
  shows "SwitchButton item s = (requestLogs item (s\<lparr>cp_container := cp_container s @ [Channel (js_to_string i) []]\<rparr>), Inr ())"
proof -
  have "rbind (get_prop item ''id'') (\<lambda>i. rbind (getElementById i s) (\<lambda>el. Inr (i, el))) = Inr (i, None)"
    using assms(1-3) by (simp add: getElementById_def)
  then show ?thesis using assms(4) unfolding SwitchButton_def by (auto split: option.split)
qed

lemma switch_off:
  assumes "get_prop item ''id'' = Inr i" "js_to_string i \<notin> set fixed_ids" "find_node (js_to_string i) (cp_container s) = Some k"
  shows "SwitchButton item s = (s\<lparr>cp_container := remove_nth k (cp_container s)\<rparr>, Inr ())"
proof -
  have "rbind (get_prop item ''id'') (\<lambda>i. rbind (getElementById i s) (\<lambda>el. Inr (i, el))) = Inr (i, Some k)"
    using assms by (simp add: getElementById_def)
  then show ?thesis unfolding SwitchButton_def by simp
qed

text \<open>
  C12: In every run of the console page the channels shown have distinct ids and each button carries the
  id of its console; and clicking the button of a console that is not shown opens it, asks the server for
  its logs once, and a second click takes away exactly what the first one added.
\<close>

theorem console_buttons_toggle:
  assumes "runs (page_step render) initial_page es s"
    and "get_prop item ''id'' = Inr i" "js_to_string i \<notin> set fixed_ids" "find_node (js_to_string i) (cp_container s) = None"
    and "find_node ''console-default'' (cp_container s) \<noteq> None"
  defines "s1 \<equiv> fst (SwitchButton item s)"
  shows "page_inv s \<and> snd (SwitchButton item s) = Inr () \<and> js_to_string i \<in> set (channel_ids (cp_container s1)) \<and>
    cp_calls s1 = cp_calls s @ [ConnectionInvoke ''GetLogs'' [item]] \<and>
    SwitchButton item s1 = (s1\<lparr>cp_container := cp_container s\<rparr>, Inr ())"
proof -
  have inv: "page_inv s"
    by (rule runs_invariant [where P = page_inv, OF assms(1) page_inv_initial]) (rule page_inv_step)
  have o: "SwitchButton item s = (requestLogs item (s\<lparr>cp_container := cp_container s @ [Channel (js_to_string i) []]\<rparr>), Inr ())"
    by (rule switch_on [OF assms(2-5)])
  have c: "cp_container s1 = cp_container s @ [Channel (js_to_string i) []]" unfolding s1_def o by (simp add: requestLogs_def)
  have "find_node (js_to_string i) (cp_container s1) = Some (length (cp_container s))"
    unfolding c by (rule find_node_append [OF assms(4)]) simp
  then have "SwitchButton item s1 = (s1\<lparr>cp_container := cp_container s\<rparr>, Inr ())"
    using switch_off [OF assms(2,3)] by (simp add: c remove_nth_last)
  then show ?thesis using inv o c by (simp add: s1_def requestLogs_def)
qed

theorem console_buttons_toggle_witness:
  "fst (SwitchButton (JObj [(''id'', JStr ''c1'')]) (fst (SwitchButton (JObj [(''id'', JStr ''c1'')]) initial_page))) =
     initial_page\<lparr>cp_calls := [ConnectionStart, ConnectionInvoke ''GetLogs'' [JObj [(''id'', JStr ''c1'')]]]\<rparr>"
proof -
  let ?item = "JObj [(''id'', JStr ''c1'')]"
  have h: "get_prop ?item ''id'' = Inr (JStr ''c1'')" "js_to_string (JStr ''c1'') \<notin> set fixed_ids"
    "find_node (js_to_string (JStr ''c1'')) (cp_container initial_page) = None" "find_node ''console-default'' (cp_container initial_page) \<noteq> None"
    by code_simp+
  have e: "fst (SwitchButton ?item initial_page) = initial_page\<lparr>cp_container := cp_container initial_page @ [Channel ''c1'' []],
      cp_calls := [ConnectionStart, ConnectionInvoke ''GetLogs'' [?item]]\<rparr>" by code_simp
  show ?thesis
    using console_buttons_toggle [OF runs_Nil [of "page_step (\<lambda>_. [])"] h] unfolding e by (simp add: initial_page_def)
qed

section \<open>Pages without channels\<close>

definition no_channels :: "console_page \<Rightarrow> bool" where
  "no_channels s \<longleftrightarrow> (\<forall>n \<in> set (cp_container s). \<not> is_Channel n)"

lemma no_channels_find: "no_channels s \<Longrightarrow> find_node i (cp_container s) = None"
  unfolding find_node_None no_channels_def by (metis is_Channel.simps(1) node_id.elims option.discI)

lemma no_channels_ids: "no_channels s \<Longrightarrow> first_channel (cp_container s) = None"
  by (simp add: no_channels_def first_channel_None)

lemma no_channels_does [simp]: "no_channels (page_does c s) = no_channels s"
  by (simp add: no_channels_def)

lemma no_channels_insertButton: "no_channels s \<Longrightarrow> no_channels (fst (insertButton item s))"
  by (auto simp: insertButton_def no_channels_def Let_def split: sum.split)

lemma no_channels_insert_all: "no_channels s \<Longrightarrow> no_channels (fst (insert_all items s))"
proof (induction items arbitrary: s)
  case (Cons x xs)
  obtain s1 r where i: "insertButton x s = (s1, r)" by force
  then have "no_channels s1" using no_channels_insertButton [OF Cons.prems, of x] by simp
  then show ?case using Cons.IH i by (auto split: sum.split)
qed simp

lemma no_channels_fill:
  assumes "no_channels s"
  shows "no_channels (fst (fill_console x s))"
proof -
  have "fst (fill_logs None items s) = s" for items by (cases items) simp_all
  moreover have "getElementById i s = Inr el \<Longrightarrow> el = None" for i el
    using no_channels_find [OF assms] by (auto simp: getElementById_def split: if_splits)
  ultimately have "getElementById i s = Inr el \<Longrightarrow> no_channels (fst (fill_logs el items s))" for i el items using assms by metis
  then show ?thesis using assms by (auto simp: fill_console_def rbind_Inr_iff split: sum.split)
qed

lemma switch_blank:
  assumes "no_channels s"
  shows "SwitchButton item s = (s, snd (SwitchButton item s)) \<and> snd (SwitchButton item s) \<noteq> Inr ()"
proof (cases "rbind (get_prop item ''id'') (\<lambda>i. rbind (getElementById i s) (\<lambda>el. Inr (i, el)))")
  case (Inr x)
  then have "snd x = None" using no_channels_find [OF assms] by (auto simp: rbind_Inr_iff getElementById_def split: if_splits)
  then show ?thesis using Inr no_channels_find [OF assms] by (cases x) (simp add: SwitchButton_def)
qed (simp add: SwitchButton_def)

lemma no_channels_method:
  assumes "no_channels s" "obj_get (page_methods render) m = Some f"
  shows "no_channels (fst (f x s))"
proof -
  have "no_channels (fst (initilize x s))"
    unfolding initilize_def Let_def using assms(1) no_channels_insert_all by (simp split: sum.split)
  moreover have "no_channels (fst (create_tab x s))"
    unfolding create_tab_def Let_def using assms(1) by (simp add: no_channels_def split: sum.split)
  moreover have "f \<in> {logDebug, initilize, write_text render, write_line, create_tab, connect_console, disconnect_console, fill_console}"
    using obj_get_Some_mem [OF assms(2)] unfolding page_methods_def by auto
  ultimately show ?thesis
    using no_channels_fill [OF assms(1)] no_channels_insertButton [OF assms(1)] no_channels_ids [OF assms(1)] assms(1)
    by (elim insertE emptyE)
       (simp_all add: logDebug_def connect_console_def disconnect_console_def write_text_def write_line_def no_channels_def)
qed

lemma no_channels_step: "no_channels s \<Longrightarrow> page_step render s e s' \<Longrightarrow> no_channels s'"
proof (erule page_step.cases)
  fix k s0 assume "no_channels s" "s = s0" "s' = fst (click k s0)"
  then show "no_channels s'" using switch_blank by (metis click_def fst_conv)
qed (simp_all add: no_channels_method page_started_def page_notified_def page_closed_def page_start_def)

text \<open>
  C33: A \<^verbatim>\<open>write-text\<close> message destroys the page: assigning \<^verbatim>\<open>innerText\<close> of the container removes every channel in
  it, also the default one the code clones, and whatever happens afterwards each \<^verbatim>\<open>write-line\<close> message
  throws and no button opens a console.
\<close>

theorem write_text_removes_channels:
  assumes "runs (page_step render) (fst (write_text render txt s)) es s'"
  shows "channel_ids (cp_container s') = [] \<and> write_line x s' = (s', Inl (null_read ''innerHTML'')) \<and>
    fst (SwitchButton item s') = s' \<and> snd (SwitchButton item s') \<noteq> Inr ()"
proof -
  have "no_channels s'"
    by (rule runs_invariant [where P = no_channels, OF assms]) (simp add: write_text_def no_channels_def, rule no_channels_step)
  moreover from this have "channel_ids (cp_container s') = []"
    using channel_ids_set [of _ "cp_container s'"] no_channels_find find_node_None by (metis list.set_intros(1) neq_Nil_conv)
  ultimately show ?thesis
    using no_channels_ids [of s'] switch_blank [of s' item] by (simp add: write_line_def) (metis fst_conv)
qed

theorem write_text_removes_channels_witness:
  "write_line (JStr ''x'') (fst (write_text (\<lambda>_. ''old'') (JStr ''new'') initial_page)) =
     (fst (write_text (\<lambda>_. ''old'') (JStr ''new'') initial_page), Inl (null_read ''innerHTML''))"
  using write_text_removes_channels [OF runs_Nil [of "page_step (\<lambda>_. ''old'')"]] by blast

text \<open>
  The server sends \<^verbatim>\<open>connect-console\<close> a JSON text, which the handler does not parse: the button reads
  \<^verbatim>\<open>undefined\<close>.
\<close>

lemma connect_console_text:
  "cp_buttons (fst (connect_console (JStr t) s)) = cp_buttons s @ [(''undefined'', JStr t)]"
  by (simp add: connect_console_def insertButton_def inner_text_def)

end
