(* ===== verification/Proxy_Gui.thy ===== *)
theory Proxy_Gui
  imports Js_Json
begin

text \<open>
  The page of the proxy's web interface: site.js of ProxyServerWebGUI. Its state is the table of
  connections of Views/Shared/Components/ComponentTableConnections: the parser puts the rows of the view
  (a header and the template) into a \<^verbatim>\<open>tbody\<close>, the first child of the table, and the script appends its rows
  to the table itself. The header has no cells of class \<^verbatim>\<open>cell-num\<close>, so \<^verbatim>\<open>tbody.querySelector\<close> finds the template's.
  A handler that throws leaves the changes it has made.

  The abstract table is a list of connections; \<open>gui_rows\<close> shows that the page displays it, numbered from one.
\<close>

record cells =
  ce_num :: string
  ce_id :: string
  ce_host :: string
  ce_port :: string
  ce_status :: string
  ce_version :: string

record row =
  rw_id :: string
  rw_template :: bool
  rw_cells :: cells

datatype gui_call = GuiLog jsval | GuiStart | GuiInvoke string "jsval list"

record gui =
  gu_template :: "row option"
  gu_rows :: "row list"
  gu_calls :: "gui_call list"

definition template_cells :: cells where
  "template_cells = \<lparr>ce_num = ''template'', ce_id = ''template'', ce_host = ''template'', ce_port = ''template'',
     ce_status = ''template'', ce_version = ''template''\<rparr>"

definition initial_gui :: gui where
  "initial_gui = \<lparr>gu_template = Some \<lparr>rw_id = ''template-raw'', rw_template = True, rw_cells = template_cells\<rparr>, gu_rows = [],
     gu_calls = [GuiLog (JStr ''site.js runned''), GuiStart]\<rparr>"

definition gui_does :: "gui_call \<Rightarrow> gui \<Rightarrow> gui" where
  "gui_does c g = g\<lparr>gu_calls := gu_calls g @ [c]\<rparr>"

type_synonym gui_handled = "gui \<times> unit result"

section \<open>Handlers\<close>

text \<open>\<^verbatim>\<open>innerHTML = v\<close>: \<^verbatim>\<open>null\<close> is the empty text.\<close>

definition inner_html :: "jsval \<Rightarrow> string" where
  "inner_html v = (if v = JNull then [] else js_to_string v)"

text \<open>The cells from the properties of an object, and the number.\<close>

definition data_prop :: "jsval \<Rightarrow> string \<Rightarrow> jsval" where
  "data_prop d k = (case get_prop d k of Inr v \<Rightarrow> v | Inl _ \<Rightarrow> JUndef)"

definition cells_of :: "nat \<Rightarrow> jsval \<Rightarrow> cells" where
  "cells_of num d =
     \<lparr>ce_num = nat_digits num, ce_id = inner_html (data_prop d ''Id''), ce_host = inner_html (data_prop d ''Host''),
      ce_port = inner_html (data_prop d ''Port''), ce_status = inner_html (data_prop d ''Status''),
      ce_version = inner_html (data_prop d ''Version'')\<rparr>"

definition not_implemented :: "jsval \<Rightarrow> gui \<Rightarrow> gui_handled" where
  "not_implemented content g = (g, Inl (Error ''not implemented''))"

definition gui_logDebug :: "jsval \<Rightarrow> gui \<Rightarrow> gui_handled" where
  "gui_logDebug txt g = (gui_does (GuiLog (JStr (''logDebug: '' @ js_to_string txt))) g, Inr ())"

text \<open>
  The row is in the table before the object's properties are read: for \<^verbatim>\<open>null\<close> the read throws and a copy of the
  template stays.
\<close>

definition connectionAdd :: "jsval \<Rightarrow> gui \<Rightarrow> gui_handled" where
  "connectionAdd content g =
     (case JSON_parse (js_to_string content) of
        Inl e \<Rightarrow> (g, Inl e)
      | Inr data \<Rightarrow>
          (let g1 = gui_does (GuiLog data) g in
           case gu_template g1 of
             None \<Rightarrow> (g1, Inl (TypeError (''Cannot read properties of null (reading '' @ sq ''cloneNode'' @ '')'')))
           | Some t \<Rightarrow>
               (case get_prop data ''Id'' of
                  Inl e \<Rightarrow> (g1\<lparr>gu_rows := gu_rows g1 @ [t\<lparr>rw_template := False\<rparr>]\<rparr>, Inl e)
                | Inr i \<Rightarrow>
                    (g1\<lparr>gu_rows := gu_rows g1 @ [\<lparr>rw_id = js_to_string i, rw_template = False,
                           rw_cells = cells_of (Suc (length (gu_rows g1))) data\<rparr>]\<rparr>, Inr ()))))"

text \<open>\<^verbatim>\<open>document.getElementById\<close>: the template comes first in the document.\<close>

datatype found = FoundTemplate | FoundRow nat | FoundNothing

fun find_row :: "string \<Rightarrow> row list \<Rightarrow> nat option" where
  "find_row i [] = None"
| "find_row i (r # rs) = (if rw_id r = i then Some 0 else map_option Suc (find_row i rs))"

definition gui_find :: "string \<Rightarrow> gui \<Rightarrow> found" where
  "gui_find i g =
     (if (case gu_template g of Some t \<Rightarrow> rw_id t = i | None \<Rightarrow> False) then FoundTemplate
      else (case find_row i (gu_rows g) of Some k \<Rightarrow> FoundRow k | None \<Rightarrow> FoundNothing))"

definition set_num :: "nat \<Rightarrow> row \<Rightarrow> row" where
  "set_num k r = r\<lparr>rw_cells := (rw_cells r)\<lparr>ce_num := nat_digits k\<rparr>\<rparr>"

text \<open>The loop over the children of the table: the \<^verbatim>\<open>tbody\<close> (through the template's cell), then the rows.\<close>

fun renumber_from :: "nat \<Rightarrow> row list \<Rightarrow> row list" where
  "renumber_from k [] = []"
| "renumber_from k (r # rs) = set_num k r # renumber_from (Suc k) rs"

definition renumber :: "gui \<Rightarrow> gui_handled" where
  "renumber g =
     (case gu_template g of
        None \<Rightarrow> (g, Inl (TypeError (''Cannot set properties of null (setting '' @ sq ''innerHTML'' @ '')'')))
      | Some t \<Rightarrow> (g\<lparr>gu_template := Some (set_num 0 t), gu_rows := renumber_from 1 (gu_rows g)\<rparr>, Inr ()))"

definition remove_row :: "found \<Rightarrow> gui \<Rightarrow> gui" where
  "remove_row f g =
     (case f of FoundTemplate \<Rightarrow> g\<lparr>gu_template := None\<rparr>
      | FoundRow k \<Rightarrow> g\<lparr>gu_rows := take k (gu_rows g) @ drop (Suc k) (gu_rows g)\<rparr>
      | FoundNothing \<Rightarrow> g)"

definition connectionRemove :: "jsval \<Rightarrow> gui \<Rightarrow> gui_handled" where
  "connectionRemove content g0 =
     (let g = gui_does (GuiLog content) g0 in
      case rbind (JSON_parse (js_to_string content)) (\<lambda>data. get_prop data ''Id'') of
        Inl e \<Rightarrow> (g, Inl e)
      | Inr i \<Rightarrow>
          (case gui_find (js_to_string i) g of
             FoundNothing \<Rightarrow> (g, Inl (TypeError (''Cannot read properties of null (reading '' @ sq ''remove'' @ '')'')))
           | f \<Rightarrow> renumber (remove_row f g)))"

text \<open>The template's position among the rows of its \<^verbatim>\<open>tbody\<close> is one.\<close>

definition connectionUpdateAll :: "jsval \<Rightarrow> gui \<Rightarrow> gui_handled" where
  "connectionUpdateAll content g0 =
     (let g = gui_does (GuiLog content) g0 in
      case rbind (JSON_parse (js_to_string content)) (\<lambda>data. rbind (get_prop data ''Id'') (\<lambda>i. Inr (data, i))) of
        Inl e \<Rightarrow> (g, Inl e)
      | Inr (data, i) \<Rightarrow>
          (case gui_find (js_to_string i) g of
             FoundNothing \<Rightarrow> (g, Inl (TypeError (''Cannot read properties of null (reading '' @ sq ''querySelector'' @ '')'')))
           | FoundTemplate \<Rightarrow> (g\<lparr>gu_template := map_option (\<lambda>t. t\<lparr>rw_cells := cells_of 1 data\<rparr>) (gu_template g)\<rparr>, Inr ())
           | FoundRow k \<Rightarrow> (g\<lparr>gu_rows := (gu_rows g)[k := (gu_rows g ! k)\<lparr>rw_cells := cells_of (Suc k) data\<rparr>]\<rparr>, Inr ())))"

section \<open>The connection\<close>

definition gui_start :: "gui \<Rightarrow> gui" where
  "gui_start g = gui_does GuiStart g"

definition gui_started :: "gui \<Rightarrow> gui" where
  "gui_started g =
     gui_does (GuiInvoke ''SubscribeConnectionsAdd'' [JStr []])
       (gui_does (GuiInvoke ''NotifyStart'' [JStr ''this is string from client sended after begin'']) g)"

definition gui_closed :: "js_error option \<Rightarrow> gui \<Rightarrow> gui" where
  "gui_closed er g = gui_start (gui_does (GuiLog (JStr (''Connection closed. Er:'' @ opt_err_to_string er))) g)"

definition gui_methods :: "(string \<times> (jsval \<Rightarrow> gui \<Rightarrow> gui_handled)) list" where
  "gui_methods =
     [(''syncTextBox'', not_implemented), (''logDebug'', gui_logDebug), (''ctdStalled'', not_implemented), (''ctdRevived'', not_implemented),
      (''ctdCreated'', not_implemented), (''ctdDisposed'', not_implemented), (''connectionAdd'', connectionAdd),
      (''connectionRemove'', connectionRemove), (''connectionUpdateAll'', connectionUpdateAll), (''connectionUpdateStatus'', not_implemented)]"

section \<open>The abstract table\<close>

datatype table_msg = MsgAdd jsval | MsgRemove jsval | MsgUpdate jsval

definition conn_id :: "jsval \<Rightarrow> string" where
  "conn_id d = js_to_string (data_prop d ''Id'')"

fun del_first :: "string \<Rightarrow> jsval list \<Rightarrow> jsval list" where
  "del_first i [] = []"
| "del_first i (c # cs) = (if conn_id c = i then cs else c # del_first i cs)"

fun upd_first :: "jsval \<Rightarrow> jsval list \<Rightarrow> jsval list" where
  "upd_first d [] = []"
| "upd_first d (c # cs) = (if conn_id c = conn_id d then d # cs else c # upd_first d cs)"

fun table_msg_abs :: "table_msg \<Rightarrow> jsval list \<Rightarrow> jsval list" where
  "table_msg_abs (MsgAdd d) cs = cs @ [d]"
| "table_msg_abs (MsgRemove d) cs = del_first (conn_id d) cs"
| "table_msg_abs (MsgUpdate d) cs = upd_first d cs"

text \<open>What the server sends is the JSON text of the object.\<close>

fun table_msg_gui :: "table_msg \<Rightarrow> gui \<Rightarrow> gui" where
  "table_msg_gui (MsgAdd d) g = fst (connectionAdd (JStr (stringify_template d)) g)"
| "table_msg_gui (MsgRemove d) g = fst (connectionRemove (JStr (stringify_template d)) g)"
| "table_msg_gui (MsgUpdate d) g = fst (connectionUpdateAll (JStr (stringify_template d)) g)"

definition row_of :: "nat \<Rightarrow> jsval \<Rightarrow> row" where
  "row_of k d = \<lparr>rw_id = conn_id d, rw_template = False, rw_cells = cells_of k d\<rparr>"

fun rows_from :: "nat \<Rightarrow> jsval list \<Rightarrow> row list" where
  "rows_from k [] = []"
| "rows_from k (d # ds) = row_of k d # rows_from (Suc k) ds"

text \<open>The page shows the connections, numbered from one, and still has its template.\<close>

definition displays :: "gui \<Rightarrow> jsval list \<Rightarrow> bool" where
  "displays g cs \<longleftrightarrow> gu_rows g = rows_from 1 cs \<and> (\<exists>t. gu_template g = Some t \<and> rw_id t = ''template-raw'')"

definition good_conn :: "jsval \<Rightarrow> bool" where
  "good_conn d \<longleftrightarrow> (\<exists>ps. d = JObj ps) \<and> jsonable d \<and> conn_id d \<noteq> ''template-raw''"

fun msg_data :: "table_msg \<Rightarrow> jsval" where
  "msg_data (MsgAdd d) = d"
| "msg_data (MsgRemove d) = d"
| "msg_data (MsgUpdate d) = d"

lemma good_parse: "good_conn d \<Longrightarrow> JSON_parse (stringify_template d) = Inr d"
  using JSON_roundtrip [of d] by (auto simp: good_conn_def stringify_template_def)

lemma good_Id: "good_conn d \<Longrightarrow> get_prop d ''Id'' = Inr (data_prop d ''Id'')"
  by (auto simp: good_conn_def data_prop_def)

lemma rows_from_append: "rows_from k (ds @ [d]) = rows_from k ds @ [row_of (k + length ds) d]"
  by (induction ds arbitrary: k) simp_all

lemma length_rows_from [simp]: "length (rows_from k ds) = length ds"
  by (induction ds arbitrary: k) simp_all

lemma rows_from_nth: "n < length ds \<Longrightarrow> rows_from k ds ! n = row_of (k + n) (ds ! n)"
  by (induction ds arbitrary: k n) (auto simp: nth_Cons split: nat.split)

lemma renumber_rows: "map rw_id rs = map conn_id ds \<Longrightarrow>
    list_all2 (\<lambda>r d. \<exists>j. r = row_of j d) rs ds \<Longrightarrow> renumber_from k rs = rows_from k ds"
proof (induction ds arbitrary: rs k)
  case (Cons d ds)
  then obtain r rs' where r: "rs = r # rs'" by (cases rs) auto
  then obtain j where "r = row_of j d" using Cons.prems by auto
  then have "set_num k r = row_of k d" by (simp add: set_num_def row_of_def cells_of_def)
  then show ?case using Cons r by simp
qed simp

lemma find_row_rows: "find_row i (rows_from k ds) = None \<Longrightarrow> del_first i ds = ds"
  by (induction ds arbitrary: k) (auto simp: row_of_def split: if_splits)

lemma find_row_del:
  "find_row i (rows_from k ds) = Some n \<Longrightarrow>
   n < length ds \<and> conn_id (ds ! n) = i \<and> del_first i ds = take n ds @ drop (Suc n) ds"
proof (induction ds arbitrary: k n)
  case (Cons d ds)
  show ?case
  proof (cases "conn_id d = i")
    case True
    with Cons.prems show ?thesis by (auto simp: row_of_def)
  next
    case False
    with Cons.prems obtain m where "find_row i (rows_from (Suc k) ds) = Some m" "n = Suc m" by (auto simp: row_of_def)
    with Cons.IH False show ?thesis by auto
  qed
qed simp

lemma find_row_upd:
  "find_row (conn_id d) (rows_from k ds) = Some n \<Longrightarrow> upd_first d ds = ds[n := d]"
  "find_row (conn_id d) (rows_from k ds) = None \<Longrightarrow> upd_first d ds = ds"
proof (induction ds arbitrary: k n)
  case (Cons c ds)
  { case 1 then show ?case using Cons.IH(1) [of "Suc k"] by (cases "conn_id c = conn_id d") (auto simp: row_of_def) }
  { case 2 then show ?case using Cons.IH(2) [of "Suc k"] by (cases "conn_id c = conn_id d") (auto simp: row_of_def) }
qed simp_all

lemma rows_from_update: "n < length ds \<Longrightarrow> rows_from k (ds[n := d]) = (rows_from k ds)[n := row_of (k + n) d]"
  by (induction ds arbitrary: k n) (auto split: nat.split)

lemma rows_taken: "list_all2 (\<lambda>r d. \<exists>j. r = row_of j d) (take n (rows_from k ds) @ drop m (rows_from k ds)) (take n ds @ drop m ds)"
proof -
  have "list_all2 (\<lambda>r d. \<exists>j. r = row_of j d) (rows_from k ds) ds" by (induction ds arbitrary: k) auto
  then show ?thesis by (intro list_all2_appendI list_all2_takeI list_all2_dropI)
qed

lemma gui_does_simps [simp]: "gu_rows (gui_does c g) = gu_rows g" "gu_template (gui_does c g) = gu_template g"
  by (simp_all add: gui_does_def)

lemma displays_does [simp]: "displays (gui_does c g) cs = displays g cs"
  by (simp add: displays_def)

lemma gui_find_displays:
  assumes "displays g cs" "good_conn d"
  shows "gui_find (conn_id d) g = (case find_row (conn_id d) (rows_from 1 cs) of Some k \<Rightarrow> FoundRow k | None \<Rightarrow> FoundNothing)"
  using assms by (auto simp: gui_find_def displays_def good_conn_def)

lemma displays_add:
  assumes "displays g cs" "good_conn d"
  shows "displays (table_msg_gui (MsgAdd d) g) (cs @ [d])"
proof -
  obtain t where t: "gu_template g = Some t" "rw_id t = ''template-raw''" "gu_rows g = rows_from 1 cs"
    using assms(1) by (auto simp: displays_def)
  have "connectionAdd (JStr (stringify_template d)) g =
      ((gui_does (GuiLog d) g)\<lparr>gu_rows := gu_rows g @ [row_of (Suc (length (gu_rows g))) d]\<rparr>, Inr ())"
    using t good_parse [OF assms(2)] good_Id [OF assms(2)] by (simp add: connectionAdd_def row_of_def conn_id_def)
  then show ?thesis using t by (simp add: displays_def rows_from_append)
qed

lemma displays_remove:
  assumes "displays g cs" "good_conn d"
  shows "displays (table_msg_gui (MsgRemove d) g) (del_first (conn_id d) cs)"
proof -
  let ?g = "gui_does (GuiLog (JStr (stringify_template d))) g"
  obtain t where t: "gu_template ?g = Some t" "rw_id t = ''template-raw''" "gu_rows ?g = rows_from 1 cs"
    using assms(1) by (auto simp: displays_def)
  have f: "gui_find (conn_id d) ?g = (case find_row (conn_id d) (rows_from 1 cs) of Some k \<Rightarrow> FoundRow k | None \<Rightarrow> FoundNothing)"
    by (rule gui_find_displays) (use assms in simp_all)
  have r: "rbind (JSON_parse (stringify_template d)) (\<lambda>data. get_prop data ''Id'') = Inr (data_prop d ''Id'')"
    using good_parse [OF assms(2)] good_Id [OF assms(2)] by simp
  show ?thesis
  proof (cases "find_row (conn_id d) (rows_from 1 cs)")
    case None
    then have "table_msg_gui (MsgRemove d) g = ?g"
      using f r by (simp add: connectionRemove_def Let_def conn_id_def)
    then show ?thesis using find_row_rows [OF None] assms(1) by simp
  next
    case (Some k)
    let ?rs = "take k (rows_from 1 cs) @ drop (Suc k) (rows_from 1 cs)" and ?ds = "take k cs @ drop (Suc k) cs"
    have l: "list_all2 (\<lambda>r d. \<exists>j. r = row_of j d) ?rs ?ds" by (rule rows_taken)
    then have "map rw_id ?rs = map conn_id ?ds"
      by (induction rule: list_all2_induct) (auto simp: row_of_def)
    then have n: "renumber_from 1 ?rs = rows_from 1 ?ds" using renumber_rows l by blast
    have "table_msg_gui (MsgRemove d) g = ?g\<lparr>gu_template := Some (set_num 0 t), gu_rows := renumber_from 1 ?rs\<rparr>"
      using f r Some t by (simp add: connectionRemove_def Let_def conn_id_def remove_row_def renumber_def)
    then show ?thesis unfolding n using find_row_del [OF Some] t by (simp add: displays_def set_num_def)
  qed
qed

lemma displays_update:
  assumes "displays g cs" "good_conn d"
  shows "displays (table_msg_gui (MsgUpdate d) g) (upd_first d cs)"
proof -
  let ?g = "gui_does (GuiLog (JStr (stringify_template d))) g"
  have t: "gu_rows ?g = rows_from 1 cs" using assms(1) by (simp add: displays_def)
  have f: "gui_find (conn_id d) ?g = (case find_row (conn_id d) (rows_from 1 cs) of Some k \<Rightarrow> FoundRow k | None \<Rightarrow> FoundNothing)"
    by (rule gui_find_displays) (use assms in simp_all)
  have r: "rbind (JSON_parse (stringify_template d)) (\<lambda>data. rbind (get_prop data ''Id'') (\<lambda>i. Inr (data, i))) = Inr (d, data_prop d ''Id'')"
    using good_parse [OF assms(2)] good_Id [OF assms(2)] by simp
  show ?thesis
  proof (cases "find_row (conn_id d) (rows_from 1 cs)")
    case None
    then have "table_msg_gui (MsgUpdate d) g = ?g"
      using f r by (simp add: connectionUpdateAll_def Let_def conn_id_def)
    then show ?thesis using find_row_upd(2) [OF None] assms(1) by simp
  next
    case (Some k)
    have k: "k < length cs" "conn_id (cs ! k) = conn_id d" using find_row_del [OF Some] by auto
    have "(gu_rows ?g ! k)\<lparr>rw_cells := cells_of (Suc k) d\<rparr> = row_of (Suc k) d"
      unfolding t using rows_from_nth [OF k(1), of 1] k(2) by (simp add: row_of_def)
    then have "table_msg_gui (MsgUpdate d) g = ?g\<lparr>gu_rows := (gu_rows ?g)[k := row_of (Suc k) d]\<rparr>"
      using f r Some by (simp add: connectionUpdateAll_def Let_def conn_id_def)
    then show ?thesis
      using find_row_upd(1) [OF Some] rows_from_update [OF k(1), of 1 d] t assms(1) by (simp add: displays_def)
  qed
qed

text \<open>
  C11: The table of connections refines a list of connections: after any sequence of \<^verbatim>\<open>connectionAdd\<close>,
  \<^verbatim>\<open>connectionRemove\<close> and \<^verbatim>\<open>connectionUpdateAll\<close> messages with the JSON text of a connection, the rows of the page are
  the connections added and not removed, with their latest data, in order and numbered from one.
\<close>

theorem table_refines_connections:
  assumes "\<forall>m \<in> set ms. good_conn (msg_data m)"
  shows "gu_rows (fold table_msg_gui ms initial_gui) = rows_from 1 (fold table_msg_abs ms [])"
proof -
  have "displays (fold table_msg_gui ms g) (fold table_msg_abs ms cs)" if "displays g cs" for g cs
    using that assms
  proof (induction ms arbitrary: g cs)
    case (Cons m ms)
    have "displays (table_msg_gui m g) (table_msg_abs m cs)"
      using Cons.prems displays_add displays_remove displays_update by (cases m) auto
    then show ?case using Cons by simp
  qed simp
  moreover have "displays initial_gui []" by (simp add: displays_def initial_gui_def)
  ultimately show ?thesis unfolding displays_def by blast
qed

definition sample_conn :: "int \<Rightarrow> string \<Rightarrow> jsval" where
  "sample_conn i status = JObj [(''Id'', JNum i), (''Status'', JStr status)]"

theorem table_refines_connections_witness:
  "gu_rows (fold table_msg_gui [MsgAdd (sample_conn 7 ''a''), MsgAdd (sample_conn 8 ''b''), MsgUpdate (sample_conn 8 ''c''), MsgRemove (sample_conn 7 ''a'')]
     initial_gui) = [row_of 1 (sample_conn 8 ''c'')]"
proof -
  have g: "good_conn (sample_conn i s)" if "int_to_string i \<noteq> ''template-raw''" for i s
    using that by (auto simp: good_conn_def sample_conn_def conn_id_def data_prop_def)
  have i: "int_to_string 7 \<noteq> ''template-raw''" "int_to_string 8 \<noteq> ''template-raw''" by code_simp+
  have "\<forall>m \<in> set [MsgAdd (sample_conn 7 ''a''), MsgAdd (sample_conn 8 ''b''), MsgUpdate (sample_conn 8 ''c''), MsgRemove (sample_conn 7 ''a'')].
      good_conn (msg_data m)"
    using g [OF i(1)] g [OF i(2)] by simp
  from table_refines_connections [OF this] show ?thesis
    by (simp only:) code_simp
qed

text \<open>
  A status update of the server calls \<^verbatim>\<open>connectionUpdateAll\<close> with the bare id: the handler throws and the row stays
  as it was.
\<close>

lemma status_update_throws:
  assumes "displays g cs" "\<forall>c \<in> set cs. conn_id c \<noteq> ''undefined''"
  shows "\<exists>e. connectionUpdateAll (JNum 5) g = (gui_does (GuiLog (JNum 5)) g, Inl e)"
proof -
  have "JSON_parse (js_to_string (JNum 5)) = Inr (JNum 5)" by code_simp
  then have r: "rbind (JSON_parse (js_to_string (JNum 5))) (\<lambda>data. rbind (get_prop data ''Id'') (\<lambda>i. Inr (data, i))) = Inr (JNum 5, JUndef)"
    by simp
  have "find_row ''undefined'' (rows_from k cs) = None" for k
    using assms(2) by (induction cs arbitrary: k) (auto simp: row_of_def)
  then have "gui_find (js_to_string JUndef) (gui_does (GuiLog (JNum 5)) g) = FoundNothing"
    using assms(1) by (auto simp: gui_find_def displays_def)
  then show ?thesis unfolding connectionUpdateAll_def Let_def r by simp
qed

end
