(* ===== verification/Pac_Scripts.thy ===== *)
theory Pac_Scripts
  imports Js_Prelude
begin

text \<open>
  The proxy auto-configuration scripts of Test/pac. The functions a browser gives such a script (shExpMatch,
  isInNet, dnsResolve and the others) are fields of a record the scripts are given; the theorems hold for
  all of them. A script returns its answer or throws; the texts it passes to \<^verbatim>\<open>alert\<close> are recorded.
\<close>

record pac_env =
  pe_shExpMatch :: "string \<Rightarrow> string \<Rightarrow> bool"
  pe_isPlainHostName :: "string \<Rightarrow> bool"
  pe_localHostOrDomainIs :: "string \<Rightarrow> string \<Rightarrow> bool"
  pe_isResolvable :: "string \<Rightarrow> bool"
  pe_dnsDomainLevels :: "string \<Rightarrow> int"
  pe_myIpAddress :: string
  pe_isInNet :: "jsval \<Rightarrow> string \<Rightarrow> string \<Rightarrow> bool"
  pe_dnsDomainIs :: "string \<Rightarrow> string \<Rightarrow> bool"
  pe_dnsResolve :: "string \<Rightarrow> jsval"

text \<open>\<^verbatim>\<open>isInNet(ip, "192.168.0.3", ...) || isInNet(ip, "127.0.0.1", ...)\<close>.\<close>

definition local_net :: "pac_env \<Rightarrow> jsval \<Rightarrow> bool" where
  "local_net env ip \<longleftrightarrow> pe_isInNet env ip ''192.168.0.3'' ''255.255.255.0'' \<or> pe_isInNet env ip ''127.0.0.1'' ''255.255.255.255''"

section \<open>example_proxy.pac.js\<close>

definition example_FindProxyForURL :: "pac_env \<Rightarrow> string \<Rightarrow> string \<Rightarrow> string \<times> string list" where
  "example_FindProxyForURL env url host =
     (if pe_shExpMatch env host ''*.example.com'' then (''DIRECT'', [])
      else if pe_isPlainHostName env host then (''DIRECT'', [])
      else if pe_localHostOrDomainIs env host ''www.example.com'' then (''PROXY local.proxy:8080'', [])
      else if \<not> pe_isResolvable env host then (''SOCKS4 example.com:1080'', [])
      else if pe_dnsDomainLevels env host = 4 then (''SOCKS4 example.com:1081'', [])
      else
        (let alerts = [''Checking other rules...'', pe_myIpAddress env] in
         if pe_isInNet env (JStr host) ''10.0.0.0'' ''255.255.248.0'' then (''PROXY fastproxy.example.com:8080'', alerts)
         else if pe_dnsDomainIs env host ''le.com'' then (''PROXY proxy2.example.com:8888'', alerts)
         else if prefix ''file:///'' url then (''DIRECT'', alerts)
         else (let resolved_ip = pe_dnsResolve env host in
               if local_net env resolved_ip then (''DIRECT'', alerts)
               else (''PROXY proxy.example.com:8080; DIRECT'', alerts))))"

section \<open>proxy.pac.js and debug.pac.js\<close>

text \<open>
  Both read \<^verbatim>\<open>resolved_ip\<close> in their first condition, before its \<^verbatim>\<open>const\<close> declaration: a variable that is
  not initialised yet (\<open>None\<close>) cannot be read.
\<close>

definition read_const :: "string \<Rightarrow> jsval option \<Rightarrow> jsval result" where
  "read_const name v =
     (case v of Some x \<Rightarrow> Inr x | None \<Rightarrow> Inl (ReferenceError (''Cannot access '' @ sq name @ '' before initialization'')))"

definition proxy_FindProxyForURL :: "pac_env \<Rightarrow> string \<Rightarrow> string \<Rightarrow> string result" where
  "proxy_FindProxyForURL env url host =
     (let resolved_ip = None in
      rbind (read_const ''resolved_ip'' resolved_ip) (\<lambda>ip.
        if local_net env ip then Inr ''DIRECT''
        else if prefix ''file:///'' url then Inr ''DIRECT''
        else (let resolved_ip = Some (pe_dnsResolve env host) in Inr ''DIRECT'')))"

definition debug_FindProxyForURL :: "pac_env \<Rightarrow> string \<Rightarrow> string \<Rightarrow> string result" where
  "debug_FindProxyForURL env url host =
     (let resolved_ip = None in
      rbind (read_const ''resolved_ip'' resolved_ip) (\<lambda>ip.
        if local_net env ip then Inr ''DIRECT''
        else if prefix ''http://'' url then Inr ''DIRECT''
        else if prefix ''https://'' url then Inr ''DIRECT''
        else (let resolved_ip = Some (pe_dnsResolve env host) in Inr ''DIRECT'')))"

section \<open>Properties\<close>

text \<open>The rules of the example in order, as a table: the answer is that of the first rule that applies.\<close>

definition example_rules :: "pac_env \<Rightarrow> ((string \<Rightarrow> string \<Rightarrow> bool) \<times> string) list" where
  "example_rules env =
     [(\<lambda>url host. pe_shExpMatch env host ''*.example.com'', ''DIRECT''),
      (\<lambda>url host. pe_isPlainHostName env host, ''DIRECT''),
      (\<lambda>url host. pe_localHostOrDomainIs env host ''www.example.com'', ''PROXY local.proxy:8080''),
      (\<lambda>url host. \<not> pe_isResolvable env host, ''SOCKS4 example.com:1080''),
      (\<lambda>url host. pe_dnsDomainLevels env host = 4, ''SOCKS4 example.com:1081''),
      (\<lambda>url host. pe_isInNet env (JStr host) ''10.0.0.0'' ''255.255.248.0'', ''PROXY fastproxy.example.com:8080''),
      (\<lambda>url host. pe_dnsDomainIs env host ''le.com'', ''PROXY proxy2.example.com:8888''),
      (\<lambda>url host. prefix ''file:///'' url, ''DIRECT''),
      (\<lambda>url host. local_net env (pe_dnsResolve env host), ''DIRECT'')]"

fun first_rule :: "((string \<Rightarrow> string \<Rightarrow> bool) \<times> string) list \<Rightarrow> string \<Rightarrow> string \<Rightarrow> string \<Rightarrow> string" where
  "first_rule [] dflt url host = dflt"
| "first_rule ((c, r) # rules) dflt url host = (if c url host then r else first_rule rules dflt url host)"


end
