(* ===== verification/Js_Regex.thy ===== *)
theory Js_Regex
  imports Js_Json
begin

text \<open>
  Regular expressions of JavaScript, as the validation scripts use them:
  \<^item> the syntax tree \<open>rx\<close> and the reader \<open>regex_parse\<close> of the pattern text of a regular expression
    literal or of \<^verbatim>\<open>new RegExp(text)\<close>. It reads the text once from the left with a stack of open
    groups, so it is total. \<open>None\<close> stands for a text that is no pattern, and for the parts of the
    grammar no script uses (back references, look-behind, named groups, a brace that is no
    quantifier);
  \<^item> the backtracking matcher \<open>rx_run\<close>: the ends of all matches from a position, in the order in
    which the engine tries them, so that the head of the list is the match the engine reports;
  \<^item> \<open>rx_test\<close> (\<^verbatim>\<open>re.test(s)\<close>), \<open>rx_replace\<close> (\<^verbatim>\<open>s.replace(/re/g, t)\<close>) and \<open>rx_matches\<close> (the
    matches that \<^verbatim>\<open>s.match(/re/g)\<close> returns);
  \<^item> the language \<open>rx_lang\<close> of an expression without assertions, and that the matcher decides it.

  A position of the matcher is the text before it, reversed, and the text after it. Groups do not
  capture: no script reads a captured text of a match.
\<close>

section \<open>Syntax\<close>

text \<open>
  \<open>Cls neg rs\<close> is a character or a class, the code units of the ranges \<open>rs\<close> or, when \<open>neg\<close>, all
  others; \<open>Rep r m n lazy\<close> is a quantifier with its bounds (\<open>None\<close>: no upper bound).
\<close>

datatype rx =
    Eps
  | Cls bool "(int \<times> int) list"
  | Bol
  | Eol
  | WordB
  | NotAhead rx
  | Seq rx rx
  | Alt rx rx
  | Rep rx nat "nat option" bool

section \<open>Matching\<close>

type_synonym rpos = "string \<times> string"

text \<open>
  The set of a class with the flag \<^verbatim>\<open>i\<close>: a code unit is in it when one of its case variants is
  (both cases of an ASCII or Latin-1 letter).
\<close>

definition code_upper :: "int \<Rightarrow> int" where
  "code_upper n =
     (if 97 \<le> n \<and> n \<le> 122 \<or> 224 \<le> n \<and> n \<le> 254 \<and> n \<noteq> 247 then n - 32 else n)"

definition code_lower :: "int \<Rightarrow> int" where
  "code_lower n =
     (if 65 \<le> n \<and> n \<le> 90 \<or> 192 \<le> n \<and> n \<le> 222 \<and> n \<noteq> 215 then n + 32 else n)"

definition in_ranges :: "(int \<times> int) list \<Rightarrow> int \<Rightarrow> bool" where
  "in_ranges rs n \<longleftrightarrow> list_ex (\<lambda>(a, b). a \<le> n \<and> n \<le> b) rs"

definition in_cls :: "bool \<Rightarrow> bool \<Rightarrow> (int \<times> int) list \<Rightarrow> char \<Rightarrow> bool" where
  "in_cls i neg rs c =
     (let n = of_char c :: int;
          m = (if i then in_ranges rs n \<or> in_ranges rs (code_upper n) \<or> in_ranges rs (code_lower n)
               else in_ranges rs n)
      in if neg then \<not> m else m)"

definition digit_ranges :: "(int \<times> int) list" where
  "digit_ranges = [(48, 57)]"

definition word_ranges :: "(int \<times> int) list" where
  "word_ranges = [(48, 57), (65, 90), (95, 95), (97, 122)]"

definition space_ranges :: "(int \<times> int) list" where
  "space_ranges = [(9, 13), (32, 32), (160, 160), (5760, 5760), (8192, 8202), (8232, 8233),
     (8239, 8239), (8287, 8287), (12288, 12288), (65279, 65279)]"

definition compl_ranges :: "(int \<times> int) list \<Rightarrow> (int \<times> int) list" where
  "compl_ranges rs =
     (let (lo, acc) = foldl (\<lambda>(lo, acc) (a, b). (b + 1, if lo < a then acc @ [(lo, a - 1)] else acc))
                        (0, []) rs
      in acc @ [(lo, 65535)])"

definition word_char :: "char \<Rightarrow> bool" where
  "word_char c = in_cls False False word_ranges c"

definition word_boundary :: "rpos \<Rightarrow> bool" where
  "word_boundary p =
     ((case fst p of [] \<Rightarrow> False | c # _ \<Rightarrow> word_char c) \<noteq>
      (case snd p of [] \<Rightarrow> False | c # _ \<Rightarrow> word_char c))"

text \<open>
  Quantifiers: the mandatory copies, then up to \<open>n\<close> more, each of which must consume something.
\<close>

fun rep_min :: "(rpos \<Rightarrow> rpos list) \<Rightarrow> nat \<Rightarrow> rpos \<Rightarrow> rpos list" where
  "rep_min f 0 p = [p]"
| "rep_min f (Suc n) p = concat (map (rep_min f n) (f p))"

fun rep_more :: "(rpos \<Rightarrow> rpos list) \<Rightarrow> bool \<Rightarrow> nat \<Rightarrow> rpos \<Rightarrow> rpos list" where
  "rep_more f lazy 0 p = [p]"
| "rep_more f lazy (Suc n) p =
     (let more = concat (map (\<lambda>q. if length (snd q) < length (snd p) then rep_more f lazy n q else []) (f p))
      in if lazy then p # more else more @ [p])"

text \<open>Without an upper bound there are at most as many further copies as there is text left.\<close>

primrec rx_run :: "rx \<Rightarrow> bool \<Rightarrow> rpos \<Rightarrow> rpos list" where
  "rx_run Eps i p = [p]"
| "rx_run (Cls neg rs) i p =
     (case snd p of [] \<Rightarrow> [] | c # s \<Rightarrow> if in_cls i neg rs c then [(c # fst p, s)] else [])"
| "rx_run Bol i p = (if fst p = [] then [p] else [])"
| "rx_run Eol i p = (if snd p = [] then [p] else [])"
| "rx_run WordB i p = (if word_boundary p then [p] else [])"
| "rx_run (NotAhead r) i p = (if rx_run r i p = [] then [p] else [])"
| "rx_run (Seq r1 r2) i p = concat (map (rx_run r2 i) (rx_run r1 i p))"
| "rx_run (Alt r1 r2) i p = rx_run r1 i p @ rx_run r2 i p"
| "rx_run (Rep r m n lazy) i p =
     concat (map (\<lambda>q. rep_more (rx_run r i) lazy
                        (case n of None \<Rightarrow> length (snd q) | Some k \<Rightarrow> k - m) q)
               (rep_min (rx_run r i) m p))"

text \<open>The first match at or after a position: its start and its end.\<close>

fun rx_search :: "rx \<Rightarrow> bool \<Rightarrow> string \<Rightarrow> string \<Rightarrow> (rpos \<times> rpos) option" where
  "rx_search r i l [] =
     (case rx_run r i (l, []) of q # _ \<Rightarrow> Some ((l, []), q) | [] \<Rightarrow> None)"
| "rx_search r i l (c # s) =
     (case rx_run r i (l, c # s) of q # _ \<Rightarrow> Some ((l, c # s), q)
      | [] \<Rightarrow> rx_search r i (c # l) s)"

definition rx_test :: "rx \<Rightarrow> bool \<Rightarrow> string \<Rightarrow> bool" where
  "rx_test r i s \<longleftrightarrow> rx_search r i [] s \<noteq> None"

text \<open>
  All matches from the left, each a start and an end; after an empty match the search goes on one
  code unit later. The fuel is the length of the text plus one.
\<close>

fun rx_scan :: "nat \<Rightarrow> rx \<Rightarrow> bool \<Rightarrow> rpos \<Rightarrow> (rpos \<times> rpos) list" where
  "rx_scan 0 r i p = []"
| "rx_scan (Suc n) r i p =
     (case rx_search r i (fst p) (snd p) of
        None \<Rightarrow> []
      | Some (a, b) \<Rightarrow>
          (a, b) #
          (if length (snd b) < length (snd a) then rx_scan n r i b
           else (case snd b of [] \<Rightarrow> [] | c # s \<Rightarrow> rx_scan n r i (c # fst b, s))))"

definition rx_spans :: "rx \<Rightarrow> bool \<Rightarrow> string \<Rightarrow> (rpos \<times> rpos) list" where
  "rx_spans r i s = rx_scan (Suc (length s)) r i ([], s)"

definition span_text :: "rpos \<times> rpos \<Rightarrow> string" where
  "span_text ab = take (length (snd (fst ab)) - length (snd (snd ab))) (snd (fst ab))"

definition rx_matches :: "rx \<Rightarrow> bool \<Rightarrow> string \<Rightarrow> string list" where
  "rx_matches r i s = map span_text (rx_spans r i s)"

text \<open>\<^verbatim>\<open>s.replace(/re/g, f)\<close>: each match replaced by the text \<open>f\<close> gives for it.\<close>

fun splice :: "(string \<Rightarrow> string) \<Rightarrow> string \<Rightarrow> (rpos \<times> rpos) list \<Rightarrow> string" where
  "splice f s [] = s"
| "splice f s (ab # rest) =
     take (length s - length (snd (fst ab))) s @ f (span_text ab) @ splice f (snd (snd ab)) rest"

definition rx_replace :: "rx \<Rightarrow> bool \<Rightarrow> (string \<Rightarrow> string) \<Rightarrow> string \<Rightarrow> string" where
  "rx_replace r i f s = splice f s (rx_spans r i s)"

section \<open>Reading a pattern\<close>

datatype rgroup = Capture | NegAhead

text \<open>
  The modes of the reader. \<open>Lazy\<close> follows a quantifier, \<open>Brace\<close> collects the text between braces,
  \<open>Hex\<close> the digits of \<^verbatim>\<open>\uXXXX\<close>. The modes \<open>CIn\<close>, \<open>CEsc\<close> and \<open>CHex\<close> are inside a class: its ranges
  so far, the last single code unit (which a dash may make the start of a range) and whether a
  dash was read after it.
\<close>

datatype rmode =
    Norm
  | Esc
  | Hex nat int
  | Lazy
  | Brace string
  | GOpen
  | GOpenQ
  | CFirst
  | CIn bool "(int \<times> int) list" "int option" bool
  | CEsc bool "(int \<times> int) list" "int option" bool
  | CHex bool "(int \<times> int) list" "int option" bool nat int

record rstate =
  r_open :: "(rgroup \<times> rx option \<times> rx list) list"
  r_alts :: "rx option"
  r_seq  :: "rx list"
  r_mode :: rmode

fun rx_seq :: "rx list \<Rightarrow> rx" where
  "rx_seq [] = Eps"
| "rx_seq [r] = r"
| "rx_seq (r # r' # rs) = Seq r (rx_seq (r' # rs))"

definition rx_branch :: "rx option \<Rightarrow> rx list \<Rightarrow> rx" where
  "rx_branch a q = (case a of None \<Rightarrow> rx_seq (rev q) | Some r \<Rightarrow> Alt r (rx_seq (rev q)))"

definition rx_add :: "rx \<Rightarrow> rstate \<Rightarrow> rstate" where
  "rx_add r st = st\<lparr>r_seq := r # r_seq st, r_mode := Norm\<rparr>"

definition code_lit :: "int \<Rightarrow> rx" where
  "code_lit n = Cls False [(n, n)]"

abbreviation lit :: "char \<Rightarrow> rx" where
  "lit c \<equiv> code_lit (of_char c)"

definition rx_any :: rx where
  "rx_any = Cls True [(10, 10), (13, 13), (8232, 8233)]"

fun hex_digit :: "char \<Rightarrow> int option" where
  "hex_digit c =
     (let n = of_char c :: int in
      if 48 \<le> n \<and> n \<le> 57 then Some (n - 48)
      else if 65 \<le> n \<and> n \<le> 70 then Some (n - 55)
      else if 97 \<le> n \<and> n \<le> 102 then Some (n - 87) else None)"

text \<open>A quantifier takes the last term, which must not be an assertion.\<close>

definition rx_quantify :: "nat \<Rightarrow> nat option \<Rightarrow> rstate \<Rightarrow> rstate option" where
  "rx_quantify m n st =
     (case r_seq st of
        [] \<Rightarrow> None
      | r # q \<Rightarrow>
          if r = Bol \<or> r = Eol \<or> r = WordB \<or> (case n of None \<Rightarrow> False | Some k \<Rightarrow> k < m) then None
          else Some (st\<lparr>r_seq := Rep r m n False # q, r_mode := Lazy\<rparr>))"

definition brace_bounds :: "string \<Rightarrow> (nat \<times> nat option) option" where
  "brace_bounds t =
     (case split_on CHR '','' t of
        [a] \<Rightarrow> if a \<noteq> [] \<and> list_all is_digit a then Some (digits_val 0 a, Some (digits_val 0 a)) else None
      | [a, b] \<Rightarrow>
          if a \<noteq> [] \<and> list_all is_digit a \<and> list_all is_digit b
          then Some (digits_val 0 a, if b = [] then None else Some (digits_val 0 b)) else None
      | _ \<Rightarrow> None)"

text \<open>The sets \<^verbatim>\<open>\d\<close>, \<^verbatim>\<open>\w\<close>, \<^verbatim>\<open>\s\<close> and their complements, and the single code units written with \<^verbatim>\<open>\\<close>.\<close>

definition esc_set :: "char \<Rightarrow> (int \<times> int) list option" where
  "esc_set c =
     (if c = CHR ''d'' then Some digit_ranges
      else if c = CHR ''w'' then Some word_ranges
      else if c = CHR ''s'' then Some space_ranges
      else if c = CHR ''D'' then Some (compl_ranges digit_ranges)
      else if c = CHR ''W'' then Some (compl_ranges word_ranges)
      else if c = CHR ''S'' then Some (compl_ranges space_ranges) else None)"

definition esc_code :: "char \<Rightarrow> int option" where
  "esc_code c =
     (if c = CHR ''n'' then Some 10 else if c = CHR ''r'' then Some 13
      else if c = CHR ''t'' then Some 9
      else if word_char c then None else Some (of_char c))"

definition cls_close :: "bool \<Rightarrow> (int \<times> int) list \<Rightarrow> int option \<Rightarrow> bool \<Rightarrow> rx" where
  "cls_close neg rs l dash =
     Cls neg (rs @ (case l of None \<Rightarrow> [] | Some a \<Rightarrow> [(a, a)]) @ (if dash then [(45, 45)] else []))"

definition cls_atom :: "bool \<Rightarrow> (int \<times> int) list \<Rightarrow> int option \<Rightarrow> bool \<Rightarrow> int \<Rightarrow> rmode option" where
  "cls_atom neg rs l dash n =
     (case l of
        None \<Rightarrow> Some (CIn neg rs (Some n) False)
      | Some a \<Rightarrow>
          if \<not> dash then Some (CIn neg (rs @ [(a, a)]) (Some n) False)
          else if a \<le> n then Some (CIn neg (rs @ [(a, n)]) None False) else None)"

definition cls_step :: "bool \<Rightarrow> (int \<times> int) list \<Rightarrow> int option \<Rightarrow> bool \<Rightarrow> char \<Rightarrow> rstate \<Rightarrow> rstate option" where
  "cls_step neg rs l dash c st =
     (if c = CHR '']'' then Some (rx_add (cls_close neg rs l dash) st)
      else if c = CHR 0x5C then Some (st\<lparr>r_mode := CEsc neg rs l dash\<rparr>)
      else if c = CHR ''-'' \<and> l \<noteq> None \<and> \<not> dash then Some (st\<lparr>r_mode := CIn neg rs l True\<rparr>)
      else map_option (\<lambda>m. st\<lparr>r_mode := m\<rparr>) (cls_atom neg rs l dash (of_char c)))"

definition cls_esc :: "bool \<Rightarrow> (int \<times> int) list \<Rightarrow> int option \<Rightarrow> bool \<Rightarrow> char \<Rightarrow> rmode option" where
  "cls_esc neg rs l dash c =
     (case esc_set c of
        Some xs \<Rightarrow>
          Some (CIn neg (rs @ (case l of None \<Rightarrow> [] | Some a \<Rightarrow> [(a, a)]) @
                         (if dash then [(45, 45)] else []) @ xs) None False)
      | None \<Rightarrow>
          if c = CHR ''u'' then Some (CHex neg rs l dash 4 0)
          else (case esc_code c of Some n \<Rightarrow> cls_atom neg rs l dash n | None \<Rightarrow> None))"

definition esc_step :: "char \<Rightarrow> rstate \<Rightarrow> rstate option" where
  "esc_step c st =
     (if c = CHR ''b'' then Some (rx_add WordB st)
      else if c = CHR ''u'' then Some (st\<lparr>r_mode := Hex 4 0\<rparr>)
      else (case esc_set c of
              Some xs \<Rightarrow> Some (rx_add (Cls False xs) st)
            | None \<Rightarrow> map_option (\<lambda>n. rx_add (code_lit n) st) (esc_code c)))"

definition push_group :: "rgroup \<Rightarrow> rstate \<Rightarrow> rstate" where
  "push_group g st =
     st\<lparr>r_open := (g, r_alts st, r_seq st) # r_open st, r_alts := None, r_seq := [], r_mode := Norm\<rparr>"

definition close_group :: "rstate \<Rightarrow> rstate option" where
  "close_group st =
     (case r_open st of
        [] \<Rightarrow> None
      | (g, a, q) # os \<Rightarrow>
          let r = rx_branch (r_alts st) (r_seq st) in
          Some (st\<lparr>r_open := os, r_alts := a, r_mode := Norm,
                   r_seq := (case g of Capture \<Rightarrow> r | NegAhead \<Rightarrow> NotAhead r) # q\<rparr>))"

definition norm_step :: "char \<Rightarrow> rstate \<Rightarrow> rstate option" where
  "norm_step c st =
     (if c = CHR 0x5C then Some (st\<lparr>r_mode := Esc\<rparr>)
      else if c = CHR ''['' then Some (st\<lparr>r_mode := CFirst\<rparr>)
      else if c = CHR ''('' then Some (st\<lparr>r_mode := GOpen\<rparr>)
      else if c = CHR '')'' then close_group st
      else if c = CHR ''|'' then
        Some (st\<lparr>r_alts := Some (rx_branch (r_alts st) (r_seq st)), r_seq := [], r_mode := Norm\<rparr>)
      else if c = CHR ''*'' then rx_quantify 0 None st
      else if c = CHR ''+'' then rx_quantify 1 None st
      else if c = CHR ''?'' then rx_quantify 0 (Some 1) st
      else if c = CHR ''{'' then Some (st\<lparr>r_mode := Brace []\<rparr>)
      else if c = CHR ''.'' then Some (rx_add rx_any st)
      else if c = CHR ''^'' then Some (rx_add Bol st)
      else if c = CHR ''$'' then Some (rx_add Eol st)
      else Some (rx_add (lit c) st))"

definition make_lazy :: "rstate \<Rightarrow> rstate option" where
  "make_lazy st =
     (case r_seq st of
        Rep r m n _ # q \<Rightarrow> Some (st\<lparr>r_seq := Rep r m n True # q, r_mode := Norm\<rparr>)
      | _ \<Rightarrow> None)"

definition rx_step :: "char \<Rightarrow> rstate \<Rightarrow> rstate option" where
  "rx_step c st =
     (case r_mode st of
        Norm \<Rightarrow> norm_step c st
      | Esc \<Rightarrow> esc_step c st
      | Hex k v \<Rightarrow>
          (case hex_digit c of
             None \<Rightarrow> None
           | Some d \<Rightarrow> Some (if k \<le> 1 then rx_add (code_lit (16 * v + d)) st
                              else st\<lparr>r_mode := Hex (k - 1) (16 * v + d)\<rparr>))
      | Lazy \<Rightarrow>
          if c = CHR ''?'' then make_lazy st
          else if c = CHR ''*'' \<or> c = CHR ''+'' \<or> c = CHR ''{'' then None
          else norm_step c st
      | Brace t \<Rightarrow>
          if c = CHR ''}'' then
            (case brace_bounds t of Some (m, n) \<Rightarrow> rx_quantify m n st | None \<Rightarrow> None)
          else Some (st\<lparr>r_mode := Brace (t @ [c])\<rparr>)
      | GOpen \<Rightarrow>
          if c = CHR ''?'' then Some (st\<lparr>r_mode := GOpenQ\<rparr>) else norm_step c (push_group Capture st)
      | GOpenQ \<Rightarrow>
          if c = CHR '':'' then Some (push_group Capture st)
          else if c = CHR ''!'' then Some (push_group NegAhead st) else None
      | CFirst \<Rightarrow>
          if c = CHR ''^'' then Some (st\<lparr>r_mode := CIn True [] None False\<rparr>)
          else cls_step False [] None False c st
      | CIn neg rs l dash \<Rightarrow> cls_step neg rs l dash c st
      | CEsc neg rs l dash \<Rightarrow> map_option (\<lambda>m. st\<lparr>r_mode := m\<rparr>) (cls_esc neg rs l dash c)
      | CHex neg rs l dash k v \<Rightarrow>
          (case hex_digit c of
             None \<Rightarrow> None
           | Some d \<Rightarrow>
               if k \<le> 1 then map_option (\<lambda>m. st\<lparr>r_mode := m\<rparr>) (cls_atom neg rs l dash (16 * v + d))
               else Some (st\<lparr>r_mode := CHex neg rs l dash (k - 1) (16 * v + d)\<rparr>)))"

fun rx_read :: "string \<Rightarrow> rstate \<Rightarrow> rstate option" where
  "rx_read [] st = Some st"
| "rx_read (c # s) st = (case rx_step c st of None \<Rightarrow> None | Some st' \<Rightarrow> rx_read s st')"

definition regex_parse :: "string \<Rightarrow> rx option" where
  "regex_parse s =
     (case rx_read s \<lparr>r_open = [], r_alts = None, r_seq = [], r_mode = Norm\<rparr> of
        None \<Rightarrow> None
      | Some st \<Rightarrow>
          if r_open st = [] \<and> (r_mode st = Norm \<or> r_mode st = Lazy)
          then Some (rx_branch (r_alts st) (r_seq st)) else None)"

text \<open>
  A pattern text of the source: a string of this logic cannot hold a backslash, so the texts are
  written with another character in its place, which does not occur in them (\<^verbatim>\<open>@\<close> when possible).
\<close>

definition bs_for :: "char \<Rightarrow> string \<Rightarrow> string" where
  "bs_for e t = map (\<lambda>c. if c = e then CHR 0x5C else c) t"

abbreviation bs :: "string \<Rightarrow> string" where
  "bs t \<equiv> bs_for CHR ''@'' t"

text \<open>
  \<^verbatim>\<open>/text/.test(s)\<close> for a literal of the source, \<open>i\<close> its flag: the literals of the scripts are all
  in the grammar of the reader.
\<close>

definition re_test :: "bool \<Rightarrow> string \<Rightarrow> string \<Rightarrow> bool" where
  "re_test i re s = (case regex_parse re of None \<Rightarrow> False | Some r \<Rightarrow> rx_test r i s)"

definition re_replace :: "bool \<Rightarrow> string \<Rightarrow> string \<Rightarrow> string \<Rightarrow> string" where
  "re_replace i re t s = (case regex_parse re of None \<Rightarrow> s | Some r \<Rightarrow> rx_replace r i (\<lambda>_. t) s)"

definition re_matches :: "bool \<Rightarrow> string \<Rightarrow> string \<Rightarrow> string list" where
  "re_matches i re s = (case regex_parse re of None \<Rightarrow> [] | Some r \<Rightarrow> rx_matches r i s)"

text \<open>\<^verbatim>\<open>new RegExp(text)\<close>, which throws on a text that is no pattern.\<close>

definition new_RegExp :: "string \<Rightarrow> rx result" where
  "new_RegExp re =
     (case regex_parse re of
        None \<Rightarrow> Inl (SyntaxError (''Invalid regular expression: /'' @ re @ ''/''))
      | Some r \<Rightarrow> Inr r)"

section \<open>The language of an expression\<close>

text \<open>Expressions without assertions, and the texts they match as a whole.\<close>

primrec rx_plain :: "rx \<Rightarrow> bool" where
  "rx_plain Eps = True"
| "rx_plain (Cls neg rs) = True"
| "rx_plain Bol = False"
| "rx_plain Eol = False"
| "rx_plain WordB = False"
| "rx_plain (NotAhead r) = False"
| "rx_plain (Seq r1 r2) = (rx_plain r1 \<and> rx_plain r2)"
| "rx_plain (Alt r1 r2) = (rx_plain r1 \<and> rx_plain r2)"
| "rx_plain (Rep r m n lazy) = (rx_plain r \<and> (case n of None \<Rightarrow> True | Some k \<Rightarrow> m \<le> k))"

primrec rx_lang :: "bool \<Rightarrow> rx \<Rightarrow> string set" where
  "rx_lang i Eps = {[]}"
| "rx_lang i (Cls neg rs) = {[c] | c. in_cls i neg rs c}"
| "rx_lang i Bol = {}"
| "rx_lang i Eol = {}"
| "rx_lang i WordB = {}"
| "rx_lang i (NotAhead r) = {}"
| "rx_lang i (Seq r1 r2) = {u @ v | u v. u \<in> rx_lang i r1 \<and> v \<in> rx_lang i r2}"
| "rx_lang i (Alt r1 r2) = rx_lang i r1 \<union> rx_lang i r2"
| "rx_lang i (Rep r m n lazy) =
     {concat ws | ws. m \<le> length ws \<and> (case n of None \<Rightarrow> True | Some k \<Rightarrow> length ws \<le> k) \<and>
                      set ws \<subseteq> rx_lang i r}"

text \<open>\<open>q\<close> is the position \<open>p\<close> moved over the text \<open>w\<close>.\<close>

definition moves :: "rpos \<Rightarrow> string \<Rightarrow> rpos \<Rightarrow> bool" where
  "moves p w q \<longleftrightarrow> snd p = w @ snd q \<and> fst q = rev w @ fst p"

definition runs_lang :: "(rpos \<Rightarrow> rpos list) \<Rightarrow> string set \<Rightarrow> bool" where
  "runs_lang f A \<longleftrightarrow> (\<forall>p q. q \<in> set (f p) \<longleftrightarrow> (\<exists>w\<in>A. moves p w q))"

lemma moves_Nil [simp]: "moves p [] q \<longleftrightarrow> q = p"
  by (cases p; cases q) (auto simp: moves_def)

lemma moves_append: "moves p (u @ v) q \<longleftrightarrow> (\<exists>x. moves p u x \<and> moves x v q)"
  by (cases p; cases q) (auto simp: moves_def)

lemma moves_length: "moves p w q \<Longrightarrow> length (snd p) = length w + length (snd q)"
  by (simp add: moves_def)

lemma runs_langD: "runs_lang f A \<Longrightarrow> q \<in> set (f p) \<longleftrightarrow> (\<exists>w\<in>A. moves p w q)"
  unfolding runs_lang_def by blast

lemma Ex_list_Suc:
  "(\<exists>ws. length ws = Suc n \<and> set ws \<subseteq> A \<and> P ws) \<longleftrightarrow>
   (\<exists>w\<in>A. \<exists>ws. length ws = n \<and> set ws \<subseteq> A \<and> P (w # ws))"
  unfolding length_Suc_conv by (metis insert_subset list.simps(15))

lemma rep_min_lang:
  assumes "runs_lang f A"
  shows "q \<in> set (rep_min f n p) \<longleftrightarrow> (\<exists>ws. length ws = n \<and> set ws \<subseteq> A \<and> moves p (concat ws) q)"
proof (induction n arbitrary: p)
  case (Suc n)
  have "q \<in> set (rep_min f (Suc n) p) \<longleftrightarrow> (\<exists>x. (\<exists>w\<in>A. moves p w x) \<and> q \<in> set (rep_min f n x))"
    unfolding rep_min.simps set_concat set_map by (simp only: runs_langD [OF assms, symmetric]) blast
  also have "\<dots> \<longleftrightarrow> (\<exists>w\<in>A. \<exists>ws. length ws = n \<and> set ws \<subseteq> A \<and> moves p (concat (w # ws)) q)"
    unfolding Suc.IH concat.simps moves_append by blast
  also have "\<dots> \<longleftrightarrow> (\<exists>ws. length ws = Suc n \<and> set ws \<subseteq> A \<and> moves p (concat ws) q)"
    by (simp only: Ex_list_Suc [of n A "\<lambda>ws. moves p (concat ws) q"])
  finally show ?case .
qed auto

lemma Ex_list_le_Suc:
  "(\<exists>ws. length ws \<le> Suc n \<and> set ws \<subseteq> A \<and> P ws) \<longleftrightarrow>
   P [] \<or> (\<exists>w\<in>A. \<exists>ws. length ws \<le> n \<and> set ws \<subseteq> A \<and> P (w # ws))"
proof
  assume "\<exists>ws. length ws \<le> Suc n \<and> set ws \<subseteq> A \<and> P ws"
  then obtain ws where ws: "length ws \<le> Suc n" "set ws \<subseteq> A" "P ws" by blast
  then show "P [] \<or> (\<exists>w\<in>A. \<exists>ws. length ws \<le> n \<and> set ws \<subseteq> A \<and> P (w # ws))"
    by (cases ws) auto
next
  assume "P [] \<or> (\<exists>w\<in>A. \<exists>ws. length ws \<le> n \<and> set ws \<subseteq> A \<and> P (w # ws))"
  then show "\<exists>ws. length ws \<le> Suc n \<and> set ws \<subseteq> A \<and> P ws"
  proof
    assume "P []" then show ?thesis by (intro exI [of _ "[]"]) simp
  next
    assume "\<exists>w\<in>A. \<exists>ws. length ws \<le> n \<and> set ws \<subseteq> A \<and> P (w # ws)"
    then obtain w ws where "w \<in> A" "length ws \<le> n" "set ws \<subseteq> A" "P (w # ws)" by blast
    then show ?thesis by (intro exI [of _ "w # ws"]) simp
  qed
qed

lemma rep_more_lang:
  assumes "runs_lang f A"
  shows "q \<in> set (rep_more f lazy n p) \<longleftrightarrow>
           (\<exists>ws. length ws \<le> n \<and> set ws \<subseteq> A - {[]} \<and> moves p (concat ws) q)"
proof (induction n arbitrary: p)
  case (Suc n)
  have nonempty: "x \<in> set (f p) \<and> length (snd x) < length (snd p) \<longleftrightarrow> (\<exists>w\<in>A - {[]}. moves p w x)" for x
    unfolding runs_langD [OF assms] using moves_length [of p _ x] by fastforce
  have "q \<in> set (rep_more f lazy (Suc n) p) \<longleftrightarrow>
      q = p \<or> (\<exists>x. (x \<in> set (f p) \<and> length (snd x) < length (snd p)) \<and> q \<in> set (rep_more f lazy n x))"
    by (auto simp: Let_def split: if_splits)
  also have "\<dots> \<longleftrightarrow> moves p (concat []) q \<or>
      (\<exists>w\<in>A - {[]}. \<exists>ws. length ws \<le> n \<and> set ws \<subseteq> A - {[]} \<and> moves p (concat (w # ws)) q)"
    unfolding nonempty Suc.IH concat.simps moves_append moves_Nil by blast
  also have "\<dots> \<longleftrightarrow> (\<exists>ws. length ws \<le> Suc n \<and> set ws \<subseteq> A - {[]} \<and> moves p (concat ws) q)"
    by (simp only: Ex_list_le_Suc [of n "A - {[]}" "\<lambda>ws. moves p (concat ws) q"])
  finally show ?case .
qed auto

lemma concat_filter_Nil: "concat (filter (\<lambda>w. w \<noteq> []) ws) = concat ws"
  by (induction ws) auto

lemma length_le_concat: "[] \<notin> set ws \<Longrightarrow> length ws \<le> length (concat ws)"
proof (induction ws)
  case (Cons w ws) then show ?case by (cases w) auto
qed simp

text \<open>The mandatory copies followed by the optional ones are the copies of a quantifier.\<close>

lemma rep_words:
  assumes "case n of None \<Rightarrow> True | Some k \<Rightarrow> m \<le> k"
  shows "(\<exists>us vs. length us = m \<and> set us \<subseteq> A \<and> set vs \<subseteq> A - {[]} \<and>
            length vs \<le> (case n of None \<Rightarrow> length (concat vs @ z) | Some k \<Rightarrow> k - m) \<and>
            w = concat us @ concat vs) \<longleftrightarrow>
         (\<exists>ws. m \<le> length ws \<and> (case n of None \<Rightarrow> True | Some k \<Rightarrow> length ws \<le> k) \<and>
            set ws \<subseteq> A \<and> w = concat ws)" (is "?L \<longleftrightarrow> ?R")
proof
  assume ?L
  then obtain us vs where uv: "length us = m" "set us \<subseteq> A" "set vs \<subseteq> A - {[]}" "w = concat us @ concat vs"
    and le: "length vs \<le> (case n of None \<Rightarrow> length (concat vs @ z) | Some k \<Rightarrow> k - m)" by blast
  moreover have "case n of None \<Rightarrow> True | Some k \<Rightarrow> length (us @ vs) \<le> k"
    using le uv(1) assms by (auto split: option.splits)
  ultimately show ?R by (intro exI [of _ "us @ vs"]) auto
next
  assume ?R
  then obtain ws where ws: "m \<le> length ws" "case n of None \<Rightarrow> True | Some k \<Rightarrow> length ws \<le> k"
    "set ws \<subseteq> A" "w = concat ws" by blast
  let ?vs = "filter (\<lambda>w. w \<noteq> []) (drop m ws)"
  have "length ?vs \<le> (case n of None \<Rightarrow> length (concat ?vs @ z) | Some k \<Rightarrow> k - m)"
    using ws(2) length_le_concat [of ?vs] length_filter_le [of "\<lambda>w. w \<noteq> []" "drop m ws"]
    by (fastforce split: option.splits)
  moreover have "w = concat (take m ws) @ concat ?vs"
    unfolding concat_filter_Nil ws(4) by (metis append_take_drop_id concat_append)
  moreover have "set (take m ws) \<subseteq> A" "set ?vs \<subseteq> A - {[]}"
    using ws(3) set_take_subset [of m ws] set_drop_subset [of m ws] by auto
  ultimately show ?L using ws(1) by (intro exI [of _ "take m ws"] exI [of _ ?vs]) simp
qed

lemma moves_concat_length:
  "moves p (concat vs) q \<Longrightarrow> length (snd p) = length (concat vs @ snd q)"
  using moves_length [of p "concat vs" q] by simp

lemma rx_rep_lang:
  assumes f: "runs_lang (rx_run r i) A" and "case n of None \<Rightarrow> True | Some k \<Rightarrow> m \<le> k"
  shows "q \<in> set (rx_run (Rep r m n lazy) i p) \<longleftrightarrow>
    (\<exists>w. (\<exists>ws. m \<le> length ws \<and> (case n of None \<Rightarrow> True | Some k \<Rightarrow> length ws \<le> k) \<and>
             set ws \<subseteq> A \<and> w = concat ws) \<and> moves p w q)"
proof -
  let ?b = "\<lambda>vs. case n of None \<Rightarrow> length (concat vs @ snd q) | Some k \<Rightarrow> k - m"
  have bound: "(length vs \<le> (case n of None \<Rightarrow> length (snd x) | Some k \<Rightarrow> k - m) \<and> S \<and> moves x (concat vs) q)
      \<longleftrightarrow> (length vs \<le> ?b vs \<and> S \<and> moves x (concat vs) q)" for x vs S
    using moves_concat_length [of x vs q] by (cases n) auto
  have "q \<in> set (rx_run (Rep r m n lazy) i p) \<longleftrightarrow>
     (\<exists>x us. length us = m \<and> set us \<subseteq> A \<and> moves p (concat us) x \<and>
        (\<exists>vs. length vs \<le> (case n of None \<Rightarrow> length (snd x) | Some k \<Rightarrow> k - m) \<and>
              set vs \<subseteq> A - {[]} \<and> moves x (concat vs) q))"
    by (simp only: rx_run.simps set_concat set_map UN_iff image_image
        rep_min_lang [OF f] rep_more_lang [OF f] Bex_def) blast
  also have "\<dots> \<longleftrightarrow> (\<exists>us vs x. length us = m \<and> set us \<subseteq> A \<and> set vs \<subseteq> A - {[]} \<and>
        length vs \<le> ?b vs \<and> moves p (concat us) x \<and> moves x (concat vs) q)"
    unfolding bound by blast
  also have "\<dots> \<longleftrightarrow> (\<exists>w. (\<exists>us vs. length us = m \<and> set us \<subseteq> A \<and> set vs \<subseteq> A - {[]} \<and>
        length vs \<le> ?b vs \<and> w = concat us @ concat vs) \<and> moves p w q)"
    using moves_append by blast
  finally show ?thesis unfolding rep_words [OF assms(2)] .
qed

theorem rx_run_lang: "rx_plain r \<Longrightarrow> runs_lang (rx_run r i) (rx_lang i r)"
proof (induction r)
  case (Cls neg rs)
  then show ?case
    by (auto simp: runs_lang_def moves_def split: list.splits)
next
  case (Seq r1 r2)
  then have f: "runs_lang (rx_run r1 i) (rx_lang i r1)" "runs_lang (rx_run r2 i) (rx_lang i r2)" by simp_all
  have "q \<in> set (rx_run (Seq r1 r2) i p) \<longleftrightarrow>
      (\<exists>u\<in>rx_lang i r1. \<exists>v\<in>rx_lang i r2. moves p (u @ v) q)" for p q
    unfolding moves_append by (simp add: runs_langD [OF f(1)] runs_langD [OF f(2)] Bex_def) blast
  then show ?case unfolding runs_lang_def by auto
next
  case (Alt r1 r2)
  then have f: "runs_lang (rx_run r1 i) (rx_lang i r1)" "runs_lang (rx_run r2 i) (rx_lang i r2)" by simp_all
  show ?case
    unfolding runs_lang_def by (simp add: runs_langD [OF f(1)] runs_langD [OF f(2)] Bex_def) blast
next
  case (Rep r m n lazy)
  then have f: "runs_lang (rx_run r i) (rx_lang i r)" and n: "case n of None \<Rightarrow> True | Some k \<Rightarrow> m \<le> k"
    by simp_all
  show ?case
    unfolding runs_lang_def rx_rep_lang [OF f n] rx_lang.simps Bex_def mem_Collect_eq by blast
qed (auto simp: runs_lang_def)

section \<open>Anchored tests\<close>

lemma rx_search_Bol: "l \<noteq> [] \<Longrightarrow> rx_search (Seq Bol r) i l s = None"
  by (induction s arbitrary: l) simp_all

lemma rx_test_Bol: "rx_test (Seq Bol r) i s \<longleftrightarrow> rx_run r i ([], s) \<noteq> []"
  by (cases s) (auto simp: rx_test_def rx_search_Bol split: list.split)

lemma runs_lang_ne:
  assumes "rx_plain a"
  shows "rx_run (Seq a b) i (l, s) \<noteq> [] \<longleftrightarrow>
    (\<exists>w\<in>rx_lang i a. \<exists>t. s = w @ t \<and> rx_run b i (rev w @ l, t) \<noteq> [])"
proof -
  have "rx_run (Seq a b) i (l, s) \<noteq> [] \<longleftrightarrow> (\<exists>q. q \<in> set (rx_run a i (l, s)) \<and> rx_run b i q \<noteq> [])"
    by (auto simp: concat_eq_Nil_conv)
  also have "\<dots> \<longleftrightarrow> (\<exists>q. (\<exists>w\<in>rx_lang i a. moves (l, s) w q) \<and> rx_run b i q \<noteq> [])"
    by (simp only: runs_langD [OF rx_run_lang [OF assms]])
  finally show ?thesis by (simp add: moves_def) blast
qed

lemma rx_seq_Cons: "rs \<noteq> [] \<Longrightarrow> rx_seq (r # rs) = Seq r (rx_seq rs)"
  by (cases rs) auto

lemma rx_seq_Eol:
  "list_all rx_plain rs \<Longrightarrow>
   rx_run (rx_seq (rs @ [Eol])) i (l, s) \<noteq> [] \<longleftrightarrow> s \<in> rx_lang i (rx_seq rs)"
proof (induction rs arbitrary: l s)
  case (Cons r rs)
  then have "rx_run (rx_seq ((r # rs) @ [Eol])) i (l, s) \<noteq> [] \<longleftrightarrow>
      (\<exists>w\<in>rx_lang i r. \<exists>t. s = w @ t \<and> t \<in> rx_lang i (rx_seq rs))"
    by (simp add: rx_seq_Cons runs_lang_ne del: rx_run.simps)
  then show ?case by (cases rs) auto
qed simp

text \<open>An expression between \<^verbatim>\<open>^\<close> and \<^verbatim>\<open>$\<close> accepts exactly the texts of its language.\<close>

theorem anchored_test:
  assumes "list_all rx_plain rs"
  shows "rx_test (rx_seq (Bol # rs @ [Eol])) i s \<longleftrightarrow> s \<in> rx_lang i (rx_seq rs)"
  using assms by (simp add: rx_seq_Cons rx_test_Bol rx_seq_Eol)

lemma re_test_anchored:
  assumes "regex_parse re = Some (rx_seq (Bol # rs @ [Eol]))" "list_all rx_plain rs"
  shows "re_test i re s \<longleftrightarrow> s \<in> rx_lang i (rx_seq rs)"
  using assms by (simp add: re_test_def anchored_test)

section \<open>Quantified classes\<close>

lemma concat_singles:
  "(\<exists>ws. P (length ws) \<and> set ws \<subseteq> {[c] | c. Q c} \<and> w = concat ws) \<longleftrightarrow>
   P (length w) \<and> list_all Q w"
proof
  assume "\<exists>ws. P (length ws) \<and> set ws \<subseteq> {[c] | c. Q c} \<and> w = concat ws"
  then obtain ws where ws: "P (length ws)" "set ws \<subseteq> {[c] | c. Q c}" "w = concat ws" by blast
  from ws(2) have "length (concat ws) = length ws \<and> list_all Q (concat ws)"
    by (induction ws) auto
  with ws show "P (length w) \<and> list_all Q w" by simp
next
  assume "P (length w) \<and> list_all Q w"
  moreover have "w = concat (map (\<lambda>c. [c]) w)" by (induction w) auto
  ultimately show "\<exists>ws. P (length ws) \<and> set ws \<subseteq> {[c] | c. Q c} \<and> w = concat ws"
    by (intro exI [of _ "map (\<lambda>c. [c]) w"]) (auto simp: list_all_iff)
qed

lemma lang_Rep_Cls:
  "w \<in> rx_lang i (Rep (Cls neg rs) m n lazy) \<longleftrightarrow>
     m \<le> length w \<and> (case n of None \<Rightarrow> True | Some k \<Rightarrow> length w \<le> k) \<and> list_all (in_cls i neg rs) w"
  using concat_singles [of "\<lambda>x. m \<le> x \<and> (case n of None \<Rightarrow> True | Some k \<Rightarrow> x \<le> k)" "in_cls i neg rs" w]
  by auto

lemma lang_Cls: "w \<in> rx_lang i (Cls neg rs) \<longleftrightarrow> (\<exists>c. w = [c] \<and> in_cls i neg rs c)"
  by simp

lemma lang_opt: "w \<in> rx_lang i (Rep r 0 (Some 1) lazy) \<longleftrightarrow> w = [] \<or> w \<in> rx_lang i r"
proof
  assume "w \<in> rx_lang i (Rep r 0 (Some 1) lazy)"
  then obtain ws where "length ws \<le> 1" "set ws \<subseteq> rx_lang i r" "w = concat ws" by auto
  then show "w = [] \<or> w \<in> rx_lang i r" by (cases ws) auto
next
  assume "w = [] \<or> w \<in> rx_lang i r"
  then show "w \<in> rx_lang i (Rep r 0 (Some 1) lazy)"
  proof
    assume "w = []" then show ?thesis by (auto intro!: exI [of _ "[]"])
  next
    assume "w \<in> rx_lang i r" then show ?thesis by (auto intro!: exI [of _ "[w]"])
  qed
qed

lemma code_nat: "(of_char c :: int) = int (of_char c)"
  by (simp add: of_nat_of_char)

lemma is_digit_code: "is_digit c \<longleftrightarrow> 48 \<le> (of_char c :: int) \<and> (of_char c :: int) \<le> 57"
  by (simp add: is_digit_def code_nat)

lemma in_cls_digits:
  "b \<le> 57 \<Longrightarrow> in_cls i False [(a, b)] c \<longleftrightarrow> a \<le> of_char c \<and> of_char c \<le> b"
  by (auto simp: in_cls_def in_ranges_def code_upper_def code_lower_def Let_def)

lemma in_cls_digit [simp]: "in_cls i False [(48, 57)] c = is_digit c"
  by (simp add: in_cls_digits is_digit_code)

lemma in_cls_lit: "in_cls False False [(n, n)] c \<longleftrightarrow> of_char c = n"
  by (auto simp: in_cls_def in_ranges_def Let_def)

section \<open>Replacing the characters of a class\<close>

lemma rx_search_Cls:
  "rx_search (Cls neg rs) i l s =
     (case dropWhile (\<lambda>c. \<not> in_cls i neg rs c) s of
        [] \<Rightarrow> None
      | c # t \<Rightarrow>
          let l' = rev (takeWhile (\<lambda>c. \<not> in_cls i neg rs c) s) @ l
          in Some ((l', c # t), (c # l', t)))"
  by (induction s arbitrary: l) (auto simp: Let_def simp del: dropWhile_eq_Nil_conv split: list.split)

lemma splice_scan_Cls:
  "length s < n \<Longrightarrow>
   splice (\<lambda>_. t) s (rx_scan n (Cls neg rs) i (l, s)) =
     concat (map (\<lambda>c. if in_cls i neg rs c then t else [c]) s)"
proof (induction s arbitrary: n l rule: length_induct)
  case (1 s)
  let ?P = "\<lambda>c. \<not> in_cls i neg rs c"
  obtain m where n: "n = Suc m" using 1 by (cases n) auto
  have keep: "concat (map (\<lambda>c. if in_cls i neg rs c then t else [c]) (takeWhile ?P s)) = takeWhile ?P s"
    by (induction s) auto
  have s: "s = takeWhile ?P s @ dropWhile ?P s" by simp
  show ?case
  proof (cases "dropWhile ?P s")
    case Nil
    then have "takeWhile ?P s = s" by (metis append_Nil2 s)
    with keep Nil show ?thesis by (simp add: n rx_search_Cls del: dropWhile_eq_Nil_conv)
  next
    case (Cons c u)
    then have c: "in_cls i neg rs c" by (metis hd_dropWhile list.distinct(1) list.sel(1))
    have len: "length s = length (takeWhile ?P s) + Suc (length u)"
      using s Cons by (metis length_Cons length_append)
    then have IH: "splice (\<lambda>_. t) u (rx_scan m (Cls neg rs) i (l', u)) =
        concat (map (\<lambda>c. if in_cls i neg rs c then t else [c]) u)" for l'
      using 1 n by simp
    have "length s - Suc (length u) = length (takeWhile ?P s)" using len by simp
    then have pre: "take (length s - Suc (length u)) s = takeWhile ?P s"
      by (metis append_eq_conv_conj s)
    have "concat (map (\<lambda>c. if in_cls i neg rs c then t else [c]) s) = takeWhile ?P s @ t @
        concat (map (\<lambda>c. if in_cls i neg rs c then t else [c]) u)"
      by (subst s, unfold Cons map_append concat_append keep) (simp add: c)
    with IH pre show ?thesis by (simp add: n rx_search_Cls Cons Let_def)
  qed
qed

lemma rx_replace_Cls:
  "rx_replace (Cls neg rs) i (\<lambda>_. t) s = concat (map (\<lambda>c. if in_cls i neg rs c then t else [c]) s)"
  unfolding rx_replace_def rx_spans_def by (rule splice_scan_Cls) simp

lemma rx_delete_Cls: "rx_replace (Cls neg rs) i (\<lambda>_. []) s = filter (\<lambda>c. \<not> in_cls i neg rs c) s"
  unfolding rx_replace_Cls by (induction s) auto

lemma rx_test_Cls: "rx_test (Cls neg rs) i s \<longleftrightarrow> list_ex (in_cls i neg rs) s"
proof -
  have "dropWhile (\<lambda>c. \<not> in_cls i neg rs c) s = [] \<longleftrightarrow> \<not> list_ex (in_cls i neg rs) s"
    by (auto simp: list_ex_iff dropWhile_eq_Nil_conv)
  then show ?thesis
    by (cases "dropWhile (\<lambda>c. \<not> in_cls i neg rs c) s")
      (simp_all add: rx_test_def rx_search_Cls Let_def del: dropWhile_eq_Nil_conv)
qed

section \<open>Reading a pattern inside a group\<close>

text \<open>The reader works the same above further open groups, as long as it does not close them.\<close>

definition above :: "(rgroup \<times> rx option \<times> rx list) list \<Rightarrow> rstate \<Rightarrow> rstate" where
  "above os st = st\<lparr>r_open := r_open st @ os\<rparr>"

lemma above_sel [simp]:
  "r_open (above os st) = r_open st @ os" "r_alts (above os st) = r_alts st"
  "r_seq (above os st) = r_seq st" "r_mode (above os st) = r_mode st"
  by (simp_all add: above_def)

lemma above_upd [simp]:
  "(above os st)\<lparr>r_alts := a\<rparr> = above os (st\<lparr>r_alts := a\<rparr>)"
  "(above os st)\<lparr>r_seq := q\<rparr> = above os (st\<lparr>r_seq := q\<rparr>)"
  "(above os st)\<lparr>r_mode := m\<rparr> = above os (st\<lparr>r_mode := m\<rparr>)"
  by (simp_all add: above_def)

lemma rx_add_above [simp]: "rx_add r (above os st) = above os (rx_add r st)"
  by (simp add: rx_add_def)

lemma push_group_above [simp]: "push_group g (above os st) = above os (push_group g st)"
  by (simp add: push_group_def above_def)

lemma close_group_above: "close_group st = Some st' \<Longrightarrow> close_group (above os st) = Some (above os st')"
  by (auto simp: close_group_def above_def Let_def split: list.splits)

lemma rx_quantify_above: "rx_quantify m n (above os st) = map_option (above os) (rx_quantify m n st)"
  by (auto simp: rx_quantify_def split: list.splits option.splits)

lemma norm_step_above: "norm_step c st = Some st' \<Longrightarrow> norm_step c (above os st) = Some (above os st')"
  by (auto simp: norm_step_def rx_quantify_above close_group_above split: if_splits)

lemma cls_step_above:
  "cls_step neg rs l dash c (above os st) = map_option (above os) (cls_step neg rs l dash c st)"
  by (auto simp: cls_step_def option.map_comp comp_def)

lemma esc_step_above: "esc_step c (above os st) = map_option (above os) (esc_step c st)"
  by (auto simp: esc_step_def option.map_comp comp_def split: option.splits)

lemma make_lazy_above: "make_lazy (above os st) = map_option (above os) (make_lazy st)"
  by (auto simp: make_lazy_def split: list.splits rx.splits)

lemmas step_above = norm_step_above cls_step_above esc_step_above make_lazy_above rx_quantify_above

lemma rx_step_above: "rx_step c st = Some st' \<Longrightarrow> rx_step c (above os st) = Some (above os st')"
  by (cases "r_mode st") (auto simp: rx_step_def step_above split: if_splits option.splits)

lemma rx_read_above: "rx_read s st = Some st' \<Longrightarrow> rx_read s (above os st) = Some (above os st')"
proof (induction s arbitrary: st)
  case (Cons c s)
  then show ?case by (auto simp: rx_step_above split: option.splits)
qed simp

lemma rx_read_append:
  "rx_read (s @ t) st = (case rx_read s st of None \<Rightarrow> None | Some st' \<Rightarrow> rx_read t st')"
  by (induction s arbitrary: st) (auto split: option.splits)

lemma norm_or_lazy_close:
  "r_mode st = Norm \<or> r_mode st = Lazy \<Longrightarrow> rx_step CHR '')'' st = close_group st"
  by (auto simp: rx_step_def norm_step_def)

lemma regex_parse_group:
  assumes "regex_parse t = Some r"
  shows "regex_parse (''^(?:'' @ t @ '')$'') = Some (Seq Bol (Seq r Eol))"
proof -
  let ?st0 = "\<lparr>r_open = [], r_alts = None, r_seq = [], r_mode = Norm\<rparr>"
  let ?os = "[(Capture, None, [Bol])]"
  from assms obtain st where st: "rx_read t ?st0 = Some st" "r_open st = []"
      "r_mode st = Norm \<or> r_mode st = Lazy" "r = rx_branch (r_alts st) (r_seq st)"
    by (auto simp: regex_parse_def split: option.splits if_splits)
  have "rx_read ''^(?:'' ?st0 = Some (above ?os ?st0)"
    by (simp add: rx_step_def norm_step_def rx_add_def push_group_def above_def)
  moreover have "rx_read t (above ?os ?st0) = Some (above ?os st)"
    using st(1) by (rule rx_read_above)
  moreover have "rx_step CHR '')'' (above ?os st) =
      Some (st\<lparr>r_open := [], r_alts := None, r_mode := Norm, r_seq := [r, Bol]\<rparr>)"
    using st by (subst norm_or_lazy_close) (auto simp: close_group_def above_def)
  then have "rx_read '')$'' (above ?os st) =
      Some (st\<lparr>r_open := [], r_alts := None, r_mode := Norm, r_seq := [Eol, r, Bol]\<rparr>)"
    by (simp add: rx_step_def norm_step_def rx_add_def)
  ultimately show ?thesis by (simp only: regex_parse_def rx_read_append) (simp add: rx_branch_def)
qed

section \<open>Tests that are not anchored\<close>

lemma rx_search_None:
  "rx_search r i l s = None \<longleftrightarrow> (\<forall>u v. s = u @ v \<longrightarrow> rx_run r i (rev u @ l, v) = [])"
proof (induction s arbitrary: l)
  case (Cons c s)
  have "rx_search r i l (c # s) = None \<longleftrightarrow>
      rx_run r i (l, c # s) = [] \<and> rx_search r i (c # l) s = None"
    by (auto split: list.split)
  also have "\<dots> \<longleftrightarrow> (\<forall>u v. c # s = u @ v \<longrightarrow> rx_run r i (rev u @ l, v) = [])"
  proof (intro iffI conjI allI impI)
    fix u v
    assume "rx_run r i (l, c # s) = [] \<and> rx_search r i (c # l) s = None" "c # s = u @ v"
    then show "rx_run r i (rev u @ l, v) = []" unfolding Cons.IH by (cases u) auto
  next
    assume all: "\<forall>u v. c # s = u @ v \<longrightarrow> rx_run r i (rev u @ l, v) = []"
    then show "rx_run r i (l, c # s) = []" by (metis append_Nil rev.simps(1))
    show "rx_search r i (c # l) s = None" unfolding Cons.IH
    proof (intro allI impI)
      fix u v assume "s = u @ v"
      then show "rx_run r i (rev u @ c # l, v) = []" using all [rule_format, of "c # u" v] by simp
    qed
  qed
  finally show ?case .
qed (auto split: list.split)

lemma rx_test_iff: "rx_test r i s \<longleftrightarrow> (\<exists>u v. s = u @ v \<and> rx_run r i (rev u, v) \<noteq> [])"
  using rx_search_None [of r i "[]" s] by (auto simp: rx_test_def)

lemma rx_test_plus_Cls: "rx_test (Rep (Cls neg rs) 1 None lazy) i s \<longleftrightarrow> list_ex (in_cls i neg rs) s"
proof -
  have run: "rx_run (Rep (Cls neg rs) 1 None lazy) i (l, v) \<noteq> [] \<longleftrightarrow>
      (\<exists>c t. v = c # t \<and> in_cls i neg rs c)" for l v
  proof -
    have "rx_run (Rep (Cls neg rs) 1 None lazy) i (l, v) \<noteq> [] \<longleftrightarrow>
        (\<exists>q. q \<in> set (rx_run (Rep (Cls neg rs) 1 None lazy) i (l, v)))"
      by (cases "rx_run (Rep (Cls neg rs) 1 None lazy) i (l, v)") auto
    also have "\<dots> \<longleftrightarrow> (\<exists>q w. 1 \<le> length w \<and> list_all (in_cls i neg rs) w \<and> moves (l, v) w q)"
      by (simp only: runs_langD [OF rx_run_lang] rx_plain.simps lang_Rep_Cls option.case Bex_def simp_thms)
        blast
    also have "\<dots> \<longleftrightarrow> (\<exists>c t. v = c # t \<and> in_cls i neg rs c)"
    proof
      assume "\<exists>q w. 1 \<le> length w \<and> list_all (in_cls i neg rs) w \<and> moves (l, v) w q"
      then obtain q w where "1 \<le> length w" "list_all (in_cls i neg rs) w" "moves (l, v) w q" by blast
      then show "\<exists>c t. v = c # t \<and> in_cls i neg rs c" by (cases w) (auto simp: moves_def)
    next
      assume "\<exists>c t. v = c # t \<and> in_cls i neg rs c"
      then obtain c t where "v = c # t" "in_cls i neg rs c" by blast
      then show "\<exists>q w. 1 \<le> length w \<and> list_all (in_cls i neg rs) w \<and> moves (l, v) w q"
        by (intro exI [of _ "(c # l, t)"] exI [of _ "[c]"]) (simp add: moves_def)
    qed
    finally show ?thesis .
  qed
  show ?thesis unfolding rx_test_iff run list_ex_iff by (metis in_set_conv_decomp)
qed

end
