(* ===== verification/Jv_Patterns.thy ===== *)
theory Jv_Patterns
  imports Js_Regex
begin

text \<open>
  The methods of additional-methods.js that compare a value with a regular expression, each with
  the expression of the source, and those that count words. A method returns a boolean, the text
  \<^verbatim>\<open>"dependency-mismatch"\<close> (\<open>Mismatch\<close>) that \<^verbatim>\<open>this.optional(element)\<close> gives for an empty optional
  field, or \<^verbatim>\<open>"pending"\<close>; a match array or \<^verbatim>\<open>null\<close> is the boolean its caller takes it for. The first
  argument \<open>opt\<close> of a method says whether \<^verbatim>\<open>this.optional(element)\<close> is true.
\<close>

datatype mres = Verdict bool | Mismatch | Pending

definition opt_or :: "bool \<Rightarrow> bool \<Rightarrow> mres" where
  "opt_or opt b = (if opt then Mismatch else Verdict b)"

text \<open>A method whose own test may throw, which it reaches only when the field is not optional.\<close>

definition opt_or_try :: "bool \<Rightarrow> bool result \<Rightarrow> mres result" where
  "opt_or_try opt b = (if opt then Inr Mismatch else rbind b (\<lambda>v. Inr (Verdict v)))"

text \<open>
  \<^verbatim>\<open>s.toUpperCase()\<close>. The sharp s becomes two letters. The two Latin-1 letters whose upper case is
  not Latin-1 (micro sign, y with diaeresis) are kept: no method distinguishes them from it.
\<close>

definition upper_char :: "char \<Rightarrow> string" where
  "upper_char c = (if c = CHR 0xDF then ''SS'' else [char_of (code_upper (of_char c))])"

definition toUpperCase :: "string \<Rightarrow> string" where
  "toUpperCase s = concat (map upper_char s)"

definition is_space :: "char \<Rightarrow> bool" where
  "is_space c = in_cls False False space_ranges c"

section \<open>Words\<close>

definition stripHtml :: "string \<Rightarrow> string" where
  "stripHtml value =
     re_replace False (bs ''[.(),;:!?%#$\\'@\"_+=@/@-@u201C@u201D@u2019]*'') []
       (re_replace True (bs ''&nbsp;|&#160;'') '' ''
         (re_replace False (bs ''<.[^<>]*?>'') '' '' value))"

text \<open>\<^verbatim>\<open>s.match(/\b\w+\b/g).length\<close>: \<^verbatim>\<open>match\<close> returns \<^verbatim>\<open>null\<close> when there is no word.\<close>

definition word_count :: "string \<Rightarrow> nat result" where
  "word_count s =
     (case re_matches False (bs ''@b@w+@b'') s of
        [] \<Rightarrow> Inl (TypeError (''Cannot read properties of null (reading '' @ sq ''length'' @ '')''))
      | ws \<Rightarrow> Inr (length ws))"

definition maxWords :: "bool \<Rightarrow> string \<Rightarrow> int \<Rightarrow> mres result" where
  "maxWords opt value params =
     opt_or_try opt (rbind (word_count (stripHtml value)) (\<lambda>n. Inr (int n \<le> params)))"

definition minWords :: "bool \<Rightarrow> string \<Rightarrow> int \<Rightarrow> mres result" where
  "minWords opt value params =
     opt_or_try opt (rbind (word_count (stripHtml value)) (\<lambda>n. Inr (params \<le> int n)))"

definition rangeWords :: "bool \<Rightarrow> string \<Rightarrow> int \<times> int \<Rightarrow> mres result" where
  "rangeWords opt value params =
     (let valueStripped = stripHtml value in
      opt_or_try opt
        (rbind (word_count valueStripped)
           (\<lambda>n. if fst params \<le> int n
                then rbind (word_count valueStripped) (\<lambda>n. Inr (int n \<le> snd params))
                else Inr False)))"

section \<open>Files\<close>

text \<open>
  \<^verbatim>\<open>accept\<close>: \<open>param\<close> is \<open>None\<close> for a parameter that is no string, \<open>ftype\<close> the \<^verbatim>\<open>type\<close> attribute, \<open>files\<close> the
  MIME types of the files of the element (\<open>None\<close> without a \<^verbatim>\<open>FileList\<close>).
\<close>

definition accept_pattern :: "string \<Rightarrow> string" where
  "accept_pattern typeParam =
     re_replace False (bs ''@/@*'') ''/.*''
       (re_replace False (bs '','') ''|''
         (concat (map (\<lambda>c. if re_test False (bs_for CHR ''~'' ''[~-~[~]~/~{~}~(~)~+~?~.~~~^~$~|]'') [c] then [CHR 0x5C, c] else [c]) typeParam)))"

definition accept :: "bool \<Rightarrow> string option \<Rightarrow> string \<Rightarrow> string list option \<Rightarrow> mres result" where
  "accept opt param ftype files =
     (let typeParam = (case param of Some p \<Rightarrow> re_replace False (bs ''@s'') [] p | None \<Rightarrow> ''image/*'')
      in if opt then Inr Mismatch
         else if ftype = ''file'' then
           (case files of
              None \<Rightarrow> Inr (Verdict True)
            | Some [] \<Rightarrow> Inr (Verdict True)
            | Some ts \<Rightarrow>
                rbind (new_RegExp (''.?('' @ accept_pattern typeParam @ '')$''))
                  (\<lambda>r. Inr (Verdict (list_all (\<lambda>t. rx_test r True t) ts))))
         else Inr (Verdict True))"

definition extension :: "bool \<Rightarrow> string \<Rightarrow> string option \<Rightarrow> mres result" where
  "extension opt value param =
     (let p = (case param of Some q \<Rightarrow> re_replace False (bs '','') ''|'' q | None \<Rightarrow> ''png|jpe?g|gif'')
      in opt_or_try opt
           (rbind (new_RegExp (bs ''@.('' @ p @ '')$'')) (\<lambda>r. Inr (rx_test r True value))))"

section \<open>Patterns given by the page\<close>

text \<open>\<^verbatim>\<open>currency\<close>: the parameter is a symbol text, or an array of it and a flag.\<close>

definition currency_pattern :: "string \<Rightarrow> bool \<Rightarrow> string" where
  "currency_pattern symbol soft =
     (let sym = re_replace False (bs '','') [] symbol in
      ''^['' @ (if soft then sym @ '']'' else sym @ '']?'') @
      bs ''([1-9]{1}[0-9]{0,2}(@,[0-9]{3})*(@.[0-9]{0,2})?|[1-9]{1}[0-9]{0,}(@.[0-9]{0,2})?|0(@.[0-9]{0,2})?|(@.[0-9]{1,2})?)$'')"

definition currency :: "bool \<Rightarrow> string \<Rightarrow> string + (string \<times> bool) \<Rightarrow> mres result" where
  "currency opt value param =
     (let symbol = (case param of Inl s \<Rightarrow> s | Inr sb \<Rightarrow> fst sb);
          soft = (case param of Inl _ \<Rightarrow> True | Inr sb \<Rightarrow> snd sb)
      in rbind (new_RegExp (currency_pattern symbol soft))
           (\<lambda>r. Inr (opt_or opt (rx_test r False value))))"

text \<open>\<^verbatim>\<open>pattern\<close>: the parameter is a text or a regular expression with its flag \<^verbatim>\<open>i\<close>.\<close>

definition pattern :: "bool \<Rightarrow> string \<Rightarrow> string + (rx \<times> bool) \<Rightarrow> mres result" where
  "pattern opt value param =
     (if opt then Inr (Verdict True)
      else (case param of
              Inl t \<Rightarrow> rbind (new_RegExp (''^(?:'' @ t @ '')$'')) (\<lambda>r. Inr (Verdict (rx_test r False value)))
            | Inr re \<Rightarrow> Inr (Verdict (rx_test (fst re) (snd re) value))))"

record state_options =
  caseSensitive      :: "bool option"
  includeTerritories :: "bool option"
  includeMilitary    :: "bool option"

definition stateUS_pattern :: "bool \<Rightarrow> bool \<Rightarrow> string" where
  "stateUS_pattern territories military =
     (if \<not> territories \<and> \<not> military then
        ''^(A[KLRZ]|C[AOT]|D[CE]|FL|GA|HI|I[ADLN]|K[SY]|LA|M[ADEINOST]|N[CDEHJMVY]|O[HKR]|PA|RI|S[CD]|T[NX]|UT|V[AT]|W[AIVY])$''
      else if territories \<and> military then
        ''^(A[AEKLPRSZ]|C[AOT]|D[CE]|FL|G[AU]|HI|I[ADLN]|K[SY]|LA|M[ADEINOPST]|N[CDEHJMVY]|O[HKR]|P[AR]|RI|S[CD]|T[NX]|UT|V[AIT]|W[AIVY])$''
      else if territories then
        ''^(A[KLRSZ]|C[AOT]|D[CE]|FL|G[AU]|HI|I[ADLN]|K[SY]|LA|M[ADEINOPST]|N[CDEHJMVY]|O[HKR]|P[AR]|RI|S[CD]|T[NX]|UT|V[AIT]|W[AIVY])$''
      else
        ''^(A[AEKLPRZ]|C[AOT]|D[CE]|FL|GA|HI|I[ADLN]|K[SY]|LA|M[ADEINOST]|N[CDEHJMVY]|O[HKR]|PA|RI|S[CD]|T[NX]|UT|V[AT]|W[AIVY])$'')"

definition stateUS :: "bool \<Rightarrow> string \<Rightarrow> state_options option \<Rightarrow> mres" where
  "stateUS opt value options =
     (let opt_of = (\<lambda>f. case options of None \<Rightarrow> False
                        | Some o' \<Rightarrow> (case f o' of None \<Rightarrow> False | Some b \<Rightarrow> b));
          re = stateUS_pattern (opt_of includeTerritories) (opt_of includeMilitary)
      in opt_or opt (re_test (\<not> opt_of caseSensitive) re value))"

text \<open>\<^verbatim>\<open>strippedminlength\<close>: \<open>text\<close> is jQuery's \<^verbatim>\<open>$(value).text()\<close>.\<close>

definition strippedminlength :: "(string \<Rightarrow> string) \<Rightarrow> string \<Rightarrow> int \<Rightarrow> mres" where
  "strippedminlength jq_text value param = Verdict (param \<le> int (length (jq_text value)))"

section \<open>Fixed patterns\<close>

definition alphanumeric :: "bool \<Rightarrow> string \<Rightarrow> mres" where
  "alphanumeric opt value =
     opt_or opt (re_test True
       (bs ''^@w+$'')
       value)"

definition bic :: "bool \<Rightarrow> string \<Rightarrow> mres" where
  "bic opt value =
     opt_or opt (re_test False
       (bs ''^([A-Z]{6}[A-Z2-9][A-NP-Z1-9])(X{3}|[A-WY-Z0-9][A-Z0-9]{2})?$'')
       (toUpperCase value))"

definition dateFA :: "bool \<Rightarrow> string \<Rightarrow> mres" where
  "dateFA opt value =
     opt_or opt (re_test False
       (bs ''^[1-4]@d{3}@/((0?[1-6]@/((3[0-1])|([1-2][0-9])|(0?[1-9])))|((1[0-2]|(0?[7-9]))@/(30|([1-2][0-9])|(0?[1-9]))))$'')
       value)"

definition dateNL :: "bool \<Rightarrow> string \<Rightarrow> mres" where
  "dateNL opt value =
     opt_or opt (re_test False
       (bs ''^(0?[1-9]|[12]@d|3[01])[@.@/@-](0?[1-9]|1[012])[@.@/@-]([12]@d)?(@d@d)$'')
       value)"

definition giroaccountNL :: "bool \<Rightarrow> string \<Rightarrow> mres" where
  "giroaccountNL opt value =
     opt_or opt (re_test False
       (bs ''^[0-9]{1,7}$'')
       value)"

definition integer :: "bool \<Rightarrow> string \<Rightarrow> mres" where
  "integer opt value =
     opt_or opt (re_test False
       (bs ''^-?@d+$'')
       value)"

definition ipv4 :: "bool \<Rightarrow> string \<Rightarrow> mres" where
  "ipv4 opt value =
     opt_or opt (re_test True
       (bs ''^(25[0-5]|2[0-4]@d|[01]?@d@d?)@.(25[0-5]|2[0-4]@d|[01]?@d@d?)@.(25[0-5]|2[0-4]@d|[01]?@d@d?)@.(25[0-5]|2[0-4]@d|[01]?@d@d?)$'')
       value)"

definition ipv6 :: "bool \<Rightarrow> string \<Rightarrow> mres" where
  "ipv6 opt value =
     opt_or opt (re_test True
       (bs ''^((([0-9A-Fa-f]{1,4}:){7}[0-9A-Fa-f]{1,4})|(([0-9A-Fa-f]{1,4}:){6}:[0-9A-Fa-f]{1,4})|(([0-9A-Fa-f]{1,4}:){5}:([0-9A-Fa-f]{1,4}:)?[0-9A-Fa-f]{1,4})|(([0-9A-Fa-f]{1,4}:){4}:([0-9A-Fa-f]{1,4}:){0,2}[0-9A-Fa-f]{1,4})|(([0-9A-Fa-f]{1,4}:){3}:([0-9A-Fa-f]{1,4}:){0,3}[0-9A-Fa-f]{1,4})|(([0-9A-Fa-f]{1,4}:){2}:([0-9A-Fa-f]{1,4}:){0,4}[0-9A-Fa-f]{1,4})|(([0-9A-Fa-f]{1,4}:){6}((@b((25[0-5])|(1@d{2})|(2[0-4]@d)|(@d{1,2}))@b)@.){3}(@b((25[0-5])|(1@d{2})|(2[0-4]@d)|(@d{1,2}))@b))|(([0-9A-Fa-f]{1,4}:){0,5}:((@b((25[0-5])|(1@d{2})|(2[0-4]@d)|(@d{1,2}))@b)@.){3}(@b((25[0-5])|(1@d{2})|(2[0-4]@d)|(@d{1,2}))@b))|(::([0-9A-Fa-f]{1,4}:){0,5}((@b((25[0-5])|(1@d{2})|(2[0-4]@d)|(@d{1,2}))@b)@.){3}(@b((25[0-5])|(1@d{2})|(2[0-4]@d)|(@d{1,2}))@b))|([0-9A-Fa-f]{1,4}::([0-9A-Fa-f]{1,4}:){0,5}[0-9A-Fa-f]{1,4})|(::([0-9A-Fa-f]{1,4}:){0,6}[0-9A-Fa-f]{1,4})|(([0-9A-Fa-f]{1,4}:){1,7}:))$'')
       value)"

definition lettersonly :: "bool \<Rightarrow> string \<Rightarrow> mres" where
  "lettersonly opt value =
     opt_or opt (re_test True
       (bs ''^[a-z]+$'')
       value)"

definition letterswithbasicpunc :: "bool \<Rightarrow> string \<Rightarrow> mres" where
  "letterswithbasicpunc opt value =
     opt_or opt (re_test True
       (bs ''^[a-z@-.,()\\'\"@s]+$'')
       value)"

definition mobileNL :: "bool \<Rightarrow> string \<Rightarrow> mres" where
  "mobileNL opt value =
     opt_or opt (re_test False
       (bs ''^((@+|00(@s|@s?@-@s?)?)31(@s|@s?@-@s?)?(@(0@)[@-@s]?)?|0)6((@s|@s?@-@s?)?[0-9]){8}$'')
       value)"

definition netmask :: "bool \<Rightarrow> string \<Rightarrow> mres" where
  "netmask opt value =
     opt_or opt (re_test True
       (bs ''^(254|252|248|240|224|192|128)@.0@.0@.0|255@.(254|252|248|240|224|192|128|0)@.0@.0|255@.255@.(254|252|248|240|224|192|128|0)@.0|255@.255@.255@.(254|252|248|240|224|192|128|0)'')
       value)"

definition nowhitespace :: "bool \<Rightarrow> string \<Rightarrow> mres" where
  "nowhitespace opt value =
     opt_or opt (re_test True
       (bs ''^@S+$'')
       value)"

definition phoneNL :: "bool \<Rightarrow> string \<Rightarrow> mres" where
  "phoneNL opt value =
     opt_or opt (re_test False
       (bs ''^((@+|00(@s|@s?@-@s?)?)31(@s|@s?@-@s?)?(@(0@)[@-@s]?)?|0)[1-9]((@s|@s?@-@s?)?[0-9]){8}$'')
       value)"

definition postalcodeBR :: "bool \<Rightarrow> string \<Rightarrow> mres" where
  "postalcodeBR opt value =
     opt_or opt (re_test False
       (bs ''^@d{2}.@d{3}-@d{3}?$|^@d{5}-?@d{3}?$'')
       value)"

definition postalCodeCA :: "bool \<Rightarrow> string \<Rightarrow> mres" where
  "postalCodeCA opt value =
     opt_or opt (re_test True
       (bs ''^[ABCEGHJKLMNPRSTVXY]@d[ABCEGHJKLMNPRSTVWXYZ] *@d[ABCEGHJKLMNPRSTVWXYZ]@d$'')
       value)"

definition postalcodeIT :: "bool \<Rightarrow> string \<Rightarrow> mres" where
  "postalcodeIT opt value =
     opt_or opt (re_test False
       (bs ''^@d{5}$'')
       value)"

definition postalcodeNL :: "bool \<Rightarrow> string \<Rightarrow> mres" where
  "postalcodeNL opt value =
     opt_or opt (re_test False
       (bs ''^[1-9][0-9]{3}@s?[a-zA-Z]{2}$'')
       value)"

definition postcodeUK :: "bool \<Rightarrow> string \<Rightarrow> mres" where
  "postcodeUK opt value =
     opt_or opt (re_test True
       (bs ''^((([A-PR-UWYZ][0-9])|([A-PR-UWYZ][0-9][0-9])|([A-PR-UWYZ][A-HK-Y][0-9])|([A-PR-UWYZ][A-HK-Y][0-9][0-9])|([A-PR-UWYZ][0-9][A-HJKSTUW])|([A-PR-UWYZ][A-HK-Y][0-9][ABEHMNPRVWXY]))@s?([0-9][ABD-HJLNP-UW-Z]{2})|(GIR)@s?(0AA))$'')
       value)"

definition time :: "bool \<Rightarrow> string \<Rightarrow> mres" where
  "time opt value =
     opt_or opt (re_test False
       (bs ''^([01]@d|2[0-3]|[0-9])(:[0-5]@d){1,2}$'')
       value)"

definition time12h :: "bool \<Rightarrow> string \<Rightarrow> mres" where
  "time12h opt value =
     opt_or opt (re_test True
       (bs ''^((0?[1-9]|1[012])(:[0-5]@d){1,2}(@ ?[AP]M))$'')
       value)"

definition url2 :: "bool \<Rightarrow> string \<Rightarrow> mres" where
  "url2 opt value =
     opt_or opt (re_test True
       (bs_for CHR ''<'' ''^(https?|ftp):</</(((([a-z]|<d|-|<.|_|~|[<u00A0-<uD7FF<uF900-<uFDCF<uFDF0-<uFFEF])|(%[<da-f]{2})|[!<$&\\'<(<)<*<+,;=]|:)*@)?(((<d|[1-9]<d|1<d<d|2[0-4]<d|25[0-5])<.(<d|[1-9]<d|1<d<d|2[0-4]<d|25[0-5])<.(<d|[1-9]<d|1<d<d|2[0-4]<d|25[0-5])<.(<d|[1-9]<d|1<d<d|2[0-4]<d|25[0-5]))|((([a-z]|<d|[<u00A0-<uD7FF<uF900-<uFDCF<uFDF0-<uFFEF])|(([a-z]|<d|[<u00A0-<uD7FF<uF900-<uFDCF<uFDF0-<uFFEF])([a-z]|<d|-|<.|_|~|[<u00A0-<uD7FF<uF900-<uFDCF<uFDF0-<uFFEF])*([a-z]|<d|[<u00A0-<uD7FF<uF900-<uFDCF<uFDF0-<uFFEF])))<.)*(([a-z]|[<u00A0-<uD7FF<uF900-<uFDCF<uFDF0-<uFFEF])|(([a-z]|[<u00A0-<uD7FF<uF900-<uFDCF<uFDF0-<uFFEF])([a-z]|<d|-|<.|_|~|[<u00A0-<uD7FF<uF900-<uFDCF<uFDF0-<uFFEF])*([a-z]|[<u00A0-<uD7FF<uF900-<uFDCF<uFDF0-<uFFEF])))<.?)(:<d*)?)(</((([a-z]|<d|-|<.|_|~|[<u00A0-<uD7FF<uF900-<uFDCF<uFDF0-<uFFEF])|(%[<da-f]{2})|[!<$&\\'<(<)<*<+,;=]|:|@)+(</(([a-z]|<d|-|<.|_|~|[<u00A0-<uD7FF<uF900-<uFDCF<uFDF0-<uFFEF])|(%[<da-f]{2})|[!<$&\\'<(<)<*<+,;=]|:|@)*)*)?)?(<?((([a-z]|<d|-|<.|_|~|[<u00A0-<uD7FF<uF900-<uFDCF<uFDF0-<uFFEF])|(%[<da-f]{2})|[!<$&\\'<(<)<*<+,;=]|:|@)|[<uE000-<uF8FF]|</|<?)*)?(#((([a-z]|<d|-|<.|_|~|[<u00A0-<uD7FF<uF900-<uFDCF<uFDF0-<uFFEF])|(%[<da-f]{2})|[!<$&\\'<(<)<*<+,;=]|:|@)|</|<?)*)?$'')
       value)"

definition zipcodeUS :: "bool \<Rightarrow> string \<Rightarrow> mres" where
  "zipcodeUS opt value =
     opt_or opt (re_test False
       (bs ''^@d{5}(-@d{4})?$'')
       value)"

definition ziprange :: "bool \<Rightarrow> string \<Rightarrow> mres" where
  "ziprange opt value =
     opt_or opt (re_test False
       (bs_for CHR ''~'' ''^90[2-5]~d~{2~}-~d{4}$'')
       value)"

text \<open>Telephone numbers are tested without their separators.\<close>

definition strip_phone :: "string \<Rightarrow> string" where
  "strip_phone s = re_replace False (bs ''@(|@)|@s+|-'') [] s"

definition mobileUK :: "bool \<Rightarrow> string \<Rightarrow> mres" where
  "mobileUK opt phone_number =
     (let n = strip_phone phone_number in
      opt_or opt (length n > 9 \<and>
        re_test False (bs ''^(?:(?:(?:00@s?|@+)44@s?|0)7(?:[1345789]@d{2}|624)@s?@d{3}@s?@d{3})$'') n))"

definition phonesUK :: "bool \<Rightarrow> string \<Rightarrow> mres" where
  "phonesUK opt phone_number =
     (let n = strip_phone phone_number in
      opt_or opt (length n > 9 \<and>
        re_test False (bs ''^(?:(?:(?:00@s?|@+)44@s?|0)(?:1@d{8,9}|[23]@d{9}|7(?:[1345789]@d{8}|624@d{6})))$'') n))"

definition phoneUK :: "bool \<Rightarrow> string \<Rightarrow> mres" where
  "phoneUK opt phone_number =
     (let n = strip_phone phone_number in
      opt_or opt (length n > 9 \<and>
        re_test False (bs ''^(?:(?:(?:00@s?|@+)44@s?)|(?:@(?0))(?:@d{2}@)?@s?@d{4}@s?@d{4}|@d{3}@)?@s?@d{3}@s?@d{3,4}|@d{4}@)?@s?(?:@d{5}|@d{3}@s?@d{3})|@d{5}@)?@s?@d{4,5})$'') n))"

definition phoneUS :: "bool \<Rightarrow> string \<Rightarrow> mres" where
  "phoneUS opt phone_number =
     (let n = re_replace False (bs ''@s+'') [] phone_number in
      opt_or opt (length n > 9 \<and>
        re_test False (bs ''^(@+?1-?)?(@([2-9]([02-9]@d|1[02-9])@)|[2-9]([02-9]@d|1[02-9]))-?[2-9]([02-9]@d|1[02-9])-?@d{4}$'') n))"

section \<open>Patterns given by the page: the whole value\<close>

lemma pattern_plain:
  assumes "regex_parse t = Some r" "rx_plain r"
  shows "pattern False value (Inl t) = Inr (Verdict (value \<in> rx_lang False r))"
proof -
  have "rx_test (Seq Bol (Seq r Eol)) False value \<longleftrightarrow> value \<in> rx_lang False r"
    using anchored_test [of "[r]" False "value"] assms(2) by simp
  moreover have "new_RegExp (''^(?:'' @ t @ '')$'') = Inr (Seq Bol (Seq r Eol))"
    unfolding new_RegExp_def regex_parse_group [OF assms(1)] by simp
  ultimately show ?thesis unfolding pattern_def by (simp del: append_Cons)
qed



section \<open>Words\<close>

definition word_rx :: rx where
  "word_rx = Seq WordB (Seq (Rep (Cls False word_ranges) 1 None False) WordB)"

lemma word_rx_parse: "regex_parse (bs ''@b@w+@b'') = Some word_rx"
  by code_simp

lemma word_run_lang:
  "runs_lang (rx_run (Rep (Cls False word_ranges) 1 None False) False) {w. w \<noteq> [] \<and> list_all word_char w}"
proof -
  have "rx_lang False (Rep (Cls False word_ranges) 1 None False) = {w. w \<noteq> [] \<and> list_all word_char w}"
    unfolding set_eq_iff lang_Rep_Cls by (auto simp: word_char_def [abs_def] Suc_le_eq)
  then show ?thesis using rx_run_lang [of "Rep (Cls False word_ranges) 1 None False" False] by simp
qed

lemma run_not_Nil: "rx_run r i p \<noteq> [] \<longleftrightarrow> (\<exists>q. q \<in> set (rx_run r i p))"
  by (cases "rx_run r i p") auto

lemma word_run_here:
  assumes "word_char c" "l = [] \<or> \<not> word_char (hd l)"
  shows "rx_run word_rx False (l, c # s) \<noteq> []"
proof -
  let ?w = "takeWhile word_char (c # s)" and ?t = "dropWhile word_char (c # s)"
  let ?q = "(rev ?w @ l, ?t)"
  have "?q \<in> set (rx_run (Rep (Cls False word_ranges) 1 None False) False (l, c # s))"
    unfolding runs_langD [OF word_run_lang]
    by (rule bexI [of _ ?w]) (auto simp: moves_def assms(1) list_all_iff dest: set_takeWhileD)
  moreover have "word_boundary ?q"
  proof -
    have "hd (rev ?w) \<in> set ?w" using assms(1) hd_in_set [of "rev ?w"] by simp
    then have "word_char (hd (rev ?w @ l))" using assms(1) by (auto simp: hd_append dest: set_takeWhileD)
    moreover have "rev ?w @ l \<noteq> []" using assms(1) by simp
    ultimately have "case rev ?w @ l of [] \<Rightarrow> False | x # _ \<Rightarrow> word_char x"
      by (cases "rev ?w @ l") auto
    moreover have "\<not> (case ?t of [] \<Rightarrow> False | x # _ \<Rightarrow> word_char x)"
      using hd_dropWhile [of word_char "c # s"] by (cases ?t) auto
    ultimately show ?thesis by (simp add: word_boundary_def)
  qed
  moreover have "word_boundary (l, c # s)"
    using assms by (cases l) (auto simp: word_boundary_def)
  ultimately show ?thesis by (auto simp: word_rx_def concat_eq_Nil_conv)
qed

lemma word_run_only: "rx_run word_rx False (l, s) \<noteq> [] \<Longrightarrow> list_ex word_char s"
proof -
  assume "rx_run word_rx False (l, s) \<noteq> []"
  then obtain q where "q \<in> set (rx_run (Rep (Cls False word_ranges) 1 None False) False (l, s))"
    unfolding word_rx_def run_not_Nil by (auto split: if_splits)
  then obtain w where "w \<noteq> []" "list_all word_char w" "moves (l, s) w q"
    unfolding runs_langD [OF word_run_lang] by auto
  then show ?thesis by (cases w) (auto simp: moves_def)
qed

lemma word_search:
  "l = [] \<or> \<not> word_char (hd l) \<Longrightarrow> rx_search word_rx False l s = None \<longleftrightarrow> \<not> list_ex word_char s"
proof (induction s arbitrary: l)
  case Nil
  then show ?case using word_run_only [of l "[]"] by (auto split: list.split)
next
  case (Cons c s)
  show ?case
  proof (cases "word_char c")
    case True
    then show ?thesis using word_run_here [OF True Cons.prems, of s] by (auto split: list.split)
  next
    case False
    have "rx_search word_rx False l (c # s) = None \<longleftrightarrow>
        rx_run word_rx False (l, c # s) = [] \<and> rx_search word_rx False (c # l) s = None"
      by (auto split: list.split)
    then show ?thesis
      using Cons.IH [of "c # l"] word_run_only [of l "c # s"] False by auto
  qed
qed

lemma no_words: "re_matches False (bs ''@b@w+@b'') s = [] \<longleftrightarrow> \<not> list_ex word_char s"
  using word_search [of "[]" s]
  by (auto simp: re_matches_def word_rx_parse rx_matches_def rx_spans_def split: option.split)

lemma word_count_throws: "(\<exists>e. word_count s = Inl e) \<longleftrightarrow> \<not> list_ex word_char s"
  unfolding no_words [symmetric] by (auto simp: word_count_def split: list.split)

text \<open>
  C40: The three word-counting methods throw a \<^verbatim>\<open>TypeError\<close> exactly when the value of a field that is
  not optional has no word left after the tags and the punctuation are removed (\<^verbatim>\<open>match\<close> returns
  \<^verbatim>\<open>null\<close> there, not an empty list), for instance a single punctuation mark; they return a verdict
  in every other case.
\<close>

theorem word_methods_throw:
  "((\<exists>e. maxWords opt v n = Inl e) \<longleftrightarrow> \<not> opt \<and> \<not> list_ex word_char (stripHtml v)) \<and>
   ((\<exists>e. minWords opt v n = Inl e) \<longleftrightarrow> \<not> opt \<and> \<not> list_ex word_char (stripHtml v)) \<and>
   ((\<exists>e. rangeWords opt v ab = Inl e) \<longleftrightarrow> \<not> opt \<and> \<not> list_ex word_char (stripHtml v)) \<and>
   (\<exists>e. maxWords False ''?'' 3 = Inl (TypeError e))"
proof -
  have q: "\<exists>e. maxWords False ''?'' 3 = Inl (TypeError e)"
    by (rule exI [of _ "''Cannot read properties of null (reading '' @ sq ''length'' @ '')''"]) code_simp
  show ?thesis
    unfolding word_count_throws [symmetric]
    using q by (cases "word_count (stripHtml v)"; cases opt)
      (simp_all add: maxWords_def minWords_def rangeWords_def opt_or_try_def Let_def)
qed

section \<open>IPv4 addresses\<close>

definition octet_rx :: rx where
  "octet_rx =
     Alt (Alt (Seq (code_lit 50) (Seq (code_lit 53) (Cls False [(48, 53)])))
              (Seq (code_lit 50) (Seq (Cls False [(48, 52)]) (Cls False [(48, 57)]))))
         (Seq (Rep (Cls False [(48, 48), (49, 49)]) 0 (Some 1) False)
              (Seq (Cls False [(48, 57)]) (Rep (Cls False [(48, 57)]) 0 (Some 1) False)))"

text \<open>One to three digits with a value up to 255.\<close>

definition octet :: "string \<Rightarrow> bool" where
  "octet w \<longleftrightarrow> w \<noteq> [] \<and> length w \<le> 3 \<and> list_all is_digit w \<and> digits_val 0 w \<le> 255"

lemma in_cls_Cons: "in_cls i False (r # rs) c \<longleftrightarrow> in_cls i False [r] c \<or> in_cls i False rs c"
  by (auto simp: in_cls_def in_ranges_def Let_def)

lemma in_cls_digit_lit: "n \<le> 57 \<Longrightarrow> in_cls i False [(n, n)] c \<longleftrightarrow> of_char c = n"
  by (auto simp: in_cls_digits)

lemma in_cls_01: "in_cls i False [(48, 48), (49, 49)] c \<longleftrightarrow> of_char c = (48 :: int) \<or> of_char c = (49 :: int)"
  by (subst in_cls_Cons) (simp add: in_cls_digit_lit)

lemma octet_digits:
  assumes "48 \<le> a" "a \<le> 57" "48 \<le> b" "b \<le> 57" "48 \<le> c" "c \<le> (57 :: int)"
  shows "10 * (10 * (a - 48) + (b - 48)) + (c - 48) \<le> 255 \<longleftrightarrow>
    a = 50 \<and> b = 53 \<and> c \<le> 53 \<or> a = 50 \<and> b \<le> 52 \<or> a = 48 \<or> a = 49"
proof -
  consider "a = 48" | "a = 49" | "a = 50" "b \<le> 52" | "a = 50" "b = 53" | "a = 50" "54 \<le> b" | "51 \<le> a"
    using assms(1) by linarith
  then show ?thesis using assms by cases simp_all
qed

lemma lang_Seq: "w \<in> rx_lang i (Seq r s) \<longleftrightarrow> (\<exists>u v. w = u @ v \<and> u \<in> rx_lang i r \<and> v \<in> rx_lang i s)"
  by auto

lemma lang_Seq_Cls:
  "w \<in> rx_lang i (Seq (Cls neg rs) r) \<longleftrightarrow> (\<exists>c v. w = c # v \<and> in_cls i neg rs c \<and> v \<in> rx_lang i r)"
  unfolding lang_Seq lang_Cls by (metis append_Cons append_Nil)

lemma lang_Seq_opt:
  "w \<in> rx_lang i (Seq (Rep r 0 (Some 1) lazy) s) \<longleftrightarrow> w \<in> rx_lang i s \<or> w \<in> rx_lang i (Seq r s)"
  unfolding lang_Seq lang_opt by (metis append_Nil)

lemma lang_Alt: "w \<in> rx_lang i (Alt r s) \<longleftrightarrow> w \<in> rx_lang i r \<or> w \<in> rx_lang i s"
  by simp

lemmas lang_rules = lang_Seq_Cls lang_Seq_opt lang_Alt lang_opt lang_Cls

lemma octet_lang1:
  "w \<in> rx_lang i octet_rx \<longleftrightarrow>
     (\<exists>a b c. w = [a, b, c] \<and> of_char a = (50 :: int) \<and> of_char b = (53 :: int) \<and>
        48 \<le> (of_char c :: int) \<and> (of_char c :: int) \<le> 53) \<or>
     (\<exists>a b c. w = [a, b, c] \<and> of_char a = (50 :: int) \<and> 48 \<le> (of_char b :: int) \<and> (of_char b :: int) \<le> 52 \<and>
        is_digit c) \<or>
     (\<exists>a b c. w = [a, b, c] \<and> (of_char a = (48 :: int) \<or> of_char a = (49 :: int)) \<and> is_digit b \<and> is_digit c) \<or>
     (\<exists>b c. w = [b, c] \<and> is_digit b \<and> is_digit c) \<or> (\<exists>b. w = [b] \<and> is_digit b)"
  unfolding octet_rx_def code_lit_def lang_rules
  by (simp add: in_cls_digit_lit in_cls_digits in_cls_01) (auto simp: is_digit_code)

lemma short_list_cases:
  assumes "w \<noteq> []" "length w \<le> 3"
  obtains a where "w = [a]" | a b where "w = [a, b]" | a b c where "w = [a, b, c]"
proof -
  from assms have "length w = 1 \<or> length w = 2 \<or> length w = 3" by (simp add: le_Suc_eq eval_nat_numeral)
  then show thesis using that by (auto simp: length_Suc_conv eval_nat_numeral)
qed

lemma octet_lang: "w \<in> rx_lang i octet_rx \<longleftrightarrow> octet w"
proof (cases "w \<noteq> [] \<and> length w \<le> 3 \<and> list_all is_digit w")
  case False
  then show ?thesis unfolding octet_lang1 octet_def by (auto simp: is_digit_code)
next
  case True
  then have w: "w \<noteq> []" "length w \<le> 3" and d: "list_all is_digit w" by simp_all
  from w show ?thesis
  proof (cases w rule: short_list_cases)
    case (3 a b c)
    have "octet w \<longleftrightarrow> 10 * (10 * (of_char a - 48) + (of_char b - 48)) + (of_char c - 48) \<le> (255 :: int)"
      using d unfolding 3 octet_def by (auto simp: is_digit_def code_nat of_nat_diff)
    then show ?thesis using d octet_digits [of "of_char a" "of_char b" "of_char c"]
      unfolding octet_lang1 by (auto simp: 3 is_digit_code)
  qed (use d in \<open>auto simp: octet_lang1 octet_def is_digit_def\<close>)
qed

lemma ipv4_parse:
  "regex_parse (bs ''^(25[0-5]|2[0-4]@d|[01]?@d@d?)@.(25[0-5]|2[0-4]@d|[01]?@d@d?)@.(25[0-5]|2[0-4]@d|[01]?@d@d?)@.(25[0-5]|2[0-4]@d|[01]?@d@d?)$'') =
   Some (rx_seq (Bol # [octet_rx, code_lit 46, octet_rx, code_lit 46, octet_rx, code_lit 46, octet_rx] @ [Eol]))"
  by code_simp

lemma lang_Seq_dot:
  "v \<in> rx_lang i (Seq (code_lit 46) r) \<longleftrightarrow> (\<exists>w. v = CHR ''.'' # w \<and> w \<in> rx_lang i r)"
proof -
  have "(46 :: int) = of_char CHR ''.''" by simp
  then have "of_char c = (46 :: int) \<longleftrightarrow> c = CHR ''.''" for c by (simp only: of_char_eq_iff)
  then show ?thesis unfolding code_lit_def lang_Seq_Cls by (auto simp: in_cls_digit_lit)
qed

text \<open>
  C23: \<^verbatim>\<open>ipv4\<close> accepts exactly the texts of four parts separated by dots, each of one to three digits
  and of a value up to 255.
\<close>

theorem ipv4_exact:
  "ipv4 opt v =
     opt_or opt (\<exists>a b c d. v = a @ ''.'' @ b @ ''.'' @ c @ ''.'' @ d \<and> octet a \<and> octet b \<and> octet c \<and> octet d)"
proof -
  have "rx_plain octet_rx" "rx_plain (code_lit n)" for n
    by (simp_all add: octet_rx_def code_lit_def)
  then have "list_all rx_plain [octet_rx, code_lit 46, octet_rx, code_lit 46, octet_rx, code_lit 46, octet_rx]"
    by simp
  note test = re_test_anchored [OF ipv4_parse this]
  show ?thesis
    unfolding ipv4_def test rx_seq.simps lang_Seq [where r = octet_rx] lang_Seq_dot octet_lang
      append_Cons append_Nil
    by (rule arg_cong [where f = "opt_or opt"], rule iffI;
        elim exE conjE; hypsubst; intro exI conjI; (rule refl | assumption))
qed

section \<open>The ZIP code range\<close>

lemma ziprange_parse:
  "regex_parse (bs_for CHR ''~'' ''^90[2-5]~d~{2~}-~d{4}$'') =
   Some (rx_seq (Bol # [code_lit 57, code_lit 48, Cls False [(50, 53)], Cls False [(48, 57)], code_lit 123,
     code_lit 50, code_lit 125, code_lit 45, Rep (Cls False [(48, 57)]) 4 (Some 4) False] @ [Eol]))"
  by code_simp

text \<open>
  \<^verbatim>\<open>ziprange\<close> wants the braces of its quantifier in the value (they are escaped in the source): a
  value it accepts has the text \<^verbatim>\<open>{2}\<close>, so it rejects every ZIP code, a text of digits and dashes.
\<close>

theorem ziprange_rejects_zip_codes:
  assumes "list_all (\<lambda>c. is_digit c \<or> c = CHR ''-'') v"
  shows "ziprange False v = Verdict False"
proof -
  let ?rs = "[code_lit 57, code_lit 48, Cls False [(50, 53)], Cls False [(48, 57)], code_lit 123,
     code_lit 50, code_lit 125, code_lit 45, Rep (Cls False [(48, 57)]) 4 (Some 4) False]"
  have "list_all rx_plain ?rs" by (simp add: code_lit_def)
  note test = re_test_anchored [OF ziprange_parse this]
  have "v \<in> rx_lang False (rx_seq ?rs) \<Longrightarrow> \<exists>c \<in> set v. of_char c = (123 :: int)"
    unfolding rx_seq.simps code_lit_def lang_Seq_Cls in_cls_lit by auto
  moreover have "\<not> (\<exists>c \<in> set v. of_char c = (123 :: int))"
    using assms by (auto simp: list_all_iff is_digit_code)
  ultimately have "\<not> v \<in> rx_lang False (rx_seq ?rs)" by blast
  then show ?thesis by (simp only: ziprange_def opt_or_def test) simp
qed

theorem ziprange_rejects_zip_codes_witness:
  "list_all (\<lambda>c. is_digit c \<or> c = CHR ''-'') ''90210-1234'' \<and> ziprange False ''90210-1234'' = Verdict False"
proof -
  have "list_all (\<lambda>c. is_digit c \<or> c = CHR ''-'') ''90210-1234''" by code_simp
  then show ?thesis using ziprange_rejects_zip_codes by blast
qed

end
