(* ===== verification/Jv_Checksums.thy ===== *)
theory Jv_Checksums
  imports Jv_Patterns "HOL-Library.Word"
begin

text \<open>
  The methods of additional-methods.js that compute a check digit or a checksum: bank accounts,
  tax numbers, credit cards, IBAN, vehicle identification numbers. The loops of the source are
  recursive functions over the characters, with the variables they carry. A number that may be
  \<^verbatim>\<open>NaN\<close> is an \<open>int option\<close>, \<open>None\<close> being \<^verbatim>\<open>NaN\<close>; every comparison with it is false.
\<close>

unbundle bit_operations_syntax

section \<open>Numbers of one character\<close>

text \<open>\<^verbatim>\<open>parseInt(c, 10)\<close>, and \<^verbatim>\<open>Number(c)\<close> (white space is zero) for a string of one character.\<close>

definition digit_of :: "char \<Rightarrow> int" where
  "digit_of c = of_char c - 48"

definition parse_digit :: "char \<Rightarrow> int option" where
  "parse_digit c = (if is_digit c then Some (digit_of c) else None)"

definition number_of_char :: "char \<Rightarrow> int option" where
  "number_of_char c = (if is_digit c then Some (digit_of c) else if is_space c then Some 0 else None)"

fun nan_add :: "int option \<Rightarrow> int option \<Rightarrow> int option" where
  "nan_add (Some a) (Some b) = Some (a + b)"
| "nan_add _ _ = None"

fun nan_mult :: "int option \<Rightarrow> int \<Rightarrow> int option" where
  "nan_mult (Some a) k = Some (a * k)"
| "nan_mult None k = None"

text \<open>\<^verbatim>\<open>s.substring(i, i + 1)\<close> and \<^verbatim>\<open>s.charAt(i)\<close>: empty out of range.\<close>

definition char_at :: "string \<Rightarrow> nat \<Rightarrow> string" where
  "char_at s i = (if i < length s then [s ! i] else [])"

definition parse_at :: "string \<Rightarrow> nat \<Rightarrow> int option" where
  "parse_at s i = (if i < length s then parse_digit (s ! i) else None)"

section \<open>Dutch bank accounts\<close>

fun elf_sum :: "string \<Rightarrow> int option \<Rightarrow> int option" where
  "elf_sum [] sum0 = sum0"
| "elf_sum (d # ds) sum0 =
     elf_sum ds (nan_add sum0 (nan_mult (number_of_char d) (int (length (d # ds)))))"

definition bankaccountNL :: "bool \<Rightarrow> string \<Rightarrow> mres" where
  "bankaccountNL opt value =
     (if opt then Verdict True
      else if \<not> re_test False (bs ''^[0-9]{9}|([0-9]{2} ){3}[0-9]{3}$'') value then Verdict False
      else let account = re_replace False '' '' [] value in
        Verdict (case elf_sum account (Some 0) of None \<Rightarrow> False | Some sum0 \<Rightarrow> sum0 mod 11 = 0))"

definition bankorgiroaccountNL :: "bool \<Rightarrow> string \<Rightarrow> mres" where
  "bankorgiroaccountNL opt value =
     (if opt then Mismatch
      else if bankaccountNL opt value = Verdict True then Verdict True
      else giroaccountNL opt value)"

section \<open>Spanish tax numbers\<close>

text \<open>The loop over the seven digits of a CIF: \<open>i\<close> the position, the two sums.\<close>

fun cif_sums :: "nat \<Rightarrow> string \<Rightarrow> int \<Rightarrow> int \<Rightarrow> int \<times> int" where
  "cif_sums i [] even_sum odd_sum = (even_sum, odd_sum)"
| "cif_sums i (c # number) even_sum odd_sum =
     (let n = digit_of c in
      if i mod 2 = 0 then
        cif_sums (Suc i) number even_sum (odd_sum + (if n * 2 < 10 then n * 2 else n * 2 - 9))
      else cif_sums (Suc i) number (even_sum + n) odd_sum)"

definition cif_control :: "string \<Rightarrow> string \<times> string" where
  "cif_control number =
     (let (even_sum, odd_sum) = cif_sums 0 number 0 0;
          all_sum = even_sum + odd_sum;
          d = 10 - digit_of (last (int_to_string all_sum));
          control_digit = (if d > 9 then ''0'' else int_to_string d)
      in (control_digit, char_at ''JABCDEFGHI'' (nat (digit_of (hd control_digit)))))"

definition cifES :: "bool \<Rightarrow> string \<Rightarrow> mres" where
  "cifES opt value =
     (if opt then Verdict True
      else
        let letter = take 1 value; number = take 7 (drop 1 value); control = take 1 (drop 8 value)
        in if length value \<noteq> 9 \<or>
              \<not> re_test True (bs ''^([ABCDEFGHJKLMNPQRSUVW])(@d{7})([0-9A-J])$'') value
           then Verdict False
           else
             let (control_digit, control_letter) = cif_control number in
             if re_test False ''[ABEH]'' letter then Verdict (control = control_digit)
             else if re_test False ''[KPQS]'' letter then Verdict (control = control_letter)
             else Verdict (control = control_digit \<or> control = control_letter))"

definition nieES :: "bool \<Rightarrow> string \<Rightarrow> mres" where
  "nieES opt value =
     (if opt then Verdict True
      else
        let validChars = ''TRWAGMYFPDXBNJZSQVHLCKET'';
            letter = toUpperCase (drop (length value - 1) value);
            v = toUpperCase value
        in if length v > 10 \<or> length v < 9 \<or>
              \<not> re_test True ''^[MXYZ]{1}[0-9]{7,8}[TRWAGMYFPDXBNJZSQVHLCKET]{1}$'' v
           then Verdict False
           else
             let v' = (case v of
                         c # r \<Rightarrow> (if c = CHR ''X'' then CHR ''0'' else if c = CHR ''Y'' then CHR ''1''
                                  else if c = CHR ''Z'' then CHR ''2'' else c) # r
                       | [] \<Rightarrow> []);
                 number = (if length v' = 9 then take 8 v' else take 9 v');
                 \<comment> \<open>\<^verbatim>\<open>parseInt\<close> of a text that starts with a letter is \<^verbatim>\<open>NaN\<close>, and \<^verbatim>\<open>charAt(NaN)\<close> is \<^verbatim>\<open>charAt(0)\<close>\<close>
                 idx = (if list_all is_digit number then digits_val 0 number mod 23 else 0)
             in Verdict (char_at validChars idx = letter))"

definition nifES :: "bool \<Rightarrow> string \<Rightarrow> mres" where
  "nifES opt value =
     (if opt then Verdict True
      else
        let v = toUpperCase value; letters = ''TRWAGMYFPDXBNJZSQVHLCKE'' in
        if \<not> re_test False ''((^[A-Z]{1}[0-9]{7}[A-Z0-9]{1}$|^[T]{1}[A-Z0-9]{8}$)|^[0-9]{8}[A-Z]{1}$)'' v
        then Verdict False
        else if re_test False ''^[0-9]{8}[A-Z]{1}$'' v then
          Verdict (char_at letters (digits_val 0 (take 8 v) mod 23) = char_at v 8)
        else if re_test False ''^[KLM]{1}'' v then
          Verdict (char_at v 8 = char_at letters (digits_val 0 (take 7 (drop 1 v)) mod 23))
        else Verdict False)"

section \<open>Brazilian and Polish tax numbers\<close>

text \<open>\<^verbatim>\<open>sum\<close> over \<open>i = k, ...\<close> of the digit before position \<open>i\<close> times a falling weight.\<close>

fun cpf_sum :: "string \<Rightarrow> int \<Rightarrow> int option \<Rightarrow> int option" where
  "cpf_sum [] w sum0 = sum0"
| "cpf_sum (c # cs) w sum0 = cpf_sum cs (w - 1) (nan_add sum0 (nan_mult (parse_digit c) w))"

definition cpf_checkResult :: "int option \<Rightarrow> int option \<Rightarrow> bool" where
  "cpf_checkResult sum0 cn =
     (case sum0 of
        None \<Rightarrow> False
      | Some s \<Rightarrow>
          let result = (s * 10) mod 11;
              result' = (if result = 10 \<or> result = 11 then 0 else result)
          in cn = Some result')"

definition cpfBR :: "string \<Rightarrow> mres" where
  "cpfBR value0 =
     (let value = re_replace False (bs_for CHR ''Z'' ''([~!@#$%^&*()_+=`{}Z[Z]Z-|ZZ:;\\'<>,.Z/? ])+'') [] value0 in
      if length value \<noteq> 11 then Verdict False
      else
        let firstCN = parse_at value 9; secondCN = parse_at value 10 in
        if value \<in> set (map (replicate 11) ''0123456789'') then Verdict False
        else if cpf_checkResult (cpf_sum (take 9 value) 10 (Some 0)) firstCN
        then Verdict (cpf_checkResult (cpf_sum (take 10 value) 11 (Some 0)) secondCN)
        else Verdict False)"

fun weighted_sum :: "int list \<Rightarrow> string \<Rightarrow> int" where
  "weighted_sum (w # ws) (c # cs) = w * digit_of c + weighted_sum ws cs"
| "weighted_sum _ _ = 0"

definition nipPL :: "string \<Rightarrow> mres" where
  "nipPL value0 =
     (let value = re_replace False ''[^0-9]'' [] value0 in
      if length value \<noteq> 10 then Verdict False
      else
        let intSum = weighted_sum [6, 5, 7, 2, 3, 4, 5, 6, 7] value;
            int2 = intSum mod 11;
            intControlNr = (if int2 = 10 then 0 else int2)
        in Verdict (Some intControlNr = parse_at value 9))"

section \<open>Credit cards\<close>

text \<open>The loop from the last character to the first, on the reversed text.\<close>

fun luhn_loop :: "string \<Rightarrow> bool \<Rightarrow> int \<Rightarrow> int" where
  "luhn_loop [] bEven nCheck = nCheck"
| "luhn_loop (c # cs) bEven nCheck =
     (let nDigit = digit_of c;
          nDigit' = (if bEven then (if nDigit * 2 > 9 then nDigit * 2 - 9 else nDigit * 2) else nDigit)
      in luhn_loop cs (\<not> bEven) (nCheck + nDigit'))"

definition creditcard :: "bool \<Rightarrow> string \<Rightarrow> mres" where
  "creditcard opt value0 =
     (if opt then Mismatch
      else if re_test False (bs ''[^0-9 @-]+'') value0 then Verdict False
      else
        let value = re_replace False (bs ''@D'') [] value0 in
        if length value < 13 \<or> length value > 19 then Verdict False
        else Verdict (luhn_loop (rev value) False 0 mod 10 = 0))"

record card_types =
  mastercard :: bool
  visa       :: bool
  amex       :: bool
  dinersclub :: bool
  enroute    :: bool
  discover   :: bool
  jcb        :: bool
  unknown    :: bool
  all_types  :: bool

definition valid_types :: "card_types \<Rightarrow> 32 word" where
  "valid_types param =
     (let set_flag = (\<lambda>b m v. if b then v OR m else v);
          validTypes =
            set_flag (unknown param) 0x80 (set_flag (jcb param) 0x40 (set_flag (discover param) 0x20
              (set_flag (enroute param) 0x10 (set_flag (dinersclub param) 0x08 (set_flag (amex param) 0x04
                (set_flag (visa param) 0x02 (set_flag (mastercard param) 0x01 0)))))))
      in if all_types param
         then 0x01 OR 0x02 OR 0x04 OR 0x08 OR 0x10 OR 0x20 OR 0x40 OR 0x80 else validTypes)"

definition creditcardtypes :: "string \<Rightarrow> card_types \<Rightarrow> mres" where
  "creditcardtypes value0 param =
     (if re_test False (bs ''[^0-9@-]+'') value0 then Verdict False
      else
        let value = re_replace False (bs ''@D'') [] value0;
            validTypes = valid_types param;
            has = (\<lambda>m. validTypes AND m \<noteq> 0)
        in if has 0x01 \<and> re_test False ''^(5[12345])'' value then Verdict (length value = 16)
           else if has 0x02 \<and> re_test False ''^(4)'' value then Verdict (length value = 16)
           else if has 0x04 \<and> re_test False ''^(3[47])'' value then Verdict (length value = 15)
           else if has 0x08 \<and> re_test False ''^(3(0[012345]|[68]))'' value then Verdict (length value = 14)
           else if has 0x10 \<and> re_test False ''^(2(014|149))'' value then Verdict (length value = 15)
           else if has 0x20 \<and> re_test False ''^(6011)'' value then Verdict (length value = 16)
           else if has 0x40 \<and> re_test False ''^(3)'' value then Verdict (length value = 16)
           else if has 0x40 \<and> re_test False ''^(2131|1800)'' value then Verdict (length value = 15)
           else Verdict (has 0x80))"

section \<open>IBAN\<close>

definition bbancountrypatterns :: "(string \<times> string) list" where
  "bbancountrypatterns =
    [(''AL'', bs ''@d{8}[@dA-Z]{16}''),
     (''AD'', bs ''@d{8}[@dA-Z]{12}''),
     (''AT'', bs ''@d{16}''),
     (''AZ'', bs ''[@dA-Z]{4}@d{20}''),
     (''BE'', bs ''@d{12}''),
     (''BH'', bs ''[A-Z]{4}[@dA-Z]{14}''),
     (''BA'', bs ''@d{16}''),
     (''BR'', bs ''@d{23}[A-Z][@dA-Z]''),
     (''BG'', bs ''[A-Z]{4}@d{6}[@dA-Z]{8}''),
     (''CR'', bs ''@d{17}''),
     (''HR'', bs ''@d{17}''),
     (''CY'', bs ''@d{8}[@dA-Z]{16}''),
     (''CZ'', bs ''@d{20}''),
     (''DK'', bs ''@d{14}''),
     (''DO'', bs ''[A-Z]{4}@d{20}''),
     (''EE'', bs ''@d{16}''),
     (''FO'', bs ''@d{14}''),
     (''FI'', bs ''@d{14}''),
     (''FR'', bs ''@d{10}[@dA-Z]{11}@d{2}''),
     (''GE'', bs ''[@dA-Z]{2}@d{16}''),
     (''DE'', bs ''@d{18}''),
     (''GI'', bs ''[A-Z]{4}[@dA-Z]{15}''),
     (''GR'', bs ''@d{7}[@dA-Z]{16}''),
     (''GL'', bs ''@d{14}''),
     (''GT'', bs ''[@dA-Z]{4}[@dA-Z]{20}''),
     (''HU'', bs ''@d{24}''),
     (''IS'', bs ''@d{22}''),
     (''IE'', bs ''[@dA-Z]{4}@d{14}''),
     (''IL'', bs ''@d{19}''),
     (''IT'', bs ''[A-Z]@d{10}[@dA-Z]{12}''),
     (''KZ'', bs ''@d{3}[@dA-Z]{13}''),
     (''KW'', bs ''[A-Z]{4}[@dA-Z]{22}''),
     (''LV'', bs ''[A-Z]{4}[@dA-Z]{13}''),
     (''LB'', bs ''@d{4}[@dA-Z]{20}''),
     (''LI'', bs ''@d{5}[@dA-Z]{12}''),
     (''LT'', bs ''@d{16}''),
     (''LU'', bs ''@d{3}[@dA-Z]{13}''),
     (''MK'', bs ''@d{3}[@dA-Z]{10}@d{2}''),
     (''MT'', bs ''[A-Z]{4}@d{5}[@dA-Z]{18}''),
     (''MR'', bs ''@d{23}''),
     (''MU'', bs ''[A-Z]{4}@d{19}[A-Z]{3}''),
     (''MC'', bs ''@d{10}[@dA-Z]{11}@d{2}''),
     (''MD'', bs ''[@dA-Z]{2}@d{18}''),
     (''ME'', bs ''@d{18}''),
     (''NL'', bs ''[A-Z]{4}@d{10}''),
     (''NO'', bs ''@d{11}''),
     (''PK'', bs ''[@dA-Z]{4}@d{16}''),
     (''PS'', bs ''[@dA-Z]{4}@d{21}''),
     (''PL'', bs ''@d{24}''),
     (''PT'', bs ''@d{21}''),
     (''RO'', bs ''[A-Z]{4}[@dA-Z]{16}''),
     (''SM'', bs ''[A-Z]@d{10}[@dA-Z]{12}''),
     (''SA'', bs ''@d{2}[@dA-Z]{18}''),
     (''RS'', bs ''@d{18}''),
     (''SK'', bs ''@d{20}''),
     (''SI'', bs ''@d{15}''),
     (''ES'', bs ''@d{20}''),
     (''SE'', bs ''@d{20}''),
     (''CH'', bs ''@d{5}[@dA-Z]{12}''),
     (''TN'', bs ''@d{20}''),
     (''TR'', bs ''@d{5}[@dA-Z]{17}''),
     (''AE'', bs ''@d{3}@d{16}''),
     (''GB'', bs ''[A-Z]{4}@d{14}''),
     (''VG'', bs ''[@dA-Z]{4}@d{16}'')]"

text \<open>\<^verbatim>\<open>"0123456789ABC...Z".indexOf(charAt)\<close> as text: \<^verbatim>\<open>-1\<close> for any other character.\<close>

definition iban_code :: "char \<Rightarrow> string" where
  "iban_code c =
     (case index_of ''0123456789ABCDEFGHIJKLMNOPQRSTUVWXYZ'' [c] of
        None \<Rightarrow> ''-1'' | Some n \<Rightarrow> nat_digits n)"

fun iban_digits :: "string \<Rightarrow> bool \<Rightarrow> string \<Rightarrow> string" where
  "iban_digits [] leadingZeroes ibancheckdigits = ibancheckdigits"
| "iban_digits (c # cs) leadingZeroes ibancheckdigits =
     (let leadingZeroes' = (if c \<noteq> CHR ''0'' then False else leadingZeroes)
      in iban_digits cs leadingZeroes'
           (if \<not> leadingZeroes' then ibancheckdigits @ iban_code c else ibancheckdigits))"

text \<open>
  \<^verbatim>\<open>cRest\<close> is the empty text, a remainder or \<^verbatim>\<open>NaN\<close>; \<^verbatim>\<open>cOperator\<close> is its text and one character more.
\<close>

datatype iban_rest = NoRest | Rest nat | RestNaN

fun rest_text :: "iban_rest \<Rightarrow> string" where
  "rest_text NoRest = []"
| "rest_text (Rest n) = nat_digits n"
| "rest_text RestNaN = ''NaN''"

fun iban_mod :: "string \<Rightarrow> iban_rest \<Rightarrow> iban_rest" where
  "iban_mod [] cRest = cRest"
| "iban_mod (cChar # cs) cRest =
     (let cOperator = rest_text cRest @ [cChar]
      in iban_mod cs (if list_all is_digit cOperator then Rest (digits_val 0 cOperator mod 97) else RestNaN))"

definition iban :: "bool \<Rightarrow> string \<Rightarrow> mres" where
  "iban opt value =
     (if opt then Verdict True
      else
        let iban = toUpperCase (re_replace False '' '' [] value) in
        if length iban < 5 then Verdict False
        else
          let countrycode = take 2 iban;
              bbanpattern = obj_get bbancountrypatterns countrycode
          in if (case bbanpattern of
                   Some p \<Rightarrow> \<not> re_test False (bs ''^[A-Z]{2}@d{2}'' @ p @ ''$'') iban
                 | None \<Rightarrow> False)
             then Verdict False
             else
               let ibancheck = drop 4 iban @ take 4 iban;
                   ibancheckdigits = iban_digits ibancheck True []
               in Verdict (iban_mod ibancheckdigits NoRest = Rest 1))"

section \<open>Vehicle identification numbers\<close>

definition vin_LL :: string where
  "vin_LL = ''ABCDEFGHJKLMNPRSTUVWXYZ''"

definition vin_VL :: "int list" where
  "vin_VL = [1, 2, 3, 4, 5, 6, 7, 8, 1, 2, 3, 4, 5, 7, 9, 2, 3, 4, 5, 6, 7, 8, 9]"

definition vin_FL :: "int list" where
  "vin_FL = [8, 7, 6, 5, 4, 3, 2, 10, 0, 9, 8, 7, 6, 5, 4, 3, 2]"

text \<open>
  \<^verbatim>\<open>rs\<close> is a number until a character that is neither a number nor in \<open>vin_LL\<close> is added to it; from
  then on it is a text.
\<close>

datatype vin_sum = VSum int | VText string

fun vin_text :: "vin_sum \<Rightarrow> string" where
  "vin_text (VSum n) = int_to_string n"
| "vin_text (VText t) = t"

fun vin_add :: "vin_sum \<Rightarrow> int + char \<Rightarrow> vin_sum" where
  "vin_add (VSum n) (Inl d) = VSum (n + d)"
| "vin_add rs (Inl d) = VText (vin_text rs @ int_to_string d)"
| "vin_add rs (Inr c) = VText (vin_text rs @ [c])"

text \<open>\<^verbatim>\<open>isNaN(cdv)\<close> for the check character, undefined until position 8.\<close>

definition cdv_nan :: "char option \<Rightarrow> bool" where
  "cdv_nan cdv = (case cdv of None \<Rightarrow> True | Some c \<Rightarrow> number_of_char c = None)"

fun vin_loop :: "nat \<Rightarrow> string \<Rightarrow> vin_sum \<Rightarrow> char option \<Rightarrow> vin_sum \<times> char option" where
  "vin_loop i [] rs cdv = (rs, cdv)"
| "vin_loop i (c # cs) rs cdv0 =
     (let f = vin_FL ! i;
          cdv = (if i = 8 then Some c else cdv0)
      in case number_of_char c of
           Some d \<Rightarrow> vin_loop (Suc i) cs (vin_add rs (Inl (d * f))) cdv
         | None \<Rightarrow>
             (case index_of vin_LL (upper_char c) of
                Some n \<Rightarrow>
                  vin_loop (Suc i) cs (vin_add rs (Inl (vin_VL ! n * f)))
                    (if cdv_nan cdv \<and> n = 8 then Some (vin_LL ! n) else cdv)
              | None \<Rightarrow> vin_loop (Suc i) cs (vin_add rs (Inr c)) cdv))"

text \<open>
  \<^verbatim>\<open>cd = rs % 11\<close> is compared with the text \<^verbatim>\<open>cdv\<close> by \<^verbatim>\<open>===\<close>: only \<^verbatim>\<open>"X"\<close>, which stands for ten, can be
  equal to it. A text \<^verbatim>\<open>rs\<close> is \<^verbatim>\<open>NaN\<close> when it has a character no decimal or octal number has; the
  others are outside this model.
\<close>

definition vinUS :: "string \<Rightarrow> mres result" where
  "vinUS v =
     (if length v \<noteq> 17 then Inr (Verdict False)
      else
        (case vin_loop 0 v (VSum 0) None of
           (VSum rs, cdv) \<Rightarrow> Inr (Verdict (rs mod 11 = 10 \<and> cdv = Some CHR ''X''))
         | (VText t, cdv) \<Rightarrow>
             if list_ex (\<lambda>c. \<not> is_digit c \<and> c \<noteq> CHR ''.'' \<and> c \<noteq> CHR ''o'' \<and> c \<noteq> CHR ''O'') t
             then Inr (Verdict False) else Inl OutsideModel))"

section \<open>Check digits: errors in one digit\<close>

text \<open>
  What the methods with a weighted sum share. A text of digits, read from the right, has the sum of
  the terms \<open>t\<close> of its positions, taken modulo \<open>m\<close>. When no two digits have the same term at a
  position, a change of one digit changes the sum.
\<close>

fun pos_sum :: "(nat \<Rightarrow> int \<Rightarrow> int) \<Rightarrow> nat \<Rightarrow> int list \<Rightarrow> int" where
  "pos_sum t i [] = 0"
| "pos_sum t i (d # ds) = t i d + pos_sum t (Suc i) ds"

lemma pos_sum_append: "pos_sum t i (xs @ ys) = pos_sum t i xs + pos_sum t (i + length xs) ys"
  by (induction xs arbitrary: i) simp_all

lemma mod_add_cancel: "(x + r) mod m = (y + r) mod m \<Longrightarrow> x mod m = y mod (m :: int)"
  by (metis add_diff_cancel_right' mod_diff_cong)

locale check_digits =
  fixes t :: "nat \<Rightarrow> int \<Rightarrow> int" and m :: int and n :: nat
  assumes inj: "i < n \<Longrightarrow> d \<in> {0..9} \<Longrightarrow> e \<in> {0..9} \<Longrightarrow> t i d mod m = t i e mod m \<Longrightarrow> d = e"
begin

lemma single_error:
  assumes "k + length xs < n" "d \<in> {0..9}" "e \<in> {0..9}"
    and "pos_sum t k (xs @ d # ys) mod m = pos_sum t k (xs @ e # ys) mod m"
  shows "d = e"
proof -
  let ?r = "pos_sum t k xs + pos_sum t (Suc (k + length xs)) ys"
  have "(t (k + length xs) d + ?r) mod m = (t (k + length xs) e + ?r) mod m"
    using assms(4) by (simp add: pos_sum_append algebra_simps)
  then have "t (k + length xs) d mod m = t (k + length xs) e mod m"
    by (rule mod_add_cancel)
  then show ?thesis using inj assms(1-3) by blast
qed

end

text \<open>The terms of the Luhn sum of \<^verbatim>\<open>creditcard\<close>, and of the eleven test of \<^verbatim>\<open>bankaccountNL\<close>.\<close>

definition luhn_double :: "int \<Rightarrow> int" where
  "luhn_double d = (if d * 2 > 9 then d * 2 - 9 else d * 2)"

definition luhn_term :: "nat \<Rightarrow> int \<Rightarrow> int" where
  "luhn_term i d = (if odd i then luhn_double d else d)"

definition elf_term :: "nat \<Rightarrow> int \<Rightarrow> int" where
  "elf_term i d = d * (int i + 1)"

lemma digit_cases: "d \<in> {0..9 :: int} \<Longrightarrow> d \<in> set [0, 1, 2, 3, 4, 5, 6, 7, 8, 9]"
  by simp presburger

lemma luhn_inj_table:
  "\<forall>d \<in> set [0, 1, 2, 3, 4, 5, 6, 7, 8, 9]. \<forall>e \<in> set [0, 1, 2, 3, 4, 5, 6, 7, 8, 9 :: int].
     luhn_double d mod 10 = luhn_double e mod 10 \<longrightarrow> d = e"
  by code_simp

interpretation luhn: check_digits luhn_term 10 19
proof
  fix i :: nat and d e :: int
  assume de: "d \<in> {0..9}" "e \<in> {0..9}" and eq: "luhn_term i d mod 10 = luhn_term i e mod 10"
  show "d = e"
  proof (cases "odd i")
    case True
    then show ?thesis using eq luhn_inj_table [rule_format, OF digit_cases [OF de(1)] digit_cases [OF de(2)]]
      by (simp add: luhn_term_def)
  next
    case False
    then show ?thesis using eq de by (simp add: luhn_term_def)
  qed
qed

lemma elf_inj_table:
  "\<forall>k \<in> set [1, 2, 3, 4, 5, 6, 7, 8, 9, 10]. \<forall>d \<in> set [0, 1, 2, 3, 4, 5, 6, 7, 8, 9].
   \<forall>e \<in> set [0, 1, 2, 3, 4, 5, 6, 7, 8, 9 :: int]. (d * k) mod 11 = (e * k) mod 11 \<longrightarrow> d = e"
  by code_simp

lemma elf_inj_weight:
  assumes "k \<in> {1..10 :: int}" "d \<in> {0..9}" "e \<in> {0..9}" "(d * k) mod 11 = (e * k) mod 11"
  shows "d = e"
proof -
  have "k \<in> set [1, 2, 3, 4, 5, 6, 7, 8, 9, 10]" using assms(1) by simp presburger
  from elf_inj_table [rule_format, OF this digit_cases [OF assms(2)] digit_cases [OF assms(3)] assms(4)]
  show ?thesis .
qed

interpretation elf: check_digits elf_term 11 10
proof
  fix i :: nat and d e :: int
  assume "i < 10" "d \<in> {0..9}" "e \<in> {0..9}" "elf_term i d mod 11 = elf_term i e mod 11"
  then show "d = e" using elf_inj_weight [of "int i + 1" d e] by (simp add: elf_term_def)
qed

lemma is_digit_digit_of: "is_digit c \<longleftrightarrow> digit_of c \<in> {0..9}"
  by (auto simp: is_digit_code digit_of_def)

lemma digit_of_inject [simp]: "digit_of c = digit_of d \<longleftrightarrow> c = d"
  by (simp add: digit_of_def)

lemma luhn_loop_sum: "luhn_loop cs (odd k) a = a + pos_sum luhn_term k (map digit_of cs)"
proof (induction cs arbitrary: k a)
  case (Cons c cs)
  then show ?case using Cons.IH [of "Suc k"] by (simp add: Let_def luhn_term_def luhn_double_def)
qed simp

text \<open>What the two methods compute, without the loops and the regular expressions.\<close>

lemma code_bounds: "0 \<le> (of_char c :: int)" "(of_char c :: int) < 256"
  by (simp_all add: code_nat)

lemma code_space: "of_char c = (32 :: int) \<longleftrightarrow> c = CHR '' ''"
  using of_char_eq_iff [of c "CHR '' ''", where 'a = int] by simp

lemma code_dash: "of_char c = (45 :: int) \<longleftrightarrow> c = CHR ''-''"
  using of_char_eq_iff [of c "CHR ''-''", where 'a = int] by simp

lemma del_nondigits: "re_replace False (bs ''@D'') [] s = filter is_digit s"
proof -
  have "regex_parse (bs ''@D'') = Some (Cls False [(0, 47), (58, 65535)])" by code_simp
  moreover have "in_cls False False [(0, 47), (58, 65535)] c \<longleftrightarrow> \<not> is_digit c" for c
    using code_bounds [of c] by (auto simp: in_cls_def in_ranges_def is_digit_code Let_def)
  ultimately show ?thesis by (simp add: re_replace_def rx_delete_Cls)
qed

lemma del_spaces: "re_replace False '' '' [] s = filter (\<lambda>c. c \<noteq> CHR '' '') s"
proof -
  have "regex_parse '' '' = Some (Cls False [(32, 32)])" by code_simp
  then show ?thesis by (simp add: re_replace_def rx_delete_Cls in_cls_lit code_space)
qed

definition card_chars :: "string \<Rightarrow> bool" where
  "card_chars v \<longleftrightarrow> list_all (\<lambda>c. is_digit c \<or> c = CHR '' '' \<or> c = CHR ''-'') v"

lemma card_test: "re_test False (bs ''[^0-9 @-]+'') v \<longleftrightarrow> \<not> card_chars v"
proof -
  have "regex_parse (bs ''[^0-9 @-]+'') = Some (Rep (Cls True [(48, 57), (32, 32), (45, 45)]) 1 None False)"
    by code_simp
  moreover have "in_cls False True [(48, 57), (32, 32), (45, 45)] c \<longleftrightarrow>
      \<not> (is_digit c \<or> c = CHR '' '' \<or> c = CHR ''-'')" for c
    by (simp add: in_cls_def in_ranges_def is_digit_code Let_def code_space [symmetric] code_dash [symmetric])
      linarith
  ultimately show ?thesis
    by (simp only: re_test_def option.case rx_test_plus_Cls card_chars_def) (simp add: list_ex_iff list_all_iff)
qed

lemma creditcard_sum:
  "creditcard False v = Verdict (card_chars v \<and> 13 \<le> length (filter is_digit v) \<and>
     length (filter is_digit v) \<le> 19 \<and>
     pos_sum luhn_term 0 (rev (map digit_of (filter is_digit v))) mod 10 = 0)"
  using luhn_loop_sum [of "rev (filter is_digit v)" 0 0]
  by (auto simp: creditcard_def card_test del_nondigits Let_def rev_map)

lemma elf_sum_digits:
  "list_all is_digit ds \<Longrightarrow>
   elf_sum ds (Some a) = Some (a + pos_sum elf_term 0 (rev (map digit_of ds)))"
proof (induction ds arbitrary: a)
  case (Cons d ds)
  then show ?case by (simp add: number_of_char_def pos_sum_append elf_term_def algebra_simps)
qed simp

lemma card_swap_sum:
  assumes "c \<in> {0..9}" "d \<in> {0..9}" "c \<noteq> d" "\<not> (c = 0 \<and> d = 9)" "\<not> (c = 9 \<and> d = 0)"
  shows "(luhn_term i c + luhn_term (Suc i) d) mod 10 \<noteq> (luhn_term i d + luhn_term (Suc i) c) mod 10"
proof -
  have "\<forall>d \<in> set [0, 1, 2, 3, 4, 5, 6, 7, 8, 9]. \<forall>e \<in> set [0, 1, 2, 3, 4, 5, 6, 7, 8, 9 :: int].
      d \<noteq> e \<longrightarrow> \<not> (d = 0 \<and> e = 9) \<longrightarrow> \<not> (d = 9 \<and> e = 0) \<longrightarrow>
      (luhn_double d + e) mod 10 \<noteq> (luhn_double e + d) mod 10"
    by code_simp
  from this [rule_format, OF digit_cases digit_cases, OF assms]
  have "(luhn_double c + d) mod 10 \<noteq> (luhn_double d + c) mod 10" .
  then show ?thesis by (cases "odd i") (auto simp: luhn_term_def add.commute)
qed

lemma digit_of_ends: "digit_of c = 0 \<longleftrightarrow> c = CHR ''0''" "digit_of c = 9 \<longleftrightarrow> c = CHR ''9''"
proof -
  have "digit_of CHR ''0'' = 0" "digit_of CHR ''9'' = 9" by (simp_all add: digit_of_def)
  then show "digit_of c = 0 \<longleftrightarrow> c = CHR ''0''" "digit_of c = 9 \<longleftrightarrow> c = CHR ''9''"
    by (metis digit_of_inject)+
qed

lemma filter_rev_split:
  "rev (map f (filter P (a @ c # b))) =
     rev (map f (filter P b)) @ (if P c then [f c] else []) @ rev (map f (filter P a))"
  by simp

lemma creditcard_single_error:
  assumes "is_digit c" "is_digit d" "c \<noteq> d" "creditcard False (a @ c # b) = Verdict True"
  shows "creditcard False (a @ d # b) = Verdict False"
proof (rule ccontr)
  assume "creditcard False (a @ d # b) \<noteq> Verdict False"
  then have "pos_sum luhn_term 0 (rev (map digit_of (filter is_digit (a @ d # b)))) mod 10 = 0"
    by (simp add: creditcard_sum)
  moreover have "pos_sum luhn_term 0 (rev (map digit_of (filter is_digit (a @ c # b)))) mod 10 = 0"
    and len: "length (filter is_digit (a @ c # b)) \<le> 19"
    using assms(4) by (simp_all add: creditcard_sum)
  ultimately have "pos_sum luhn_term 0 (rev (map digit_of (filter is_digit b)) @ digit_of c # rev (map digit_of (filter is_digit a))) mod 10 =
      pos_sum luhn_term 0 (rev (map digit_of (filter is_digit b)) @ digit_of d # rev (map digit_of (filter is_digit a))) mod 10"
    unfolding filter_rev_split using assms(1,2) by simp
  moreover have "0 + length (rev (map digit_of (filter is_digit b))) < 19" using len assms(1) by simp
  ultimately have "digit_of c = digit_of d"
    using luhn.single_error assms(1,2) unfolding is_digit_digit_of by blast
  then show False using assms(3) by simp
qed

lemma creditcard_swap:
  assumes "is_digit c" "is_digit d" "c \<noteq> d" "\<not> (c = CHR ''0'' \<and> d = CHR ''9'')" "\<not> (c = CHR ''9'' \<and> d = CHR ''0'')"
    "creditcard False (a @ c # d # b) = Verdict True"
  shows "creditcard False (a @ d # c # b) = Verdict False"
proof (rule ccontr)
  let ?b = "rev (map digit_of (filter is_digit b))" and ?a = "rev (map digit_of (filter is_digit a))"
  let ?i = "length ?b"
  let ?r = "pos_sum luhn_term 0 ?b + pos_sum luhn_term (Suc (Suc ?i)) ?a"
  assume "creditcard False (a @ d # c # b) \<noteq> Verdict False"
  then have "pos_sum luhn_term 0 (?b @ digit_of c # digit_of d # ?a) mod 10 = 0"
    using assms(1,2) by (simp add: creditcard_sum)
  moreover have "pos_sum luhn_term 0 (?b @ digit_of d # digit_of c # ?a) mod 10 = 0"
    using assms(1,2,6) by (simp add: creditcard_sum)
  ultimately have "(luhn_term ?i (digit_of c) + luhn_term (Suc ?i) (digit_of d) + ?r) mod 10 =
      (luhn_term ?i (digit_of d) + luhn_term (Suc ?i) (digit_of c) + ?r) mod 10"
    by (simp add: pos_sum_append algebra_simps)
  then have "(luhn_term ?i (digit_of c) + luhn_term (Suc ?i) (digit_of d)) mod 10 =
      (luhn_term ?i (digit_of d) + luhn_term (Suc ?i) (digit_of c)) mod 10"
    by (rule mod_add_cancel)
  moreover have "\<not> (digit_of c = 0 \<and> digit_of d = 9)" "\<not> (digit_of c = 9 \<and> digit_of d = 0)"
    using assms(4,5) by (simp_all add: digit_of_ends)
  ultimately show False
    using card_swap_sum [of "digit_of c" "digit_of d" ?i] assms(1-3) by (simp add: is_digit_digit_of)
qed

lemma elf_test:
  assumes "list_all is_digit v" "length v = 9"
  shows "re_test False (bs ''^[0-9]{9}|([0-9]{2} ){3}[0-9]{3}$'') v"
proof -
  let ?nine = "Rep (Cls False [(48, 57)]) 9 (Some 9) False"
  let ?rest = "Seq (Rep (Seq (Rep (Cls False [(48, 57)]) 2 (Some 2) False) (Cls False [(32, 32)])) 3 (Some 3) False)
      (Seq (Rep (Cls False [(48, 57)]) 3 (Some 3) False) Eol)"
  have "regex_parse (bs ''^[0-9]{9}|([0-9]{2} ){3}[0-9]{3}$'') = Some (Alt (Seq Bol ?nine) ?rest)"
    by code_simp
  moreover have "v \<in> rx_lang False ?nine" using assms unfolding lang_Rep_Cls by (simp add: list_all_iff)
  then have "(rev v, []) \<in> set (rx_run ?nine False ([], v))"
    using runs_langD [OF rx_run_lang [of ?nine False]] by (fastforce simp: moves_def simp del: rx_run.simps)
  then have "rx_run (Alt (Seq Bol ?nine) ?rest) False (rev [], v) \<noteq> []"
    unfolding rx_run.simps(7,8) by (auto simp del: rx_run.simps(9))
  ultimately show ?thesis unfolding re_test_def rx_test_iff by fastforce
qed

lemma bankaccountNL_sum:
  assumes "list_all is_digit v" "length v = 9"
  shows "bankaccountNL False v = Verdict (pos_sum elf_term 0 (rev (map digit_of v)) mod 11 = 0)"
proof -
  have "filter (\<lambda>c. c \<noteq> CHR '' '') v = v"
    using assms(1) by (induction v) (auto simp: is_digit_def)
  then show ?thesis
    using elf_sum_digits [OF assms(1), of 0] elf_test [OF assms]
    by (simp add: bankaccountNL_def del_spaces Let_def)
qed

lemma bankaccountNL_single_error:
  assumes "list_all is_digit (a @ c # b)" "length (a @ c # b) = 9" "is_digit d" "c \<noteq> d"
    "bankaccountNL False (a @ c # b) = Verdict True"
  shows "bankaccountNL False (a @ d # b) = Verdict False"
proof (rule ccontr)
  assume "bankaccountNL False (a @ d # b) \<noteq> Verdict False"
  moreover have "list_all is_digit (a @ d # b)" "length (a @ d # b) = 9" using assms by simp_all
  ultimately have "pos_sum elf_term 0 (rev (map digit_of (a @ d # b))) mod 11 = 0"
    using bankaccountNL_sum by auto
  moreover have "pos_sum elf_term 0 (rev (map digit_of (a @ c # b))) mod 11 = 0"
    using assms bankaccountNL_sum by auto
  ultimately have "pos_sum elf_term 0 (rev (map digit_of b) @ digit_of c # rev (map digit_of a)) mod 11 =
      pos_sum elf_term 0 (rev (map digit_of b) @ digit_of d # rev (map digit_of a)) mod 11"
    by simp
  moreover have "0 + length (rev (map digit_of b)) < 10" using assms(2) by simp
  moreover have "digit_of c \<in> {0..9}" "digit_of d \<in> {0..9}"
    using assms(1,3) by (auto simp: is_digit_digit_of)
  ultimately have "digit_of c = digit_of d" by (metis elf.single_error)
  then show False using assms(4) by simp
qed

text \<open>
  C18: The check digits catch typing errors: when a card number is accepted, the text with one digit
  replaced by another is rejected, and so is the text with two neighbouring digits exchanged, unless
  these are 0 and 9; a Dutch bank account of nine digits with one digit replaced is rejected too.
\<close>

theorem digit_errors_detected:
  "(is_digit c \<and> is_digit d \<and> c \<noteq> d \<and> creditcard False (a @ c # b) = Verdict True \<longrightarrow>
      creditcard False (a @ d # b) = Verdict False) \<and>
   (is_digit c \<and> is_digit d \<and> c \<noteq> d \<and>
      \<not> (c = CHR ''0'' \<and> d = CHR ''9'') \<and> \<not> (c = CHR ''9'' \<and> d = CHR ''0'') \<and>
      creditcard False (a @ c # d # b) = Verdict True \<longrightarrow>
      creditcard False (a @ d # c # b) = Verdict False) \<and>
   (list_all is_digit (a @ c # b) \<and> length (a @ c # b) = 9 \<and> is_digit d \<and> c \<noteq> d \<and>
      bankaccountNL False (a @ c # b) = Verdict True \<longrightarrow>
      bankaccountNL False (a @ d # b) = Verdict False)"
  using creditcard_single_error creditcard_swap bankaccountNL_single_error by blast

theorem digit_errors_detected_witness:
  "creditcard False ''4012888888881881'' = Verdict True \<and>
   creditcard False ''4012888888881871'' = Verdict False \<and>
   creditcard False ''4012888888888181'' = Verdict False"
proof -
  have ok: "creditcard False ''4012888888881881'' = Verdict True" by code_simp
  have d: "is_digit CHR ''8''" "is_digit CHR ''7''" "is_digit CHR ''1''" by code_simp+
  have "creditcard False (''40128888888818'' @ CHR ''7'' # ''1'') = Verdict False"
    using digit_errors_detected [of "CHR ''8''" "CHR ''7''" "''40128888888818''" "''1''"] ok d by simp
  moreover have "creditcard False (''401288888888'' @ CHR ''8'' # CHR ''1'' # ''81'') = Verdict False"
    using digit_errors_detected [of "CHR ''1''" "CHR ''8''" "''401288888888''" "''81''"] ok d by simp
  ultimately show ?thesis using ok by simp
qed

section \<open>IBAN: the remainder of the whole number\<close>

text \<open>
  The number an account stands for: a digit is one decimal digit, a letter the two decimal digits
  of its place (A is 10). The code computes its remainder modulo 97 digit by digit.
\<close>

definition iban_index :: "char \<Rightarrow> nat option" where
  "iban_index c = index_of ''0123456789ABCDEFGHIJKLMNOPQRSTUVWXYZ'' [c]"

fun iban_number :: "nat \<Rightarrow> string \<Rightarrow> nat" where
  "iban_number a [] = a"
| "iban_number a (c # s) =
     (case iban_index c of
        None \<Rightarrow> iban_number a s
      | Some n \<Rightarrow> iban_number (a * (if n < 10 then 10 else 100) + n) s)"

lemma index_of_bound: "index_of s [c] = Some n \<Longrightarrow> n < length s"
  by (induction s arbitrary: n) (auto split: if_splits)

lemma digits_val_append': "digits_val a (s @ t) = digits_val (digits_val a s) t"
  by (induction a s rule: digits_val.induct) simp_all

lemma digits_val_acc: "digits_val a s = a * 10 ^ length s + digits_val 0 s"
proof (induction s arbitrary: a)
  case (Cons c s)
  let ?d = "of_char c - 48 :: nat"
  have "digits_val a (c # s) = (10 * a + ?d) * 10 ^ length s + digits_val 0 s"
    using Cons.IH [of "10 * a + ?d"] by simp
  moreover have "digits_val 0 (c # s) = ?d * 10 ^ length s + digits_val 0 s"
    using Cons.IH [of ?d] by simp
  ultimately show ?case by (simp add: distrib_right)
qed simp

lemma digits_val_mod: "digits_val (a mod m) s mod m = digits_val a s mod m"
proof -
  have "(a mod m * 10 ^ length s + digits_val 0 s) mod m = (a * 10 ^ length s + digits_val 0 s) mod m"
    by (simp add: mod_add_left_eq [symmetric, of "_ * _"] mod_mult_left_eq)
  then show ?thesis using digits_val_acc [of "a mod m" s] digits_val_acc [of a s] by simp
qed

lemma nat_digits_small: "n < 100 \<Longrightarrow> length (nat_digits n) = (if n < 10 then 1 else 2)"
  by (subst nat_digits.simps, subst nat_digits.simps) (simp, linarith)

lemma iban_code_digits:
  assumes "iban_index c = Some n"
  shows "iban_code c = nat_digits n" "list_all is_digit (iban_code c)"
    "digits_val a (iban_code c) = a * (if n < 10 then 10 else 100) + n"
proof -
  show code: "iban_code c = nat_digits n" using assms by (simp add: iban_code_def iban_index_def)
  show "list_all is_digit (iban_code c)" using nat_digits_digits by (simp add: code list_all_iff)
  have "n < 100" using index_of_bound [of _ c n] assms unfolding iban_index_def by fastforce
  then show "digits_val a (iban_code c) = a * (if n < 10 then 10 else 100) + n"
    unfolding code digits_val_acc [of a] digits_val_nat_digits nat_digits_small [OF \<open>n < 100\<close>] by simp
qed

lemma iban_number_digits:
  "list_all (\<lambda>c. iban_index c \<noteq> None) s \<Longrightarrow>
   list_all is_digit (concat (map iban_code s)) \<and>
   digits_val a (concat (map iban_code s)) = iban_number a s"
proof (induction s arbitrary: a)
  case (Cons c s)
  then obtain n where "iban_index c = Some n" by auto
  with Cons iban_code_digits(2,3) [OF this] show ?case by (simp add: digits_val_append')
qed simp

lemma iban_digits_False: "iban_digits s False acc = acc @ concat (map iban_code s)"
  by (induction s arbitrary: acc) (simp_all add: Let_def)

lemma iban_digits_True:
  "iban_digits s True [] = concat (map iban_code (dropWhile (\<lambda>c. c = CHR ''0'') s))"
  by (induction s) (simp_all add: Let_def iban_digits_False)

lemma iban_mod_NaN: "iban_mod s RestNaN = RestNaN"
  by (induction s) (simp_all add: Let_def is_digit_def)

lemma iban_mod_dash: "CHR ''-'' \<in> set s \<Longrightarrow> iban_mod s r = RestNaN"
proof (induction s arbitrary: r)
  case (Cons c s)
  then show ?case by (cases "c = CHR ''-''") (auto simp: Let_def is_digit_def iban_mod_NaN)
qed simp

fun rest_value :: "iban_rest \<Rightarrow> nat" where
  "rest_value (Rest n) = n"
| "rest_value _ = 0"

lemma rest_text_digits:
  "r \<noteq> RestNaN \<Longrightarrow> list_all is_digit (rest_text r) \<and> digits_val 0 (rest_text r) = rest_value r"
  using nat_digits_digits by (cases r) (auto simp: digits_val_nat_digits list_all_iff)

lemma iban_mod_digits:
  "list_all is_digit s \<Longrightarrow> s \<noteq> [] \<Longrightarrow> r \<noteq> RestNaN \<Longrightarrow>
   iban_mod s r = Rest (digits_val (rest_value r) s mod 97)"
proof (induction s arbitrary: r)
  case (Cons c s)
  let ?n = "digits_val 0 (rest_text r @ [c])"
  have step: "iban_mod (c # s) r = iban_mod s (Rest (?n mod 97))"
    using rest_text_digits [OF Cons.prems(3)] Cons.prems(1) by (simp add: Let_def)
  have n: "?n = 10 * rest_value r + (of_char c - 48)"
    using rest_text_digits [OF Cons.prems(3)] by (simp add: digits_val_append)
  show ?case
  proof (cases "s = []")
    case True
    then show ?thesis unfolding step by (simp add: n)
  next
    case False
    then have "iban_mod s (Rest (?n mod 97)) = Rest (digits_val (?n mod 97) s mod 97)"
      using Cons.IH [of "Rest (?n mod 97)"] Cons.prems(1) by simp
    then show ?thesis unfolding step digits_val_mod by (simp add: n)
  qed
qed simp

lemma iban_number_zeros:
  "iban_number 0 (dropWhile (\<lambda>c. c = CHR ''0'') s) = iban_number 0 s"
proof (induction s)
  case (Cons c s)
  have "iban_index CHR ''0'' = Some 0" by code_simp
  with Cons show ?case by simp
qed simp

lemma iban_check:
  "iban_mod (iban_digits s True []) NoRest = Rest 1 \<longleftrightarrow>
   list_all (\<lambda>c. iban_index c \<noteq> None) s \<and> iban_number 0 s mod 97 = 1"
proof (cases "list_all (\<lambda>c. iban_index c \<noteq> None) s")
  case True
  let ?t = "dropWhile (\<lambda>c. c = CHR ''0'') s"
  let ?ds = "concat (map iban_code ?t)"
  have "list_all (\<lambda>c. iban_index c \<noteq> None) ?t"
    using True by (auto simp: list_all_iff dest: set_dropWhileD)
  then have ds: "list_all is_digit ?ds" "digits_val 0 ?ds = iban_number 0 s"
    using iban_number_digits [of ?t 0] by (simp_all add: iban_number_zeros)
  show ?thesis
  proof (cases "?ds = []")
    case True
    then have "iban_number 0 s = 0" using ds(2) by (simp only: digits_val.simps)
    then show ?thesis unfolding iban_digits_True True by simp
  next
    case False
    with iban_mod_digits [OF ds(1) False, of NoRest] ds(2) \<open>list_all (\<lambda>c. iban_index c \<noteq> None) s\<close>
    show ?thesis by (simp add: iban_digits_True)
  qed
next
  case False
  then obtain c where c: "c \<in> set s" "iban_index c = None" by (auto simp: list_all_iff)
  have "iban_index CHR ''0'' = Some 0" by code_simp
  with c have "c \<in> set (dropWhile (\<lambda>c. c = CHR ''0'') s)" by (induction s) auto
  moreover have "CHR ''-'' \<in> set (iban_code c)" using c(2) by (simp add: iban_code_def iban_index_def)
  ultimately have "CHR ''-'' \<in> set (iban_digits s True [])" unfolding iban_digits_True by auto
  with False show ?thesis using iban_mod_dash by auto
qed

text \<open>
  C16: \<^verbatim>\<open>iban\<close> accepts a value exactly when, without blanks and in upper case, it has five characters or
  more, has the format of its country when that is known, consists of digits and letters, and the
  number it stands for, with the first four characters moved to the end, has the remainder 1 modulo
  97. The loops that drop leading zeros and divide digit by digit compute that remainder for an
  account of any length, without large numbers.
\<close>

theorem iban_exact:
  "iban opt v =
     (if opt then Verdict True
      else let w = toUpperCase (filter (\<lambda>c. c \<noteq> CHR '' '') v) in
        Verdict (5 \<le> length w \<and>
          (case obj_get bbancountrypatterns (take 2 w) of
             Some p \<Rightarrow> re_test False (bs ''^[A-Z]{2}@d{2}'' @ p @ ''$'') w
           | None \<Rightarrow> True) \<and>
          list_all (\<lambda>c. iban_index c \<noteq> None) w \<and>
          iban_number 0 (drop 4 w @ take 4 w) mod 97 = 1))"
proof -
  have "list_all (\<lambda>c. iban_index c \<noteq> None) (drop 4 w @ take 4 w) \<longleftrightarrow>
      list_all (\<lambda>c. iban_index c \<noteq> None) w" for w
    by (metis append_take_drop_id list_all_append)
  then show ?thesis
    unfolding iban_def iban_check del_spaces Let_def
    by (simp del: append.simps bs_for_def split: option.split)
qed

section \<open>Vehicle identification numbers: the check character\<close>

text \<open>The characters of a number (no I, O, Q), their values and the weighted sum of the standard.\<close>

definition vin_char :: "char \<Rightarrow> bool" where
  "vin_char c \<longleftrightarrow> is_digit c \<or> c \<in> set vin_LL"

definition vin_val :: "char \<Rightarrow> int" where
  "vin_val c = (if is_digit c then digit_of c
     else (case index_of vin_LL [c] of Some n \<Rightarrow> vin_VL ! n | None \<Rightarrow> 0))"

fun vin_total :: "nat \<Rightarrow> string \<Rightarrow> int" where
  "vin_total i [] = 0"
| "vin_total i (c # cs) = vin_val c * vin_FL ! i + vin_total (Suc i) cs"

lemma vin_letter_table:
  "\<forall>c \<in> set vin_LL. number_of_char c = None \<and> upper_char c = [c] \<and>
     (index_of vin_LL [c] = Some 8 \<longleftrightarrow> c = CHR ''J'')"
  by code_simp

lemma vin_letter:
  assumes "c \<in> set vin_LL"
  shows "number_of_char c = None" "upper_char c = [c]"
    "\<exists>n. index_of vin_LL [c] = Some n \<and> (n = 8 \<longleftrightarrow> c = CHR ''J'')"
  using assms vin_letter_table index_of_single_None [of vin_LL c] by auto

lemma vin_LL_8: "vin_LL ! 8 = CHR ''J''"
  by code_simp

text \<open>The check character the loop ends with.\<close>

fun vin_cdv :: "nat \<Rightarrow> string \<Rightarrow> char option \<Rightarrow> char option" where
  "vin_cdv i [] cdv = cdv"
| "vin_cdv i (c # cs) cdv0 =
     (let cdv = (if i = 8 then Some c else cdv0)
      in vin_cdv (Suc i) cs (if cdv_nan cdv \<and> c = CHR ''J'' then Some CHR ''J'' else cdv))"

lemma vin_loop_sum:
  "list_all vin_char cs \<Longrightarrow>
   vin_loop i cs (VSum a) cdv = (VSum (a + vin_total i cs), vin_cdv i cs cdv)"
proof (induction cs arbitrary: i a cdv)
  case (Cons c cs)
  show ?case
  proof (cases "is_digit c")
    case True
    then have "c \<noteq> CHR ''J''" by (auto simp: is_digit_def)
    with True Cons show ?thesis
      by (simp add: number_of_char_def vin_val_def Let_def add.assoc del: vin_add.simps(2,3))
  next
    case False
    then have c: "c \<in> set vin_LL" using Cons.prems by (simp add: vin_char_def)
    then obtain n where n: "index_of vin_LL [c] = Some n" "n = 8 \<longleftrightarrow> c = CHR ''J''"
      using vin_letter(3) by blast
    then have "vin_LL ! n = CHR ''J''" if "n = 8" using that vin_LL_8 by simp
    with False Cons vin_letter [OF c] n show ?thesis
      by (auto simp: vin_val_def Let_def add.assoc)
  qed
qed simp

lemma vin_cdv_after: "8 < i \<Longrightarrow> cdv_nan cdv \<Longrightarrow>
    vin_cdv i cs cdv = (if CHR ''J'' \<in> set cs then Some CHR ''J'' else cdv)"
proof (induction cs arbitrary: i cdv)
  case (Cons c cs)
  have "cdv_nan (Some CHR ''J'')" by code_simp
  with Cons show ?case by (auto simp: Let_def)
qed simp

lemma vin_cdv_after_number: "8 < i \<Longrightarrow> \<not> cdv_nan cdv \<Longrightarrow> vin_cdv i cs cdv = cdv"
  by (induction cs arbitrary: i cdv) (auto simp: Let_def)

lemma vin_cdv_X:
  "i \<le> 8 \<Longrightarrow> i + length cs = 17 \<Longrightarrow>
   vin_cdv i cs cdv = Some CHR ''X'' \<longleftrightarrow> cs ! (8 - i) = CHR ''X'' \<and> CHR ''J'' \<notin> set (drop (9 - i) cs)"
proof (induction cs arbitrary: i cdv)
  case (Cons c cs)
  show ?case
  proof (cases "i = 8")
    case True
    have nan: "cdv_nan (Some CHR ''J'')" "cdv_nan (Some CHR ''X'')" by code_simp+
    have ends: "vin_cdv 9 cs cdv' = cdv' \<or> vin_cdv 9 cs cdv' = Some CHR ''J''" for cdv'
      using vin_cdv_after [of 9 cdv' cs] vin_cdv_after_number [of 9 cdv' cs]
      by (cases "cdv_nan cdv'") (auto split: if_splits)
    show ?thesis
    proof (cases "c = CHR ''X''")
      case X: True
      then show ?thesis using True nan vin_cdv_after [of 9 "Some CHR ''X''" cs] by (simp add: Let_def)
    next
      case False
      then show ?thesis using True ends [of "Some c"] ends [of "Some CHR ''J''"] by (auto simp: Let_def)
    qed
  next
    case False
    then have "8 - i = Suc (8 - Suc i)" "9 - i = Suc (9 - Suc i)" using Cons.prems(1) by auto
    with False Cons show ?thesis by (simp add: Let_def)
  qed
qed simp

text \<open>
  C39: On a number of seventeen digits and letters other than I, O and Q, \<^verbatim>\<open>vinUS\<close> is true exactly when
  the weighted sum is 10 modulo 11, the check character is X and no J follows it. So it rejects every
  number whose check character is a digit, such as the standard's test number of seventeen ones,
  whose sum is 1 modulo 11 as its check digit says: the code compares the number \<^verbatim>\<open>cd\<close> with the text
  \<^verbatim>\<open>cdv\<close> by \<^verbatim>\<open>===\<close>.
\<close>

theorem vinUS_only_check_X:
  assumes "list_all vin_char v" "length v = 17"
  shows "vinUS v = Inr (Verdict (vin_total 0 v mod 11 = 10 \<and> v ! 8 = CHR ''X'' \<and> CHR ''J'' \<notin> set (drop 9 v)))"
  using assms vin_loop_sum [OF assms(1), of 0 0 None] vin_cdv_X [of 0 v None]
  by (simp add: vinUS_def)

theorem vinUS_only_check_X_witness:
  "list_all vin_char ''11111111111111111'' \<and> vin_total 0 ''11111111111111111'' mod 11 = 1 \<and>
   vinUS ''11111111111111111'' = Inr (Verdict False) \<and>
   vinUS ''1M8GDM9AXKP042788'' = Inr (Verdict True)"
proof -
  have "list_all vin_char ''11111111111111111''" "vin_total 0 ''11111111111111111'' mod 11 = 1"
    "list_all vin_char ''1M8GDM9AXKP042788''" "vin_total 0 ''1M8GDM9AXKP042788'' mod 11 = 10"
    by code_simp+
  then show ?thesis
    using vinUS_only_check_X [of "''11111111111111111''"] vinUS_only_check_X [of "''1M8GDM9AXKP042788''"]
    by simp
qed

end
