(* ===== verification/Jv_Calendar.thy ===== *)
theory Jv_Calendar
  imports Jv_Patterns
begin

text \<open>
  The method \<^verbatim>\<open>dateITA\<close> of additional-methods.js and the part of the \<^verbatim>\<open>Date\<close> object it uses:
  \<^verbatim>\<open>Date.UTC(year, month, day)\<close> as the number of a day counted from 1970-01-01 (the time of day it
  passes, noon, does not change the day) and the getters \<^verbatim>\<open>getUTCFullYear\<close>, \<^verbatim>\<open>getUTCMonth\<close>,
  \<^verbatim>\<open>getUTCDate\<close>, as the language definition gives them. The year of a day is searched downwards from
  an upper bound; the search is shown to end at the right year.
\<close>

section \<open>Days and dates\<close>

definition leap_year :: "int \<Rightarrow> bool" where
  "leap_year y \<longleftrightarrow> y mod 4 = 0 \<and> (y mod 100 \<noteq> 0 \<or> y mod 400 = 0)"

definition day_from_year :: "int \<Rightarrow> int" where
  "day_from_year y = 365 * (y - 1970) + (y - 1969) div 4 - (y - 1901) div 100 + (y - 1601) div 400"

definition month_starts :: "bool \<Rightarrow> int list" where
  "month_starts leap =
     (let l = (if leap then 1 else 0)
      in [0, 31, 59 + l, 90 + l, 120 + l, 151 + l, 181 + l, 212 + l, 243 + l, 273 + l, 304 + l, 334 + l])"

definition make_day :: "int \<Rightarrow> int \<Rightarrow> int \<Rightarrow> int" where
  "make_day year month date =
     (let ym = year + month div 12; mn = month mod 12
      in day_from_year ym + month_starts (leap_year ym) ! nat mn + date - 1)"

text \<open>\<^verbatim>\<open>Date.UTC\<close> takes the years 0 to 99 for 1900 to 1999.\<close>

definition Date_UTC :: "int \<Rightarrow> int \<Rightarrow> int \<Rightarrow> int" where
  "Date_UTC year month date =
     make_day (if 0 \<le> year \<and> year \<le> 99 then 1900 + year else year) month date"

lemma div_step: "0 < k \<Longrightarrow> (x + 1) div k = x div k + (if (x + 1) mod k = 0 then 1 else 0)" for x k :: int
proof (cases "x mod k + 1 = k")
  case True
  assume "0 < k"
  have "x + 1 = k * (x div k) + k" using True mult_div_mod_eq [of k x] by linarith
  then have "x + 1 = k * (x div k + 1) + 0" by (simp add: distrib_left)
  from int_div_pos_eq [OF this] int_mod_pos_eq [OF this] \<open>0 < k\<close> show ?thesis by simp
next
  case False
  assume "0 < k"
  have "x + 1 = k * (x div k) + (x mod k + 1)" using mult_div_mod_eq [of k x] by simp
  moreover have "0 \<le> x mod k + 1" "x mod k + 1 < k"
    using False pos_mod_bound [OF \<open>0 < k\<close>, of x] pos_mod_sign [OF \<open>0 < k\<close>, of x] by linarith+
  ultimately have "(x + 1) div k = x div k" "(x + 1) mod k = x mod k + 1"
    by (rule int_div_pos_eq, rule int_mod_pos_eq)
  then show ?thesis using pos_mod_sign [OF \<open>0 < k\<close>, of x] by simp
qed

lemma mod_diff_multiple: "b mod k = 0 \<Longrightarrow> (a - b) mod k = a mod k" for a b k :: int
  by (metis diff_zero mod_diff_right_eq)

lemma leap_count:
  "(r \<Longrightarrow> q) \<Longrightarrow> (q \<Longrightarrow> p) \<Longrightarrow>
   365 * (y - 1969) + (a + (if p then 1 else 0)) - (b + (if q then 1 else 0)) + (c + (if r then 1 else 0)) =
   365 * (y - 1970) + a - b + c + (if p \<and> (\<not> q \<or> r) then 366 else (365 :: int))"
  by (cases p; cases q; cases r) simp_all

lemma day_from_year_Suc: "day_from_year (y + 1) = day_from_year y + (if leap_year y then 366 else 365)"
proof -
  have e: "y - 1968 = (y - 1969) + 1" "y - 1900 = (y - 1901) + 1" "y - 1600 = (y - 1601) + 1" by simp_all
  have d: "(y - 1968) div 4 = (y - 1969) div 4 + (if (y - 1968) mod 4 = 0 then 1 else 0)"
    "(y - 1900) div 100 = (y - 1901) div 100 + (if (y - 1900) mod 100 = 0 then 1 else 0)"
    "(y - 1600) div 400 = (y - 1601) div 400 + (if (y - 1600) mod 400 = 0 then 1 else 0)"
    unfolding e by (rule div_step, simp)+
  have m: "(y - 1968) mod 4 = y mod 4" "(y - 1900) mod 100 = y mod 100" "(y - 1600) mod 400 = y mod 400"
    by (rule mod_diff_multiple, simp)+
  have i: "y mod 400 = 0 \<Longrightarrow> y mod 100 = 0" "y mod 100 = 0 \<Longrightarrow> y mod 4 = 0"
    using mod_mod_cancel [of 100 400 y] mod_mod_cancel [of 4 100 y] by simp_all
  have "day_from_year (y + 1) = 365 * (y - 1969) + (y - 1968) div 4 - (y - 1900) div 100 + (y - 1600) div 400"
    unfolding day_from_year_def by (simp only: add_diff_eq [symmetric] diff_diff_eq2 [symmetric]) simp
  also have "\<dots> = day_from_year y + (if leap_year y then 366 else 365)"
    unfolding d m day_from_year_def leap_year_def using i by (intro leap_count) simp_all
  finally show ?thesis .
qed

lemma day_from_year_step: "day_from_year y < day_from_year (y + 1)"
  by (simp add: day_from_year_Suc)

lemma day_from_year_mono: "x \<le> y \<Longrightarrow> day_from_year x \<le> day_from_year y"
proof (induction y rule: int_ge_induct)
  case (step y) then show ?case using day_from_year_step [of y] by simp
qed simp

text \<open>\<^verbatim>\<open>getUTCFullYear\<close>: the last year that begins on the day or before it.\<close>

function year_down :: "int \<Rightarrow> int \<Rightarrow> int" where
  "year_down d y = (if day_from_year y \<le> d then y else year_down d (y - 1))"
  by auto
termination
proof (relation "measure (\<lambda>(d, y). nat (day_from_year y - d))")
  fix d y :: int
  assume "\<not> day_from_year y \<le> d"
  moreover have "day_from_year (y - 1) < day_from_year y" using day_from_year_step [of "y - 1"] by simp
  ultimately show "((d, y - 1), (d, y)) \<in> measure (\<lambda>(d, y). nat (day_from_year y - d))" by simp
qed simp

declare year_down.simps [simp del]

definition getUTCFullYear :: "int \<Rightarrow> int" where
  "getUTCFullYear d = year_down d (1971 + (if d < 0 then d div 366 else d div 365))"

definition day_in_year :: "int \<Rightarrow> int" where
  "day_in_year d = d - day_from_year (getUTCFullYear d)"

definition getUTCMonth :: "int \<Rightarrow> int" where
  "getUTCMonth d =
     int (length (filter (\<lambda>s. s \<le> day_in_year d) (month_starts (leap_year (getUTCFullYear d))))) - 1"

definition getUTCDate :: "int \<Rightarrow> int" where
  "getUTCDate d =
     day_in_year d - month_starts (leap_year (getUTCFullYear d)) ! nat (getUTCMonth d) + 1"

section \<open>The method\<close>

definition dateITA :: "bool \<Rightarrow> string \<Rightarrow> mres" where
  "dateITA opt value =
     (let check =
        (if re_test False (bs ''^@d{1,2}@/@d{1,2}@/@d{4}$'') value then
           let adata = split_on CHR ''/'' value;
               gg = int (digits_val 0 (adata ! 0));
               mm = int (digits_val 0 (adata ! 1));
               aaaa = int (digits_val 0 (adata ! 2));
               xdata = Date_UTC aaaa (mm - 1) gg
           in getUTCFullYear xdata = aaaa \<and> getUTCMonth xdata = mm - 1 \<and> getUTCDate xdata = gg
         else False)
      in opt_or opt check)"

section \<open>The getters give the date back\<close>

lemma year_down_spec:
  "d < day_from_year (y + 1) \<Longrightarrow>
   day_from_year (year_down d y) \<le> d \<and> d < day_from_year (year_down d y + 1)"
proof (induction d y rule: year_down.induct)
  case (1 d y)
  show ?case
  proof (cases "day_from_year y \<le> d")
    case True
    then show ?thesis using "1.prems" by (simp add: year_down.simps)
  next
    case False
    then have "year_down d y = year_down d (y - 1)" by (subst year_down.simps) simp
    with False "1.IH" show ?thesis by simp
  qed
qed

text \<open>Leap days from 1970 to \<open>n\<close> years later, bounded from below.\<close>

definition leaps :: "int \<Rightarrow> int" where
  "leaps n = (n + 1) div 4 - (n + 69) div 100 + (n + 369) div 400"

lemma leaps_bound: "97 * n - 506 \<le> 400 * leaps n"
proof -
  have "n + 1 \<le> 4 * ((n + 1) div 4) + 3" "100 * ((n + 69) div 100) \<le> n + 69"
    "n + 369 \<le> 400 * ((n + 369) div 400) + 399"
    using mult_div_mod_eq [of 4 "n + 1"] mult_div_mod_eq [of 100 "n + 69"] mult_div_mod_eq [of 400 "n + 369"]
      pos_mod_bound [of 4 "n + 1"] pos_mod_sign [of 100 "n + 69"] pos_mod_bound [of 400 "n + 369"]
    by simp_all
  then show ?thesis by (simp add: leaps_def)
qed

lemma leaps_small: "leaps 0 = 0" "leaps (- 1) = 0" "leaps 1 = 0"
  by (simp_all add: leaps_def)

lemma leaps_pos: "0 \<le> n \<Longrightarrow> 0 \<le> leaps n"
  using leaps_bound [of n] leaps_small by (cases "n = 0 \<or> n = 1") auto

lemma leaps_neg: "n \<le> 0 \<Longrightarrow> n \<le> leaps n"
  using leaps_bound [of n] leaps_small by (cases "n = 0 \<or> n = - 1") auto

lemma day_from_1970: "day_from_year (1970 + n) = 365 * n + leaps n"
  by (simp add: day_from_year_def leaps_def add.commute)

lemma year_start_bound:
  "d < day_from_year (1971 + (if d < 0 then d div 366 else d div 365))"
proof (cases "d < 0")
  case True
  have "d < 366 * (d div 366 + 1)" using mult_div_mod_eq [of 366 d] pos_mod_bound [of 366 d] by simp
  also have "\<dots> \<le> day_from_year (1970 + (d div 366 + 1))"
  proof -
    have "d div 366 < 0" using True by (simp add: div_neg_pos_less0)
    then show ?thesis using leaps_neg [of "d div 366 + 1"] unfolding day_from_1970 by simp
  qed
  finally show ?thesis using True by (simp add: add.commute)
next
  case False
  have "d < 365 * (d div 365 + 1)" using mult_div_mod_eq [of 365 d] pos_mod_bound [of 365 d] by simp
  also have "\<dots> \<le> day_from_year (1970 + (d div 365 + 1))"
    using leaps_pos [of "d div 365 + 1"] False unfolding day_from_1970 by (simp add: pos_imp_zdiv_nonneg_iff)
  finally show ?thesis using False by (simp add: add.commute)
qed

lemma getUTCFullYear_spec:
  "day_from_year (getUTCFullYear d) \<le> d \<and> d < day_from_year (getUTCFullYear d + 1)"
  unfolding getUTCFullYear_def
  by (rule year_down_spec) (meson day_from_year_step less_trans year_start_bound)

lemma getUTCFullYear_unique:
  assumes "day_from_year y \<le> d" "d < day_from_year (y + 1)"
  shows "getUTCFullYear d = y"
proof -
  let ?y = "getUTCFullYear d"
  have "\<not> ?y + 1 \<le> y" "\<not> y + 1 \<le> ?y"
    using getUTCFullYear_spec [of d] assms day_from_year_mono [of "?y + 1" y] day_from_year_mono [of "y + 1" ?y]
    by linarith+
  then show ?thesis by linarith
qed

definition days_in_month :: "bool \<Rightarrow> int \<Rightarrow> int" where
  "days_in_month leap m =
     (if m = 2 then (if leap then 29 else 28) else if m \<in> {4, 6, 9, 11} then 30 else 31)"

lemma months_table:
  "\<forall>leap \<in> {True, False}. \<forall>i \<in> set [0 ..< 12].
     0 \<le> month_starts leap ! i \<and>
     month_starts leap ! i + days_in_month leap (int i + 1) =
       (if i = 11 then (if leap then 366 else 365) else month_starts leap ! Suc i)"
  by code_simp

lemma months_count:
  assumes "i < 12" "month_starts leap ! i \<le> t" "t < month_starts leap ! i + days_in_month leap (int i + 1)"
  shows "length (filter (\<lambda>s. s \<le> t) (month_starts leap)) = Suc i"
proof -
  have "i \<in> {0, 1, 2, 3, 4, 5, 6, 7, 8, 9, 10, 11}" using assms(1) by simp presburger
  then show ?thesis using assms(2,3)
    by (cases leap) (elim insertE; simp add: month_starts_def days_in_month_def)+
qed


text \<open>A date of the calendar.\<close>

definition real_date :: "int \<Rightarrow> int \<Rightarrow> int \<Rightarrow> bool" where
  "real_date y m d \<longleftrightarrow> 1 \<le> m \<and> m \<le> 12 \<and> 1 \<le> d \<and> d \<le> days_in_month (leap_year y) m"

lemma month_index:
  assumes "i < 12"
  shows "0 \<le> month_starts leap ! i"
    "month_starts leap ! i + days_in_month leap (int i + 1) \<le> (if leap then 366 else 365)"
proof -
  have "i \<in> {0, 1, 2, 3, 4, 5, 6, 7, 8, 9, 10, 11}" using assms by simp presburger
  then show "0 \<le> month_starts leap ! i"
    "month_starts leap ! i + days_in_month leap (int i + 1) \<le> (if leap then 366 else 365)"
    by (cases leap; elim insertE; simp add: month_starts_def days_in_month_def)+
qed

lemma date_roundtrip:
  assumes "real_date y m d"
  shows "getUTCFullYear (make_day y (m - 1) d) = y \<and> getUTCMonth (make_day y (m - 1) d) = m - 1 \<and>
    getUTCDate (make_day y (m - 1) d) = d"
proof -
  let ?l = "leap_year y" and ?i = "nat (m - 1)"
  let ?n = "make_day y (m - 1) d"
  from assms have m: "?i < 12" "int ?i = m - 1" by (auto simp: real_date_def)
  then have d: "1 \<le> d" "d \<le> days_in_month ?l (int ?i + 1)" using assms by (simp_all add: real_date_def)
  have n: "?n = day_from_year y + month_starts ?l ! ?i + d - 1"
    using assms by (simp add: make_day_def real_date_def Let_def div_pos_pos_trivial)
  have "day_from_year y \<le> ?n" "?n < day_from_year (y + 1)"
    using n d month_index [OF m(1), of ?l] by (auto simp: day_from_year_Suc)
  then have y: "getUTCFullYear ?n = y" by (rule getUTCFullYear_unique)
  then have t: "day_in_year ?n = month_starts ?l ! ?i + d - 1" by (simp add: day_in_year_def n)
  have "length (filter (\<lambda>s. s \<le> day_in_year ?n) (month_starts ?l)) = Suc ?i"
    using months_count [OF m(1), of ?l "day_in_year ?n"] d t by simp
  then have "getUTCMonth ?n = m - 1" using m(2) by (simp add: getUTCMonth_def y)
  then show ?thesis using y t by (simp add: getUTCDate_def)
qed

lemma month_of_day:
  assumes "0 \<le> t" "t < (if leap then 366 else 365)"
  obtains i where "i < 12" "month_starts leap ! i \<le> t"
    "t < month_starts leap ! i + days_in_month leap (int i + 1)"
proof -
  define S where "S k = (if k = 12 then (if leap then 366 else 365) else month_starts leap ! k)" for k
  have nxt: "S (Suc k) = S k + days_in_month leap (int k + 1)" if "k < 12" for k
    using months_table that by (cases leap) (auto simp: S_def)
  have "k \<le> 12 \<Longrightarrow> (\<exists>i<k. S i \<le> t \<and> t < S (Suc i)) \<or> S k \<le> t" for k
  proof (induction k)
    case 0
    then show ?case using assms(1) by (simp add: S_def month_starts_def Let_def)
  next
    case (Suc k)
    then show ?case by (cases "t < S (Suc k)") (auto simp: less_Suc_eq)
  qed
  moreover have "\<not> S 12 \<le> t" using assms(2) by (simp add: S_def)
  ultimately obtain i where "i < 12" "S i \<le> t" "t < S (Suc i)" by blast
  then show ?thesis using that [of i] nxt [of i] by (simp add: S_def)
qed

lemma getters_real: "real_date (getUTCFullYear n) (getUTCMonth n + 1) (getUTCDate n)"
proof -
  let ?y = "getUTCFullYear n"
  have "0 \<le> day_in_year n" "day_in_year n < (if leap_year ?y then 366 else 365)"
    using getUTCFullYear_spec [of n] unfolding day_in_year_def day_from_year_Suc by auto
  then obtain i where i: "i < 12" "month_starts (leap_year ?y) ! i \<le> day_in_year n"
    "day_in_year n < month_starts (leap_year ?y) ! i + days_in_month (leap_year ?y) (int i + 1)"
    by (rule month_of_day)
  then have "getUTCMonth n = int i" using months_count [OF i] by (simp add: getUTCMonth_def)
  with i show ?thesis by (simp add: real_date_def getUTCDate_def)
qed

section \<open>The dates the method accepts\<close>

lemma date_parse:
  "regex_parse (bs ''^@d{1,2}@/@d{1,2}@/@d{4}$'') =
   Some (rx_seq (Bol # [Rep (Cls False [(48, 57)]) 1 (Some 2) False, code_lit 47,
     Rep (Cls False [(48, 57)]) 1 (Some 2) False, code_lit 47, Rep (Cls False [(48, 57)]) 4 (Some 4) False] @ [Eol]))"
  by code_simp

definition date_text :: "string \<Rightarrow> string \<Rightarrow> string \<Rightarrow> bool" where
  "date_text g m y \<longleftrightarrow> 1 \<le> length g \<and> length g \<le> 2 \<and> 1 \<le> length m \<and> length m \<le> 2 \<and> length y = 4 \<and>
     list_all is_digit g \<and> list_all is_digit m \<and> list_all is_digit y"

lemma code_slash: "of_char c = (47 :: int) \<longleftrightarrow> c = CHR ''/''"
  using of_char_eq_iff [of c "CHR ''/''", where 'a = int] by simp

lemma date_test:
  "re_test False (bs ''^@d{1,2}@/@d{1,2}@/@d{4}$'') v \<longleftrightarrow>
     (\<exists>g m y. v = g @ ''/'' @ m @ ''/'' @ y \<and> date_text g m y)"
proof -
  have plain: "list_all rx_plain [Rep (Cls False [(48, 57)]) 1 (Some 2) False, code_lit 47,
     Rep (Cls False [(48, 57)]) 1 (Some 2) False, code_lit 47, Rep (Cls False [(48, 57)]) 4 (Some 4) False]"
    by (simp add: code_lit_def)
  have digits: "list_all (in_cls False False [(48, 57)]) w = list_all is_digit w" for w
    by (simp add: list_all_iff)
  have slash: "w \<in> rx_lang False (Seq (code_lit 47) r) \<longleftrightarrow> (\<exists>t. w = CHR ''/'' # t \<and> t \<in> rx_lang False r)" for w r
    unfolding code_lit_def lang_Seq_Cls in_cls_lit code_slash by auto
  show ?thesis
    unfolding re_test_anchored [OF date_parse plain] rx_seq.simps
      lang_Seq [where r = "Rep _ _ _ _"] slash lang_Rep_Cls digits option.case date_text_def append_Cons append_Nil
    by (rule iffI; elim exE conjE; hypsubst; intro exI conjI; (rule refl | assumption | linarith))
qed

lemma digits_no_slash: "list_all is_digit w \<Longrightarrow> CHR ''/'' \<notin> set w"
  by (auto simp: list_all_iff is_digit_def)

lemma Date_UTC_getters:
  assumes "0 \<le> y"
  shows "getUTCFullYear (Date_UTC y (m - 1) d) = y \<and> getUTCMonth (Date_UTC y (m - 1) d) = m - 1 \<and>
      getUTCDate (Date_UTC y (m - 1) d) = d \<longleftrightarrow> 100 \<le> y \<and> real_date y m d" (is "?L \<longleftrightarrow> ?R")
proof
  assume L: ?L
  then have real: "real_date y m d" using getters_real [of "Date_UTC y (m - 1) d"] by simp
  moreover have "100 \<le> y"
  proof (rule ccontr)
    assume "\<not> 100 \<le> y"
    then have "Date_UTC y (m - 1) d =
        day_from_year (1900 + y) + month_starts (leap_year (1900 + y)) ! nat (m - 1) + d - 1"
      using assms real by (simp add: Date_UTC_def make_day_def real_date_def Let_def div_pos_pos_trivial)
    moreover have "0 \<le> month_starts (leap_year (1900 + y)) ! nat (m - 1)" "1 \<le> d"
      using real month_index(1) [of "nat (m - 1)" "leap_year (1900 + y)"] by (auto simp: real_date_def)
    ultimately have "day_from_year (1900 + y) \<le> Date_UTC y (m - 1) d" by linarith
    moreover have "Date_UTC y (m - 1) d < day_from_year (y + 1)"
      using getUTCFullYear_spec [of "Date_UTC y (m - 1) d"] L by simp
    ultimately show False using day_from_year_mono [of "y + 1" "1900 + y"] by simp
  qed
  ultimately show ?R by simp
next
  assume ?R
  then show ?L using date_roundtrip [of y m d] by (simp add: Date_UTC_def)
qed


text \<open>
  C17: \<^verbatim>\<open>dateITA\<close> accepts exactly the texts of a day and a month of one or two digits and a year of four
  digits, separated by slashes, that are a date of the Gregorian calendar from the year 100 on:
  building a date and reading it back finds days and months out of range. The years 0000 to 0099 are
  rejected since \<^verbatim>\<open>Date.UTC\<close> takes them for 1900 to 1999.
\<close>

theorem dateITA_exact:
  "dateITA opt v =
     opt_or opt (\<exists>g m y. v = g @ ''/'' @ m @ ''/'' @ y \<and> date_text g m y \<and> 100 \<le> digits_val 0 y \<and>
        real_date (int (digits_val 0 y)) (int (digits_val 0 m)) (int (digits_val 0 g)))"
proof (cases "\<exists>g m y. v = g @ ''/'' @ m @ ''/'' @ y \<and> date_text g m y")
  case False
  then have no: "\<not> (\<exists>g m y. v = g @ ''/'' @ m @ ''/'' @ y \<and> date_text g m y \<and> P g m y)" for P by blast
  from False show ?thesis unfolding dateITA_def date_test by (simp only: no if_False Let_def simp_thms)
next
  case True
  then obtain g m y where v: "v = g @ ''/'' @ m @ ''/'' @ y" and t: "date_text g m y" by blast
  have split: "split_on CHR ''/'' (g' @ ''/'' @ m' @ ''/'' @ y') = [g', m', y']" if "date_text g' m' y'" for g' m' y'
    using that digits_no_slash by (simp add: date_text_def split_on_append)
  have uniq: "g' = g \<and> m' = m \<and> y' = y" if "v = g' @ ''/'' @ m' @ ''/'' @ y'" "date_text g' m' y'" for g' m' y'
  proof -
    have "[g', m', y'] = [g, m, y]"
      unfolding split [OF t, symmetric] split [OF that(2), symmetric] that(1) [symmetric] v [symmetric] ..
    then show ?thesis by simp
  qed
  have only: "(\<exists>g m y. v = g @ ''/'' @ m @ ''/'' @ y \<and> date_text g m y \<and> P g m y) \<longleftrightarrow> P g m y" for P
    using v t uniq by blast
  have "dateITA opt v = opt_or opt (100 \<le> int (digits_val 0 y) \<and>
      real_date (int (digits_val 0 y)) (int (digits_val 0 m)) (int (digits_val 0 g)))"
    unfolding dateITA_def date_test using True split [OF t] v
    by (simp add: Let_def Date_UTC_getters del: append_Cons)
  then show ?thesis unfolding only [of "\<lambda>g m y. 100 \<le> digits_val 0 y \<and>
        real_date (int (digits_val 0 y)) (int (digits_val 0 m)) (int (digits_val 0 g))"] by simp
qed

end
