(* ===== verification/Jv_Core.thy ===== *)
theory Jv_Core
  imports Jv_Patterns
begin

text \<open>
  The values, form fields and built-in methods of jquery.validate.js:
  \<^item> numbers as the decimals they are written as (\<open>jnum\<close>), \<^verbatim>\<open>Number(text)\<close>, comparison and printing;
    texts of more than fifteen significant digits, with an exponent or a prefix such as \<^verbatim>\<open>0x\<close> are
    outside the model, so that a decimal and the double the engine keeps for it print and compare
    the same;
  \<^item> the parameters of rules (\<open>pval\<close>) and the values of fields (\<open>fval\<close>);
  \<^item> a form as the list of its fields (\<open>element\<close>); a field is named by its index;
  \<^item> \<^verbatim>\<open>$.validator.format\<close>, \<^verbatim>\<open>elementValue\<close>, \<^verbatim>\<open>checkable\<close>, \<^verbatim>\<open>findByName\<close>, \<^verbatim>\<open>getLength\<close>, \<^verbatim>\<open>depend\<close>,
    \<^verbatim>\<open>optional\<close> and the methods \<^verbatim>\<open>required\<close> to \<^verbatim>\<open>step\<close>.

  What the page supplies is in the record \<open>page\<close>: the matches of a selector, the functions it passes
  as parameters, the text of a \<^verbatim>\<open>Date\<close> made from a text, which every engine reads in its own way.
\<close>

section \<open>Numbers\<close>

text \<open>\<open>Dec m e\<close> is \<open>m / 10 ^ e\<close>, with \<open>e = 0\<close> or a last digit other than zero.\<close>

datatype jnum = Dec int nat | NaN

fun dec_norm :: "int \<Rightarrow> nat \<Rightarrow> jnum" where
  "dec_norm m 0 = Dec m 0"
| "dec_norm m (Suc e) = (if m mod 10 = 0 then dec_norm (m div 10) e else Dec m (Suc e))"

fun num_le :: "jnum \<Rightarrow> jnum \<Rightarrow> bool" where
  "num_le (Dec a d) (Dec b e) = (a * 10 ^ e \<le> b * 10 ^ d)"
| "num_le _ _ = False"

definition num_of_nat :: "nat \<Rightarrow> jnum" where
  "num_of_nat n = Dec (int n) 0"

text \<open>\<^verbatim>\<open>$.trim\<close>, and the trimming \<^verbatim>\<open>Number\<close> does.\<close>

definition js_trim :: "string \<Rightarrow> string" where
  "js_trim s = rev (dropWhile is_space (rev (dropWhile is_space s)))"

definition decimal_text :: "string \<Rightarrow> jnum option" where
  "decimal_text s =
     (let a = takeWhile is_digit s; r = dropWhile is_digit s in
      case r of
        [] \<Rightarrow> if a = [] then None else Some (Dec (int (digits_val 0 a)) 0)
      | c # b \<Rightarrow>
          if c = CHR ''.'' \<and> list_all is_digit b \<and> (a \<noteq> [] \<or> b \<noteq> [])
          then Some (dec_norm (int (digits_val 0 (a @ b))) (length b)) else None)"

fun num_neg :: "jnum \<Rightarrow> jnum" where
  "num_neg (Dec m e) = Dec (- m) e"
| "num_neg NaN = NaN"

text \<open>\<^verbatim>\<open>Number(text)\<close>: \<open>None\<close> outside the model.\<close>

definition to_number :: "string \<Rightarrow> jnum option" where
  "to_number text =
     (let s = js_trim text;
          u = (case s of c # r \<Rightarrow> if c = CHR ''-'' \<or> c = CHR ''+'' then r else s | [] \<Rightarrow> [])
      in if s = [] then Some (Dec 0 0)
         else if length u > 16 \<or> list_ex (\<lambda>c. c \<in> set ''eExXoObBI'') u \<and> (case u of c # _ \<Rightarrow> is_digit c \<or> c = CHR ''.'' \<or> c = CHR ''I'' | [] \<Rightarrow> False)
         then None
         else (case decimal_text u of
                 None \<Rightarrow> Some NaN
               | Some n \<Rightarrow> Some (if hd s = CHR ''-'' then num_neg n else n)))"

text \<open>\<^verbatim>\<open>String(number)\<close> for a decimal of that size (no exponent).\<close>

definition num_text :: "jnum \<Rightarrow> string" where
  "num_text n =
     (case n of
        NaN \<Rightarrow> ''NaN''
      | Dec m 0 \<Rightarrow> int_to_string m
      | Dec m e \<Rightarrow>
          let ds = nat_digits (nat \<bar>m\<bar>);
              ps = replicate (Suc e - length ds) CHR ''0'' @ ds;
              k = length ps - e
          in (if m < 0 then ''-'' else []) @ take k ps @ ''.'' @ drop k ps)"

section \<open>Parameters, values and fields\<close>

datatype pval =
    PUndef
  | PNull
  | PBool bool
  | PNum jnum
  | PStr string
  | PArr "pval list"
  | PObj "(string \<times> pval) list"
  | PFun nat
  | PElem nat

fun p_truthy :: "pval \<Rightarrow> bool" where
  "p_truthy PUndef = False"
| "p_truthy PNull = False"
| "p_truthy (PBool b) = b"
| "p_truthy (PNum n) = (n \<noteq> NaN \<and> n \<noteq> Dec 0 0)"
| "p_truthy (PStr s) = (s \<noteq> [])"
| "p_truthy _ = True"

datatype fval = VStr string | VArr "string list" | VUndef | VNull

fun v_truthy :: "fval \<Rightarrow> bool" where
  "v_truthy (VStr s) = (s \<noteq> [])"
| "v_truthy (VArr _) = True"
| "v_truthy _ = False"

text \<open>\<^verbatim>\<open>String(value)\<close>, as a regular expression test makes it.\<close>

fun v_text :: "fval \<Rightarrow> string" where
  "v_text (VStr s) = s"
| "v_text (VArr xs) = join '','' xs"
| "v_text VUndef = ''undefined''"
| "v_text VNull = ''null''"

fun v_length :: "fval \<Rightarrow> nat result" where
  "v_length (VStr s) = Inr (length s)"
| "v_length (VArr xs) = Inr (length xs)"
| "v_length VUndef = Inl (TypeError (''Cannot read properties of undefined (reading '' @ sq ''length'' @ '')''))"
| "v_length VNull = Inl (TypeError (''Cannot read properties of null (reading '' @ sq ''length'' @ '')''))"

text \<open>
  A field: the properties \<^verbatim>\<open>name\<close>, \<^verbatim>\<open>id\<close>, \<^verbatim>\<open>nodeName\<close>, \<^verbatim>\<open>type\<close>, its attributes, what \<^verbatim>\<open>$(e).val()\<close> and
  \<^verbatim>\<open>$(e).text()\<close> return, whether it is checked, the number of its selected options, \<^verbatim>\<open>validity.badInput\<close>
  (\<open>None\<close> when the browser has no \<^verbatim>\<open>validity\<close>), its data attributes, and whether the selectors
  \<^verbatim>\<open>settings.ignore\<close>, \<^verbatim>\<open>input, select, textarea, [contenteditable]\<close> and
  \<^verbatim>\<open>:submit, :reset, :image, :disabled\<close> match it.
\<close>

record element =
  el_name     :: string
  el_id       :: string
  el_node     :: string
  el_type     :: string
  el_attrs    :: "(string \<times> string) list"
  el_val      :: fval
  el_text     :: string
  el_checked  :: bool
  el_selected :: nat
  el_badInput :: "bool option"
  el_data     :: "(string \<times> pval) list"
  el_title    :: string
  el_ignored  :: bool
  el_input    :: bool
  el_button   :: bool

type_synonym form = "element list"

record page =
  pg_matches :: "string \<Rightarrow> nat"
  pg_call    :: "nat \<Rightarrow> nat \<Rightarrow> pval"
  pg_date    :: "string \<Rightarrow> string"

section \<open>Message format\<close>

text \<open>\<^verbatim>\<open>source.replace(/\{i\}/g, f)\<close>: every occurrence of the text, from the left.\<close>

fun replace_text :: "nat \<Rightarrow> string \<Rightarrow> string \<Rightarrow> string \<Rightarrow> string" where
  "replace_text 0 pat t s = s"
| "replace_text (Suc n) pat t s =
     (case s of
        [] \<Rightarrow> []
      | c # r \<Rightarrow>
          if pat \<noteq> [] \<and> prefix pat s then t @ replace_text n pat t (drop (length pat) s)
          else c # replace_text n pat t r)"

definition placeholder :: "nat \<Rightarrow> string" where
  "placeholder i = ''{'' @ nat_digits i @ ''}''"

text \<open>The text a parameter is replaced by; objects, functions and fields print in engine ways.\<close>

fun p_text :: "pval \<Rightarrow> string" where
  "p_text PUndef = ''undefined''"
| "p_text PNull = ''null''"
| "p_text (PBool b) = (if b then ''true'' else ''false'')"
| "p_text (PNum n) = num_text n"
| "p_text (PStr s) = s"
| "p_text (PArr xs) = join '','' (map (\<lambda>x. if x = PUndef \<or> x = PNull then [] else p_text x) xs)"
| "p_text (PObj _) = ''[object Object]''"
| "p_text (PFun _) = ''function''"
| "p_text (PElem _) = ''[object HTMLInputElement]''"

fun format_from :: "nat \<Rightarrow> pval list \<Rightarrow> string \<Rightarrow> string" where
  "format_from i [] source = source"
| "format_from i (n # params) source =
     format_from (Suc i) params (replace_text (length source) (placeholder i) (p_text n) source)"

definition validator_format :: "string \<Rightarrow> pval \<Rightarrow> string" where
  "validator_format source params =
     (case params of
        PUndef \<Rightarrow> source
      | PArr ps \<Rightarrow> format_from 0 ps source
      | p \<Rightarrow> format_from 0 [p] source)"

section \<open>Fields\<close>

definition checkable :: "element \<Rightarrow> bool" where
  "checkable e = re_test True ''radio|checkbox'' (el_type e)"

definition findByName :: "form \<Rightarrow> string \<Rightarrow> nat list" where
  "findByName f name = filter (\<lambda>i. el_name (f ! i) = name) [0 ..< length f]"

definition checked_named :: "form \<Rightarrow> string \<Rightarrow> nat list" where
  "checked_named f name = filter (\<lambda>i. el_checked (f ! i)) (findByName f name)"

text \<open>\<^verbatim>\<open>val.lastIndexOf(c)\<close> and the file name after it.\<close>

definition last_index :: "char \<Rightarrow> string \<Rightarrow> nat option" where
  "last_index c s = (if c \<in> set s then Some (length s - 1 - length (takeWhile (\<lambda>x. x \<noteq> c) (rev s))) else None)"

definition file_name :: "string \<Rightarrow> string" where
  "file_name val =
     (let fake = ''C:'' @ [CHR 0x5C] @ ''fakepath'' @ [CHR 0x5C] in
      if take 12 val = fake then drop 12 val
      else (case last_index CHR ''/'' val of
              Some idx \<Rightarrow> drop (idx + 1) val
            | None \<Rightarrow> (case last_index CHR 0x5C val of Some idx \<Rightarrow> drop (idx + 1) val | None \<Rightarrow> val)))"

definition elementValue :: "form \<Rightarrow> nat \<Rightarrow> fval result" where
  "elementValue f i =
     (let e = f ! i; type = el_type e in
      if type = ''radio'' \<or> type = ''checkbox'' then
        Inr (case checked_named f (el_name e) of j # _ \<Rightarrow> el_val (f ! j) | [] \<Rightarrow> VUndef)
      else if type = ''number'' \<and> el_badInput e \<noteq> None then
        Inr (if el_badInput e = Some True then VStr ''NaN'' else el_val e)
      else
        let val = (if obj_get (el_attrs e) ''contenteditable'' \<noteq> None then VStr (el_text e) else el_val e) in
        if type = ''file'' then
          (case val of
             VStr s \<Rightarrow> Inr (VStr (file_name s))
           | VNull \<Rightarrow> Inl (TypeError (''Cannot read properties of null (reading '' @ sq ''substr'' @ '')''))
           | _ \<Rightarrow> Inl (TypeError ''val.substr is not a function''))
        else (case val of VStr s \<Rightarrow> Inr (VStr (filter (\<lambda>c. c \<noteq> CHR 0x0D) s)) | v \<Rightarrow> Inr v))"

text \<open>\<^verbatim>\<open>case "input"\<close> without a match falls out of the switch.\<close>

definition getLength :: "form \<Rightarrow> fval \<Rightarrow> nat \<Rightarrow> nat result" where
  "getLength f value i =
     (let e = f ! i; node = toLowerCase (el_node e) in
      if node = ''select'' then Inr (el_selected e)
      else if node = ''input'' \<and> checkable e then Inr (length (checked_named f (el_name e)))
      else v_length value)"

definition depend :: "page \<Rightarrow> pval \<Rightarrow> nat \<Rightarrow> bool" where
  "depend pg param i =
     (case param of
        PBool b \<Rightarrow> b
      | PStr s \<Rightarrow> pg_matches pg s \<noteq> 0
      | PFun k \<Rightarrow> p_truthy (pg_call pg k i)
      | _ \<Rightarrow> True)"

definition required :: "page \<Rightarrow> form \<Rightarrow> fval \<Rightarrow> nat \<Rightarrow> pval \<Rightarrow> mres result" where
  "required pg f value i param =
     (let e = f ! i in
      if \<not> depend pg param i then Inr Mismatch
      else if toLowerCase (el_node e) = ''select'' then
        Inr (Verdict (case el_val e of VStr s \<Rightarrow> s \<noteq> [] | VArr xs \<Rightarrow> xs \<noteq> [] | _ \<Rightarrow> False))
      else if checkable e then rbind (getLength f value i) (\<lambda>n. Inr (Verdict (n > 0)))
      else rbind (v_length value) (\<lambda>n. Inr (Verdict (n > 0))))"

fun m_truthy :: "mres \<Rightarrow> bool" where
  "m_truthy (Verdict b) = b"
| "m_truthy _ = True"

definition optional :: "page \<Rightarrow> form \<Rightarrow> nat \<Rightarrow> bool result" where
  "optional pg f i =
     rbind (elementValue f i) (\<lambda>val.
     rbind (required pg f val i PUndef) (\<lambda>r. Inr (\<not> m_truthy r)))"

text \<open>\<^verbatim>\<open>this.optional(element) || test\<close>.\<close>

definition or_optional :: "page \<Rightarrow> form \<Rightarrow> nat \<Rightarrow> bool result \<Rightarrow> mres result" where
  "or_optional pg f i test = rbind (optional pg f i) (\<lambda>opt. opt_or_try opt test)"

section \<open>The methods\<close>

definition email :: "bool \<Rightarrow> string \<Rightarrow> mres" where
  "email opt value =
     opt_or opt (re_test False
       (bs_for CHR ''<'' ''^[a-zA-Z0-9.!#$%&\\'*+</=?^_`{|}~-]+@[a-zA-Z0-9](?:[a-zA-Z0-9-]{0,61}[a-zA-Z0-9])?(?:<.[a-zA-Z0-9](?:[a-zA-Z0-9-]{0,61}[a-zA-Z0-9])?)*$'')
       value)"

definition url :: "bool \<Rightarrow> string \<Rightarrow> mres" where
  "url opt value =
     opt_or opt (re_test True
       (bs_for CHR ''<'' ''^(?:(?:(?:https?|ftp):)?</</)(?:<S+(?::<S*)?@)?(?:(?!(?:10|127)(?:<.<d{1,3}){3})(?!(?:169<.254|192<.168)(?:<.<d{1,3}){2})(?!172<.(?:1[6-9]|2<d|3[0-1])(?:<.<d{1,3}){2})(?:[1-9]<d?|1<d<d|2[01]<d|22[0-3])(?:<.(?:1?<d{1,2}|2[0-4]<d|25[0-5])){2}(?:<.(?:[1-9]<d?|1<d<d|2[0-4]<d|25[0-4]))|(?:(?:[a-z<u00a1-<uffff0-9]-*)*[a-z<u00a1-<uffff0-9]+)(?:<.(?:[a-z<u00a1-<uffff0-9]-*)*[a-z<u00a1-<uffff0-9]+)*(?:<.(?:[a-z<u00a1-<uffff]{2,})).?)(?::<d{2,5})?(?:[/?#]<S*)?$'')
       value)"

definition date_method :: "page \<Rightarrow> bool \<Rightarrow> string \<Rightarrow> mres" where
  "date_method pg opt value = opt_or opt (\<not> re_test False ''Invalid|NaN'' (pg_date pg value))"

definition dateISO :: "bool \<Rightarrow> string \<Rightarrow> mres" where
  "dateISO opt value =
     opt_or opt (re_test False
       (bs ''^@d{4}[@/@-](0?[1-9]|1[012])[@/@-](0?[1-9]|[12][0-9]|3[01])$'')
       value)"

definition number :: "bool \<Rightarrow> string \<Rightarrow> mres" where
  "number opt value =
     opt_or opt (re_test False
       (bs ''^(?:-?@d+|-?@d{1,3}(?:,@d{3})+)?(?:@.@d+)?$'')
       value)"

definition digits :: "bool \<Rightarrow> string \<Rightarrow> mres" where
  "digits opt value = opt_or opt (re_test False (bs ''^@d+$'') value)"

text \<open>\<^verbatim>\<open>Number\<close> of a parameter that is not a text, and the relation \<^verbatim>\<open>a <= b\<close>, on texts when both are texts.\<close>

definition p_number :: "pval \<Rightarrow> jnum result" where
  "p_number p =
     (case p of
        PUndef \<Rightarrow> Inr NaN
      | PNull \<Rightarrow> Inr (Dec 0 0)
      | PBool b \<Rightarrow> Inr (Dec (if b then 1 else 0) 0)
      | PNum n \<Rightarrow> Inr n
      | PStr s \<Rightarrow> (case to_number s of Some n \<Rightarrow> Inr n | None \<Rightarrow> Inl OutsideModel)
      | PArr [] \<Rightarrow> Inr (Dec 0 0)
      | _ \<Rightarrow> Inl OutsideModel)"

fun text_le :: "string \<Rightarrow> string \<Rightarrow> bool" where
  "text_le [] t = True"
| "text_le (c # s) [] = False"
| "text_le (c # s) (d # t) = (of_char c < (of_char d :: int) \<or> c = d \<and> text_le s t)"

definition js_le :: "pval \<Rightarrow> pval \<Rightarrow> bool result" where
  "js_le a b =
     (case (a, b) of
        (PStr s, PStr t) \<Rightarrow> Inr (text_le s t)
      | _ \<Rightarrow> rbind (p_number a) (\<lambda>m. rbind (p_number b) (\<lambda>n. Inr (num_le m n))))"

fun p_of_value :: "fval \<Rightarrow> pval" where
  "p_of_value (VStr s) = PStr s"
| "p_of_value (VArr xs) = PStr (join '','' xs)"
| "p_of_value VUndef = PUndef"
| "p_of_value VNull = PNull"

text \<open>\<^verbatim>\<open>param[k]\<close>.\<close>

definition p_index :: "pval \<Rightarrow> nat \<Rightarrow> pval result" where
  "p_index p k =
     (case p of
        PUndef \<Rightarrow> Inl (TypeError (''Cannot read properties of undefined (reading '' @ sq (nat_digits k) @ '')''))
      | PNull \<Rightarrow> Inl (TypeError (''Cannot read properties of null (reading '' @ sq (nat_digits k) @ '')''))
      | PArr xs \<Rightarrow> Inr (if k < length xs then xs ! k else PUndef)
      | PStr s \<Rightarrow> Inr (if k < length s then PStr [s ! k] else PUndef)
      | PObj ps \<Rightarrow> Inr (case obj_get ps (nat_digits k) of Some v \<Rightarrow> v | None \<Rightarrow> PUndef)
      | _ \<Rightarrow> Inr PUndef)"

definition value_length :: "form \<Rightarrow> fval \<Rightarrow> nat \<Rightarrow> pval result" where
  "value_length f value i =
     (case value of
        VArr xs \<Rightarrow> Inr (PNum (num_of_nat (length xs)))
      | v \<Rightarrow> rbind (getLength f v i) (\<lambda>n. Inr (PNum (num_of_nat n))))"

definition minlength :: "page \<Rightarrow> form \<Rightarrow> fval \<Rightarrow> nat \<Rightarrow> pval \<Rightarrow> mres result" where
  "minlength pg f value i param =
     rbind (value_length f value i) (\<lambda>len. or_optional pg f i (js_le param len))"

definition maxlength :: "page \<Rightarrow> form \<Rightarrow> fval \<Rightarrow> nat \<Rightarrow> pval \<Rightarrow> mres result" where
  "maxlength pg f value i param =
     rbind (value_length f value i) (\<lambda>len. or_optional pg f i (js_le len param))"

text \<open>\<^verbatim>\<open>x >= param[0] && x <= param[1]\<close>.\<close>

definition js_between :: "pval \<Rightarrow> pval \<Rightarrow> bool result" where
  "js_between x param =
     rbind (p_index param 0) (\<lambda>lo. rbind (js_le lo x) (\<lambda>b.
       if b then rbind (p_index param 1) (\<lambda>hi. js_le x hi) else Inr False))"

definition rangelength :: "page \<Rightarrow> form \<Rightarrow> fval \<Rightarrow> nat \<Rightarrow> pval \<Rightarrow> mres result" where
  "rangelength pg f value i param =
     rbind (value_length f value i) (\<lambda>len. or_optional pg f i (js_between len param))"

definition min_method :: "page \<Rightarrow> form \<Rightarrow> fval \<Rightarrow> nat \<Rightarrow> pval \<Rightarrow> mres result" where
  "min_method pg f value i param = or_optional pg f i (js_le param (p_of_value value))"

definition max_method :: "page \<Rightarrow> form \<Rightarrow> fval \<Rightarrow> nat \<Rightarrow> pval \<Rightarrow> mres result" where
  "max_method pg f value i param = or_optional pg f i (js_le (p_of_value value) param)"

definition range_method :: "page \<Rightarrow> form \<Rightarrow> fval \<Rightarrow> nat \<Rightarrow> pval \<Rightarrow> mres result" where
  "range_method pg f value i param = or_optional pg f i (js_between (p_of_value value) param)"

text \<open>
  \<^verbatim>\<open>step\<close>: \<^verbatim>\<open>decimalPlaces\<close> counts the digits at the end of the text after a point; \<^verbatim>\<open>toInt\<close> is
  \<^verbatim>\<open>Math.round(num * 10 ** decimals)\<close>, \<^verbatim>\<open>Math.round(x)\<close> being the floor of \<open>x + 1/2\<close>.
\<close>

definition decimalPlaces :: "string \<Rightarrow> nat" where
  "decimalPlaces s =
     (case dropWhile is_digit (rev s) of
        c # _ \<Rightarrow> if c = CHR ''.'' then length (takeWhile is_digit (rev s)) else 0
      | [] \<Rightarrow> 0)"

fun toInt :: "nat \<Rightarrow> jnum \<Rightarrow> int option" where
  "toInt decimals NaN = None"
| "toInt decimals (Dec m e) = Some ((2 * m * 10 ^ decimals + 10 ^ e) div (2 * 10 ^ e))"

text \<open>\<^verbatim>\<open>a % b !== 0\<close>.\<close>

definition rem_nonzero :: "int option \<Rightarrow> int option \<Rightarrow> bool" where
  "rem_nonzero a b =
     (case (a, b) of (Some x, Some y) \<Rightarrow> y = 0 \<or> x mod y \<noteq> 0 | _ \<Rightarrow> True)"

definition step :: "page \<Rightarrow> form \<Rightarrow> fval \<Rightarrow> nat \<Rightarrow> pval \<Rightarrow> mres result" where
  "step pg f value i param =
     (let type = obj_get (el_attrs (f ! i)) ''type'';
          type_text = (case type of Some t \<Rightarrow> t | None \<Rightarrow> ''undefined'')
      in rbind (new_RegExp (bs ''@b'' @ type_text @ bs ''@b'')) (\<lambda>re.
         if (case type of Some t \<Rightarrow> t \<noteq> [] \<and> \<not> rx_test re False ''text,number,range'' | None \<Rightarrow> False)
         then Inl (Error (''Step attribute on input type '' @ type_text @ '' is not supported.''))
         else
           let decimals = decimalPlaces (p_text param) in
           rbind (if decimalPlaces (v_text value) > decimals then Inr True
                  else rbind (p_number (p_of_value value)) (\<lambda>v. rbind (p_number param) (\<lambda>p.
                         Inr (rem_nonzero (toInt decimals v) (toInt decimals p)))))
             (\<lambda>bad. or_optional pg f i (Inr (\<not> bad)))))"

end
