(* ===== verification/Jv_Rules.thy ===== *)
theory Jv_Rules
  imports Jv_Core
begin

text \<open>
  How jquery.validate.js finds the rules of a field: \<^verbatim>\<open>normalizeRule\<close>, \<^verbatim>\<open>classRules\<close>, \<^verbatim>\<open>attributeRules\<close>,
  \<^verbatim>\<open>dataRules\<close>, \<^verbatim>\<open>staticRules\<close>, \<^verbatim>\<open>normalizeRules\<close> and \<^verbatim>\<open>$.fn.rules\<close>, with its commands \<^verbatim>\<open>add\<close> and
  \<^verbatim>\<open>remove\<close>. A set of rules is an object in property order; the methods are called in that order.

  \<open>registry\<close> is what \<^verbatim>\<open>$.validator\<close> keeps: the names of \<^verbatim>\<open>$.validator.methods\<close> in order, the class
  rules and the flag \<^verbatim>\<open>autoCreateRanges\<close>.
\<close>

type_synonym rules = "(string \<times> pval) list"

record registry =
  reg_methods    :: "string list"
  reg_classRules :: "(string \<times> rules) list"
  reg_autoRanges :: bool

section \<open>Objects\<close>

text \<open>\<^verbatim>\<open>$.extend(target, source)\<close>: undefined properties are not copied.\<close>

definition jq_extend :: "rules \<Rightarrow> rules \<Rightarrow> rules" where
  "jq_extend target source = obj_spread target (filter (\<lambda>(k, v). v \<noteq> PUndef) source)"

definition rule_get :: "rules \<Rightarrow> string \<Rightarrow> pval" where
  "rule_get rules k = (case obj_get rules k of Some v \<Rightarrow> v | None \<Rightarrow> PUndef)"

text \<open>\<^verbatim>\<open>s.split(/\s/)\<close>: a part between any two white space characters, possibly empty.\<close>

fun split_space :: "string \<Rightarrow> string list" where
  "split_space [] = [[]]"
| "split_space (c # s) =
     (if is_space c then [] # split_space s
      else (case split_space s of p # ps \<Rightarrow> (c # p) # ps | [] \<Rightarrow> [[c]]))"

text \<open>\<^verbatim>\<open>s.split(/[\s,]+/)\<close>: the separators are runs of white space and commas.\<close>

fun split_runs :: "bool \<Rightarrow> string \<Rightarrow> string list" where
  "split_runs sep [] = [[]]"
| "split_runs sep (c # s) =
     (if is_space c \<or> c = CHR '','' then (if sep then split_runs True s else [] # split_runs True s)
      else (case split_runs False s of p # ps \<Rightarrow> (c # p) # ps | [] \<Rightarrow> [[c]]))"

section \<open>Sources of rules\<close>

definition normalizeRule :: "pval \<Rightarrow> pval" where
  "normalizeRule data =
     (case data of
        PStr s \<Rightarrow> PObj (foldl (\<lambda>o' w. obj_set w (PBool True) o') [] (split_space s))
      | d \<Rightarrow> d)"

definition addClassRules :: "string + (string \<times> rules) list \<Rightarrow> rules \<Rightarrow> (string \<times> rules) list \<Rightarrow> (string \<times> rules) list" where
  "addClassRules className rules settings =
     (case className of
        Inl n \<Rightarrow> obj_set n rules settings
      | Inr cs \<Rightarrow> obj_spread settings cs)"

definition classRuleSettings :: "(string \<times> rules) list" where
  "classRuleSettings =
     map (\<lambda>n. (n, [(n, PBool True)]))
       [''required'', ''email'', ''url'', ''date'', ''dateISO'', ''number'', ''digits'', ''creditcard'']"

definition classRules :: "registry \<Rightarrow> element \<Rightarrow> rules" where
  "classRules reg e =
     (case obj_get (el_attrs e) ''class'' of
        None \<Rightarrow> []
      | Some classes \<Rightarrow>
          if classes = [] then []
          else foldl (\<lambda>rules c. case obj_get (reg_classRules reg) c of
                                  Some rs \<Rightarrow> jq_extend rules rs | None \<Rightarrow> rules)
                 [] (split_on CHR '' '' classes))"

text \<open>\<open>Number(value)\<close> of an attribute or a data value; the type is the attribute \<^verbatim>\<open>type\<close> (\<open>None\<close>: null).\<close>

definition normalizeAttributeRule :: "rules \<Rightarrow> string option \<Rightarrow> string \<Rightarrow> pval \<Rightarrow> rules result" where
  "normalizeAttributeRule rules type method v =
     rbind
       (if re_test False ''min|max|step'' method \<and>
           (case type of None \<Rightarrow> True | Some t \<Rightarrow> re_test False ''number|range|text'' t)
        then rbind (p_number v) (\<lambda>n. Inr (if n = NaN then PUndef else PNum n))
        else Inr v)
       (\<lambda>v'. Inr (if p_truthy v' \<or> v' = PNum (Dec 0 0) then obj_set method v' rules
                  else if type = Some method \<and> type \<noteq> Some ''range'' then obj_set method (PBool True) rules
                  else rules))"

fun each_method :: "(rules \<Rightarrow> string \<Rightarrow> rules result) \<Rightarrow> string list \<Rightarrow> rules \<Rightarrow> rules result" where
  "each_method f [] rules = Inr rules"
| "each_method f (m # ms) rules = rbind (f rules m) (each_method f ms)"

definition attr_value :: "element \<Rightarrow> string \<Rightarrow> pval" where
  "attr_value e method =
     (if method = ''required'' then PBool (obj_get (el_attrs e) method \<noteq> None)
      else (case obj_get (el_attrs e) method of Some v \<Rightarrow> PStr v | None \<Rightarrow> PUndef))"

definition attributeRules :: "registry \<Rightarrow> element \<Rightarrow> rules result" where
  "attributeRules reg e =
     rbind (each_method
              (\<lambda>rules method. normalizeAttributeRule rules (obj_get (el_attrs e) ''type'') method (attr_value e method))
              (reg_methods reg) [])
       (\<lambda>rules. Inr (if p_truthy (rule_get rules ''maxlength'') \<and>
                        re_test False ''-1|2147483647|524288'' (p_text (rule_get rules ''maxlength''))
                     then obj_del ''maxlength'' rules else rules))"

definition data_key :: "string \<Rightarrow> string \<Rightarrow> string" where
  "data_key pre method = pre @ toUpperCase (take 1 method) @ toLowerCase (drop 1 method)"

definition data_value :: "element \<Rightarrow> string \<Rightarrow> pval" where
  "data_value e k = (case obj_get (el_data e) k of Some v \<Rightarrow> v | None \<Rightarrow> PUndef)"

definition dataRules :: "registry \<Rightarrow> element \<Rightarrow> rules result" where
  "dataRules reg e =
     each_method
       (\<lambda>rules method. normalizeAttributeRule rules (obj_get (el_attrs e) ''type'') method
                         (data_value e (data_key ''rule'' method)))
       (reg_methods reg) []"

definition staticRules :: "(string \<times> pval) list \<Rightarrow> element \<Rightarrow> rules" where
  "staticRules settings_rules e =
     (case normalizeRule (rule_get settings_rules (el_name e)) of PObj rs \<Rightarrow> rs | _ \<Rightarrow> [])"

section \<open>Normalizing the rules of a field\<close>

text \<open>
  The first pass: rules that are \<^verbatim>\<open>false\<close> go, rules with \<^verbatim>\<open>depends\<close> or \<^verbatim>\<open>param\<close> are decided. The rules
  already decided are in \<open>acc\<close>.
\<close>

definition keeps_rule :: "page \<Rightarrow> pval \<Rightarrow> nat \<Rightarrow> bool" where
  "keeps_rule pg depends i =
     (case depends of
        PStr s \<Rightarrow> pg_matches pg s \<noteq> 0
      | PFun k \<Rightarrow> p_truthy (pg_call pg k i)
      | _ \<Rightarrow> True)"

definition decide_rule :: "page \<Rightarrow> nat \<Rightarrow> pval \<Rightarrow> pval option result" where
  "decide_rule pg i v =
     (case v of
        PBool False \<Rightarrow> Inr None
      | PUndef \<Rightarrow> Inl (TypeError (''Cannot read properties of undefined (reading '' @ sq ''param'' @ '')''))
      | PNull \<Rightarrow> Inl (TypeError (''Cannot read properties of null (reading '' @ sq ''param'' @ '')''))
      | PObj ps \<Rightarrow>
          if p_truthy (rule_get ps ''param'') \<or> p_truthy (rule_get ps ''depends'') then
            Inr (if keeps_rule pg (rule_get ps ''depends'') i
                 then Some (if rule_get ps ''param'' \<noteq> PUndef then rule_get ps ''param'' else PBool True)
                 else None)
          else Inr (Some v)
      | v' \<Rightarrow> Inr (Some v'))"

fun decide_rules :: "page \<Rightarrow> nat \<Rightarrow> rules \<Rightarrow> rules result" where
  "decide_rules pg i [] = Inr []"
| "decide_rules pg i ((k, v) # rs) =
     rbind (decide_rule pg i v) (\<lambda>d.
     rbind (decide_rules pg i rs) (\<lambda>rs'. Inr (case d of Some w \<Rightarrow> (k, w) # rs' | None \<Rightarrow> rs')))"

definition eval_param :: "page \<Rightarrow> nat \<Rightarrow> string \<Rightarrow> pval \<Rightarrow> pval" where
  "eval_param pg i rule parameter =
     (case parameter of PFun k \<Rightarrow> if rule \<noteq> ''normalizer'' then pg_call pg k i else parameter | p \<Rightarrow> p)"

definition clean_length :: "string \<Rightarrow> rules \<Rightarrow> rules result" where
  "clean_length k rules =
     (if p_truthy (rule_get rules k)
      then rbind (p_number (rule_get rules k)) (\<lambda>n. Inr (obj_set k (PNum n) rules)) else Inr rules)"

definition two_numbers :: "pval \<Rightarrow> pval \<Rightarrow> pval result" where
  "two_numbers a b = rbind (p_number a) (\<lambda>m. rbind (p_number b) (\<lambda>n. Inr (PArr [PNum m, PNum n])))"

definition nth_or_undef :: "pval list \<Rightarrow> nat \<Rightarrow> pval" where
  "nth_or_undef xs k = (if k < length xs then xs ! k else PUndef)"

definition clean_range :: "string \<Rightarrow> rules \<Rightarrow> rules result" where
  "clean_range k rules =
     (if p_truthy (rule_get rules k) then
        (case rule_get rules k of
           PArr xs \<Rightarrow>
             rbind (two_numbers (nth_or_undef xs 0) (nth_or_undef xs 1)) (\<lambda>p. Inr (obj_set k p rules))
         | PStr s \<Rightarrow>
             let parts = map PStr (split_runs False (re_replace False (bs ''[@[@]]'') [] s)) in
             rbind (two_numbers (nth_or_undef parts 0) (nth_or_undef parts 1)) (\<lambda>p. Inr (obj_set k p rules))
         | _ \<Rightarrow> Inr rules)
      else Inr rules)"

definition auto_range :: "string \<Rightarrow> string \<Rightarrow> string \<Rightarrow> rules \<Rightarrow> rules" where
  "auto_range lo hi both rules =
     (if rule_get rules lo \<notin> {PUndef, PNull} \<and> rule_get rules hi \<notin> {PUndef, PNull}
      then obj_del hi (obj_del lo (obj_set both (PArr [rule_get rules lo, rule_get rules hi]) rules))
      else rules)"

definition normalizeRules :: "registry \<Rightarrow> page \<Rightarrow> nat \<Rightarrow> rules \<Rightarrow> rules result" where
  "normalizeRules reg pg i rules0 =
     rbind (decide_rules pg i rules0) (\<lambda>r1.
     let r2 = map (\<lambda>(k, v). (k, eval_param pg i k v)) r1 in
     rbind (clean_length ''minlength'' r2) (\<lambda>r3.
     rbind (clean_length ''maxlength'' r3) (\<lambda>r4.
     rbind (clean_range ''rangelength'' r4) (\<lambda>r5.
     rbind (clean_range ''range'' r5) (\<lambda>r6.
     Inr (if reg_autoRanges reg
          then auto_range ''minlength'' ''maxlength'' ''rangelength'' (auto_range ''min'' ''max'' ''range'' r6)
          else r6))))))"

section \<open>The rules of a field\<close>

definition required_first :: "rules \<Rightarrow> rules" where
  "required_first data =
     (if p_truthy (rule_get data ''required'')
      then jq_extend [(''required'', rule_get data ''required'')] (obj_del ''required'' data) else data)"

definition remote_last :: "rules \<Rightarrow> rules" where
  "remote_last data =
     (if p_truthy (rule_get data ''remote'')
      then jq_extend (obj_del ''remote'' data) [(''remote'', rule_get data ''remote'')] else data)"

definition field_rules :: "registry \<Rightarrow> page \<Rightarrow> (string \<times> pval) list \<Rightarrow> form \<Rightarrow> nat \<Rightarrow> rules result" where
  "field_rules reg pg settings_rules f i =
     (let e = f ! i in
      rbind (attributeRules reg e) (\<lambda>attrs.
      rbind (dataRules reg e) (\<lambda>dta.
      rbind (normalizeRules reg pg i
               (jq_extend (jq_extend (jq_extend (jq_extend [] (classRules reg e)) attrs) dta)
                  (staticRules settings_rules e)))
        (\<lambda>data. Inr (remote_last (required_first data))))))"

text \<open>
  The commands of \<^verbatim>\<open>$.fn.rules\<close> change the settings: \<^verbatim>\<open>add\<close> extends the field's rules (its messages go
  to the messages of the settings), \<^verbatim>\<open>remove\<close> deletes the named ones, or all of them.
\<close>

definition rules_add ::
    "pval \<Rightarrow> element \<Rightarrow> (string \<times> pval) list \<Rightarrow> (string \<times> pval) list \<Rightarrow> (string \<times> pval) list \<times> (string \<times> pval) list" where
  "rules_add argument e settings_rules messages =
     (let added = (case normalizeRule argument of PObj rs \<Rightarrow> rs | _ \<Rightarrow> []);
          existing = obj_del ''messages'' (jq_extend (staticRules settings_rules e) added)
      in (obj_set (el_name e) (PObj existing) settings_rules,
          case (case argument of PObj rs \<Rightarrow> rule_get rs ''messages'' | _ \<Rightarrow> PUndef) of
            PObj ms \<Rightarrow>
              obj_set (el_name e)
                (PObj (jq_extend (case rule_get messages (el_name e) of PObj old \<Rightarrow> old | _ \<Rightarrow> []) ms)) messages
          | _ \<Rightarrow> messages))"

fun take_out :: "string list \<Rightarrow> rules \<Rightarrow> rules \<Rightarrow> rules \<times> rules" where
  "take_out [] filtered existing = (filtered, existing)"
| "take_out (m # ms) filtered existing =
     take_out ms (obj_set m (rule_get existing m) filtered) (obj_del m existing)"

definition rules_remove ::
    "string option \<Rightarrow> element \<Rightarrow> (string \<times> pval) list \<Rightarrow> rules \<times> (string \<times> pval) list" where
  "rules_remove argument e settings_rules =
     (let existing = staticRules settings_rules e in
      if argument = None \<or> argument = Some [] then (existing, obj_del (el_name e) settings_rules)
      else
        let (filtered, rest) = take_out (split_space (the argument)) [] existing
        in (filtered,
            case obj_get settings_rules (el_name e) of
              Some (PObj _) \<Rightarrow> obj_set (el_name e) (PObj rest) settings_rules
            | _ \<Rightarrow> settings_rules))"

section \<open>Laws of the objects\<close>

lemma distinct_filter_keys: "distinct (obj_keys ps) \<Longrightarrow> distinct (obj_keys (filter P ps))"
  by (induction ps) auto

lemma distinct_jq_extend [simp]: "distinct (obj_keys a) \<Longrightarrow> distinct (obj_keys (jq_extend a b))"
  by (simp add: jq_extend_def)

lemma obj_get_filter:
  "distinct (obj_keys ps) \<Longrightarrow>
   obj_get (filter (\<lambda>(k, v). P v) ps) k = (case obj_get ps k of Some v \<Rightarrow> if P v then Some v else None | None \<Rightarrow> None)"
proof (induction ps)
  case (Cons p ps)
  have "k \<notin> fst ` set ps \<Longrightarrow> obj_get (filter (\<lambda>(k, v). P v) ps) k = None"
    using image_iff by (fastforce simp: obj_get_None_iff)
  with Cons show ?case by (cases p) (auto split: option.splits)
qed simp

lemma rule_get_jq_extend:
  assumes "distinct (obj_keys b)"
  shows "rule_get (jq_extend a b) k = (if rule_get b k \<noteq> PUndef then rule_get b k else rule_get a k)"
proof -
  have "distinct (obj_keys (filter (\<lambda>(k, v). v \<noteq> PUndef) b))" using assms by (rule distinct_filter_keys)
  then show ?thesis
    using obj_get_filter [OF assms, of "\<lambda>v. v \<noteq> PUndef" k]
    by (auto simp: rule_get_def jq_extend_def obj_get_spread split: option.splits)
qed

lemma rule_get_set [simp]: "rule_get (obj_set k v rs) k' = (if k' = k then v else rule_get rs k')"
  by (simp add: rule_get_def)

lemma rule_get_del [simp]: "rule_get (obj_del k rs) k' = (if k' = k then PUndef else rule_get rs k')"
  by (simp add: rule_get_def)

lemma rule_get_mem: "distinct (obj_keys rs) \<Longrightarrow> (k, v) \<in> set rs \<Longrightarrow> rule_get rs k = v"
  by (induction rs) (auto simp: rule_get_def split: if_splits option.splits, force+)

section \<open>Order of the rules\<close>

lemma decide_rules_keys:
  "decide_rules pg i rs = Inr rs' \<Longrightarrow> subseq (obj_keys rs') (obj_keys rs)"
proof (induction rs arbitrary: rs')
  case (Cons p rs)
  obtain k v where p: "p = (k, v)" by (cases p)
  with Cons.prems obtain d rs'' where d: "decide_rules pg i rs = Inr rs''"
    "rs' = (case d of Some w \<Rightarrow> (k, w) # rs'' | None \<Rightarrow> rs'')" by (auto simp: rbind_Inr_iff)
  with Cons.IH [OF d(1)] p show ?case by (cases d) auto
qed simp

lemma subseq_distinct': "subseq xs ys \<Longrightarrow> distinct ys \<Longrightarrow> distinct xs"
  by (induction rule: list_emb.induct) (auto dest: list_emb_set)

lemma decide_rules_distinct:
  "decide_rules pg i rs = Inr rs' \<Longrightarrow> distinct (obj_keys rs) \<Longrightarrow> distinct (obj_keys rs')"
  using decide_rules_keys [of pg i rs rs'] by (meson subseq_distinct')

lemma clean_length_cases:
  assumes "clean_length k r = Inr r'" "distinct (obj_keys r)"
  shows "distinct (obj_keys r')" "k' \<noteq> k \<Longrightarrow> rule_get r' k' = rule_get r k'"
    "\<not> p_truthy (rule_get r' k) \<or> (\<exists>n. rule_get r' k = PNum n)"
  using assms by (auto simp: clean_length_def rbind_Inr_iff split: if_splits)

lemma clean_range_cases:
  assumes "clean_range k r = Inr r'" "distinct (obj_keys r)"
  shows "distinct (obj_keys r')" "k' \<noteq> k \<Longrightarrow> rule_get r' k' = rule_get r k'"
    "\<not> p_truthy (rule_get r' k) \<or> (\<exists>a b. rule_get r' k = PArr [PNum a, PNum b]) \<or>
     (\<forall>xs s. rule_get r' k \<noteq> PArr xs \<and> rule_get r' k \<noteq> PStr s)"
  using assms
  by (auto simp: clean_range_def rbind_Inr_iff two_numbers_def Let_def split: if_splits pval.splits)

lemma distinct_auto_range [simp]: "distinct (obj_keys r) \<Longrightarrow> distinct (obj_keys (auto_range lo hi both r))"
  by (simp add: auto_range_def)

lemma normalizeRules_stages:
  assumes "normalizeRules reg pg i r0 = Inr rs" "distinct (obj_keys r0)"
  obtains r2 r3 r4 r5 r6 where "distinct (obj_keys r2)" "clean_length ''minlength'' r2 = Inr r3"
    "clean_length ''maxlength'' r3 = Inr r4" "clean_range ''rangelength'' r4 = Inr r5"
    "clean_range ''range'' r5 = Inr r6" "\<not> reg_autoRanges reg \<Longrightarrow> rs = r6" "distinct (obj_keys rs)"
proof -
  from assms(1) obtain r1 r3 r4 r5 r6 where r: "decide_rules pg i r0 = Inr r1"
      "clean_length ''minlength'' (map (\<lambda>(k, v). (k, eval_param pg i k v)) r1) = Inr r3"
      "clean_length ''maxlength'' r3 = Inr r4" "clean_range ''rangelength'' r4 = Inr r5"
      "clean_range ''range'' r5 = Inr r6"
      "rs = (if reg_autoRanges reg
         then auto_range ''minlength'' ''maxlength'' ''rangelength'' (auto_range ''min'' ''max'' ''range'' r6) else r6)"
    unfolding normalizeRules_def Let_def rbind_Inr_iff by auto
  let ?r2 = "map (\<lambda>(k, v). (k, eval_param pg i k v)) r1"
  have "distinct (obj_keys ?r2)"
    using decide_rules_distinct [OF r(1) assms(2)] by (simp add: comp_def case_prod_beta)
  moreover from this have "distinct (obj_keys r6)"
    using r clean_length_cases(1) clean_range_cases(1) by blast
  then have "distinct (obj_keys rs)" using r(6) by simp
  ultimately show ?thesis by (intro that [OF _ r(2-5)]) (use r(6) in auto)
qed

lemma obj_spread_Cons: "\<exists>v r. obj_spread ((k, w) # a) b = (k, v) # r"
proof (induction b arbitrary: w a)
  case (Cons p b)
  then show ?case by (cases p) auto
qed simp

lemma required_first_hd:
  assumes "p_truthy (rule_get data ''required'')"
  shows "\<exists>v r. required_first data = (''required'', v) # r"
  using assms obj_spread_Cons by (auto simp: required_first_def jq_extend_def)

lemma distinct_required_first: "distinct (obj_keys d) \<Longrightarrow> distinct (obj_keys (required_first d))"
  by (simp add: required_first_def)

lemma rule_get_required_first:
  "distinct (obj_keys d) \<Longrightarrow> rule_get (required_first d) k = rule_get d k"
  by (auto simp: required_first_def rule_get_jq_extend) (auto simp: rule_get_def)

lemma remote_last_alt:
  assumes "p_truthy (rule_get d ''remote'')"
  shows "remote_last d = obj_del ''remote'' d @ [(''remote'', rule_get d ''remote'')]"
proof -
  have "rule_get d ''remote'' \<noteq> PUndef" using assms by auto
  then show ?thesis using assms by (simp add: remote_last_def jq_extend_def obj_set_fresh)
qed

lemma rule_get_remote_last:
  "distinct (obj_keys d) \<Longrightarrow> rule_get (remote_last d) k = rule_get d k"
  by (auto simp: remote_last_def rule_get_jq_extend) (auto simp: rule_get_def)

lemma distinct_remote_last: "distinct (obj_keys d) \<Longrightarrow> distinct (obj_keys (remote_last d))"
  by (simp add: remote_last_def)

lemma field_rules_data:
  assumes "field_rules reg pg sr f i = Inr rs"
  obtains r0 data where "normalizeRules reg pg i r0 = Inr data" "distinct (obj_keys r0)"
    "rs = remote_last (required_first data)"
  using assms unfolding field_rules_def Let_def rbind_Inr_iff by (auto intro!: that)

text \<open>
  C22: The rules of a field come in an order that the checks rely on: every method occurs once, a rule
  \<^verbatim>\<open>required\<close> that is set is the first and a rule \<^verbatim>\<open>remote\<close> that is set is the last, so that an empty
  field is reported as missing before any other rule is tried, and the server is asked only when all
  other rules hold.
\<close>

theorem field_rules_order:
  assumes "field_rules reg pg sr f i = Inr rs"
  shows "distinct (obj_keys rs) \<and>
    (p_truthy (rule_get rs ''required'') \<longrightarrow> rs \<noteq> [] \<and> fst (hd rs) = ''required'') \<and>
    (p_truthy (rule_get rs ''remote'') \<longrightarrow> rs \<noteq> [] \<and> fst (last rs) = ''remote'')"
proof -
  from assms obtain r0 data where r0: "normalizeRules reg pg i r0 = Inr data" "distinct (obj_keys r0)"
    and rs: "rs = remote_last (required_first data)" by (rule field_rules_data)
  have data: "distinct (obj_keys data)" using normalizeRules_stages [OF r0] by metis
  let ?d = "required_first data"
  have d: "distinct (obj_keys ?d)" using data by (rule distinct_required_first)
  have same: "rule_get rs k = rule_get ?d k" "rule_get ?d k = rule_get data k" for k
    using rs d data by (simp_all add: rule_get_remote_last rule_get_required_first)
  have "rs \<noteq> [] \<and> fst (hd rs) = ''required''" if "p_truthy (rule_get rs ''required'')"
  proof -
    have "p_truthy (rule_get data ''required'')" using that unfolding same .
    then obtain v r where "?d = (''required'', v) # r" using required_first_hd by blast
    moreover have "remote_last ((''required'', v) # r) \<noteq> [] \<and>
        fst (hd (remote_last ((''required'', v) # r))) = ''required''"
      using obj_spread_Cons [of "''required''" v] by (auto simp: remote_last_def jq_extend_def)
    ultimately show ?thesis using rs by simp
  qed
  moreover have "rs \<noteq> [] \<and> fst (last rs) = ''remote''" if "p_truthy (rule_get rs ''remote'')"
    using that same rs remote_last_alt [of ?d] by simp
  ultimately show ?thesis using distinct_remote_last [OF d] rs by blast
qed

definition sample_field :: element where
  "sample_field =
     \<lparr>el_name = ''code'', el_id = ''code'', el_node = ''INPUT'', el_type = ''text'',
      el_attrs = [(''type'', ''text''), (''minlength'', ''3''), (''required'', [])], el_val = VStr ''ab'', el_text = [],
      el_checked = False, el_selected = 0, el_badInput = None, el_data = [], el_title = [],
      el_ignored = False, el_input = True, el_button = False\<rparr>"

definition sample_registry :: registry where
  "sample_registry =
     \<lparr>reg_methods = [''minlength'', ''remote'', ''required''], reg_classRules = [], reg_autoRanges = False\<rparr>"

definition sample_page :: page where
  "sample_page = \<lparr>pg_matches = (\<lambda>s. 0), pg_call = (\<lambda>k i. PUndef), pg_date = (\<lambda>s. s)\<rparr>"

lemma sample_field_rules:
  "field_rules sample_registry sample_page
     [(''code'', PObj [(''remote'', PStr ''/check''), (''range'', PStr ''[1, 5]'')])] [sample_field] 0 =
   Inr [(''required'', PBool True), (''minlength'', PNum (Dec 3 0)),
        (''range'', PArr [PNum (Dec 1 0), PNum (Dec 5 0)]), (''remote'', PStr ''/check'')]"
  by code_simp

theorem field_rules_order_witness:
  "\<exists>rs. field_rules sample_registry sample_page
     [(''code'', PObj [(''remote'', PStr ''/check''), (''range'', PStr ''[1, 5]'')])] [sample_field] 0 = Inr rs \<and>
     fst (hd rs) = ''required'' \<and> fst (last rs) = ''remote''"
  using field_rules_order [OF sample_field_rules] sample_field_rules by (auto simp: rule_get_def)

section \<open>Types of the parameters\<close>

definition length_param :: "pval \<Rightarrow> bool" where
  "length_param v \<longleftrightarrow> \<not> p_truthy v \<or> (\<exists>n. v = PNum n)"

definition range_param :: "pval \<Rightarrow> bool" where
  "range_param v \<longleftrightarrow> \<not> p_truthy v \<or> (\<exists>a b. v = PArr [PNum a, PNum b]) \<or>
     (\<forall>xs s. v \<noteq> PArr xs \<and> v \<noteq> PStr s)"



end
