(* ===== verification/Jv_Validator.thy ===== *)
theory Jv_Validator
  imports Jv_Rules
begin

text \<open>
  The validator object of jquery.validate.js: its state, the checking of fields and of the form,
  messages, remote checks with their pending requests, and the event handlers of the form.

  A method of the validator is a computation \<open>'a vm\<close>: it returns a value or throws, and changes the
  state in both cases. What it does to the document (labels, classes, focus, the submission itself)
  is written to the log \<open>vs_log\<close>. The form with the values the user has entered is an argument, a
  field is an index into it. The requests under way are kept by port (\<^verbatim>\<open>"validate" + name\<close>), as the
  ajax prefilter keeps them in \<^verbatim>\<open>pendingRequests\<close>. The maps by name are objects of the
  code without the properties every object inherits: no field is called \<^verbatim>\<open>constructor\<close> or the like.
\<close>

section \<open>State\<close>

datatype inv_mark = IBool bool | IMsg string

record verror =
  er_message :: string
  er_element :: "nat option"
  er_method  :: "string option"

record previous =
  pv_old             :: "string option"
  pv_valid           :: bool
  pv_message         :: string
  pv_originalMessage :: pval

record ajax_request =
  rq_element  :: nat
  rq_previous :: nat
  rq_name     :: string
  rq_value    :: fval

datatype veffect =
    EInvalidForm
  | EShow "verror list" "nat list"
  | EAria nat bool
  | EPendingClass nat bool
  | EAjax string
  | EAbort string
  | EFocus nat
  | EHidden string
  | EHiddenGone string
  | EHandler
  | EHideErrors
  | EHideContainers
  | EUnhighlight nat
  | ESend

record vstate =
  vs_rules           :: "(string \<times> pval) list"
  vs_messages        :: "(string \<times> pval) list"
  vs_groups          :: "(string \<times> string) list"
  vs_submitted       :: "(string \<times> string) list"
  vs_invalid         :: "(string \<times> inv_mark) list"
  vs_pending         :: "string list"
  vs_pendingRequest  :: int
  vs_errorList       :: "verror list"
  vs_errorMap        :: "(string \<times> string) list"
  vs_successList     :: "nat list"
  vs_currentElements :: "nat list"
  vs_formSubmitted   :: bool
  vs_cancelSubmit    :: bool
  vs_submitButton    :: "(string \<times> string) option"
  vs_lastActive      :: "nat option"
  vs_previousOf      :: "(nat \<times> nat) list"
  vs_previous        :: "previous list"
  vs_blurBound       :: "string list"
  vs_inflight        :: "(string \<times> ajax_request) list"
  vs_log             :: "veffect list"

type_synonym 'a vm = "vstate \<Rightarrow> 'a result \<times> vstate"

definition vret :: "'a \<Rightarrow> 'a vm" where
  "vret x s = (Inr x, s)"

definition vbind :: "'a vm \<Rightarrow> ('a \<Rightarrow> 'b vm) \<Rightarrow> 'b vm" where
  "vbind m k s = (case m s of (Inl e, s') \<Rightarrow> (Inl e, s') | (Inr x, s') \<Rightarrow> k x s')"

definition vlift :: "'a result \<Rightarrow> 'a vm" where
  "vlift r s = (r, s)"

definition vget :: "(vstate \<Rightarrow> 'a) \<Rightarrow> 'a vm" where
  "vget f s = (Inr (f s), s)"

definition vmod :: "(vstate \<Rightarrow> vstate) \<Rightarrow> unit vm" where
  "vmod f s = (Inr (), f s)"

definition vlog :: "veffect \<Rightarrow> unit vm" where
  "vlog e = vmod (\<lambda>s. s\<lparr>vs_log := vs_log s @ [e]\<rparr>)"

text \<open>
  The settings that do not change, \<^verbatim>\<open>$.validator\<close> and the page. \<open>cf_message\<close> calls a message function of
  the page with the parameters of the rule, \<open>cf_param\<close> is \<^verbatim>\<open>$.param\<close> on the value and the data of a
  remote rule, \<open>cf_target\<close> the value \<^verbatim>\<open>$(param).val()\<close> of the target of \<^verbatim>\<open>equalTo\<close>. \<open>cf_normalizer\<close>
  calls a normalizer; \<open>None\<close> is a result that is no text.
\<close>

record config =
  cf_page         :: page
  cf_registry     :: registry
  cf_messages     :: "(string \<times> (string + string)) list"
  cf_message      :: "nat \<Rightarrow> pval \<Rightarrow> nat \<Rightarrow> string"
  cf_param        :: "fval \<Rightarrow> pval \<Rightarrow> string"
  cf_target       :: "pval \<Rightarrow> fval"
  cf_normalizer   :: "nat \<Rightarrow> fval \<Rightarrow> string option"
  cf_globalNorm   :: "nat option"
  cf_debug        :: bool
  cf_ignoreTitle  :: bool
  cf_focusInvalid :: bool
  cf_focusCleanup :: bool
  cf_onfocusin    :: bool
  cf_onfocusout   :: bool
  cf_onkeyup      :: bool
  cf_onclick      :: bool
  cf_handler      :: "bool option"

section \<open>Messages\<close>

text \<open>\<^verbatim>\<open>message.replace(/\$?\{(\d+)\}/g, "{$1}")\<close>: a dollar sign before a placeholder goes.\<close>

definition placeholder_end :: "string \<Rightarrow> bool" where
  "placeholder_end s =
     (case s of
        c # r \<Rightarrow> c = CHR ''{'' \<and> takeWhile is_digit r \<noteq> [] \<and>
                 (case dropWhile is_digit r of d # _ \<Rightarrow> d = CHR ''}'' | [] \<Rightarrow> False)
      | [] \<Rightarrow> False)"

fun undollar :: "string \<Rightarrow> string" where
  "undollar [] = []"
| "undollar (c # s) =
     (if c = CHR ''$'' \<and> placeholder_end s then undollar s else c # undollar s)"

fun has_placeholder :: "string \<Rightarrow> bool" where
  "has_placeholder [] = False"
| "has_placeholder (c # s) = (placeholder_end (c # s) \<or> has_placeholder s)"

datatype message = MVal pval | MFormat string

definition customMessage :: "vstate \<Rightarrow> string \<Rightarrow> string \<Rightarrow> pval" where
  "customMessage s name method =
     (let m = rule_get (vs_messages s) name in
      if \<not> p_truthy m then m
      else (case m of PStr t \<Rightarrow> PStr t | PObj ms \<Rightarrow> rule_get ms method | _ \<Rightarrow> PUndef))"

definition customDataMessage :: "element \<Rightarrow> string \<Rightarrow> pval" where
  "customDataMessage e method =
     (let m = data_value e (data_key ''msg'' method) in if p_truthy m then m else data_value e ''msg'')"

fun findDefined :: "message list \<Rightarrow> message" where
  "findDefined [] = MVal PUndef"
| "findDefined (m # ms) = (if m \<noteq> MVal PUndef then m else findDefined ms)"

definition defaultMessage :: "config \<Rightarrow> vstate \<Rightarrow> form \<Rightarrow> nat \<Rightarrow> string \<Rightarrow> pval \<Rightarrow> string" where
  "defaultMessage cf s f i method params =
     (let e = f ! i;
          message = findDefined
            [MVal (customMessage s (el_name e) method),
             MVal (customDataMessage e method),
             MVal (if \<not> cf_ignoreTitle cf \<and> el_title e \<noteq> [] then PStr (el_title e) else PUndef),
             (case obj_get (cf_messages cf) method of
                Some (Inl t) \<Rightarrow> MVal (PStr t) | Some (Inr t) \<Rightarrow> MFormat t | None \<Rightarrow> MVal PUndef),
             MVal (PStr (''<strong>Warning: No message defined for '' @ el_name e @ ''</strong>''))]
      in case message of
           MFormat t \<Rightarrow> validator_format t params
         | MVal (PFun k) \<Rightarrow> cf_message cf k params i
         | MVal m \<Rightarrow>
             let t = p_text m in
             if has_placeholder t then validator_format (undollar t) params else t)"

section \<open>Checking a field\<close>

definition validationTargetFor :: "form \<Rightarrow> nat \<Rightarrow> nat option" where
  "validationTargetFor f i =
     (let es = (if checkable (f ! i) then findByName f (el_name (f ! i)) else [i])
      in case filter (\<lambda>j. \<not> el_ignored (f ! j)) es of j # _ \<Rightarrow> Some j | [] \<Rightarrow> None)"

definition countsp :: "pval \<Rightarrow> bool" where
  "countsp v \<longleftrightarrow> v \<noteq> PUndef \<and> v \<noteq> PNull \<and> v \<noteq> PBool False"

definition objectLength :: "rules \<Rightarrow> nat" where
  "objectLength obj = length (filter (\<lambda>(k, v). countsp v) obj)"

definition numberOfInvalids :: "vstate \<Rightarrow> nat" where
  "numberOfInvalids s = length (filter (\<lambda>(k, m). m \<noteq> IBool False) (vs_invalid s))"

definition formatAndAdd :: "config \<Rightarrow> form \<Rightarrow> nat \<Rightarrow> string \<Rightarrow> pval \<Rightarrow> unit vm" where
  "formatAndAdd cf f i method params =
     vmod (\<lambda>s.
       let message = defaultMessage cf s f i method params; name = el_name (f ! i) in
       s\<lparr>vs_errorList := vs_errorList s @ [\<lparr>er_message = message, er_element = Some i, er_method = Some method\<rparr>],
         vs_errorMap := obj_set name message (vs_errorMap s),
         vs_submitted := obj_set name message (vs_submitted s)\<rparr>)"

datatype checked = CTrue | CFalse | CUndef

type_synonym vmethod = "config \<Rightarrow> form \<Rightarrow> fval \<Rightarrow> nat \<Rightarrow> pval \<Rightarrow> mres vm"

definition check_note :: "form \<Rightarrow> nat \<Rightarrow> string \<Rightarrow> string" where
  "check_note f i method =
     ''.  Exception occurred when checking element '' @ el_id (f ! i) @ '', check the '' @ sq method @ '' method.''"

text \<open>The call of a method, and the note the \<^verbatim>\<open>catch\<close> block adds to a \<^verbatim>\<open>TypeError\<close>.\<close>

definition call_method :: "(string \<times> vmethod) list \<Rightarrow> config \<Rightarrow> form \<Rightarrow> string \<Rightarrow> fval \<Rightarrow> nat \<Rightarrow> pval \<Rightarrow> mres vm" where
  "call_method mt cf f method val i param s =
     (case (case obj_get mt method of
              Some fn \<Rightarrow> fn cf f val i param s
            | None \<Rightarrow> (Inl (TypeError (''Cannot read properties of undefined (reading '' @ sq ''call'' @ '')'')), s)) of
        (Inl (TypeError m), s') \<Rightarrow> (Inl (TypeError (m @ check_note f i method)), s')
      | r \<Rightarrow> r)"

text \<open>
  The loop over the rules. A method that calls the field optional only counts as a mismatch when it
  is the only rule. The second argument is \<^verbatim>\<open>dependencyMismatch\<close>, \<open>rules\<close> the whole set.
\<close>

fun check_rules ::
    "(string \<times> vmethod) list \<Rightarrow> config \<Rightarrow> form \<Rightarrow> nat \<Rightarrow> fval \<Rightarrow> nat \<Rightarrow> rules \<Rightarrow> bool \<Rightarrow> rules \<Rightarrow> checked vm" where
  "check_rules mt cf f i val rulesCount rules mismatch [] =
     (if mismatch then vret CUndef
      else vbind (if objectLength rules \<noteq> 0
                  then vmod (\<lambda>s. s\<lparr>vs_successList := vs_successList s @ [i]\<rparr>) else vret ())
             (\<lambda>_. vret CTrue))"
| "check_rules mt cf f i val rulesCount rules mismatch ((method, param) # rs) =
     vbind (call_method mt cf f method val i param) (\<lambda>result.
       if result = Mismatch \<and> rulesCount = 1 then check_rules mt cf f i val rulesCount rules True rs
       else if result = Pending then vret CUndef
       else if \<not> m_truthy result then vbind (formatAndAdd cf f i method param) (\<lambda>_. vret CFalse)
       else check_rules mt cf f i val rulesCount rules False rs)"

definition normalizer_of :: "config \<Rightarrow> rules \<Rightarrow> nat option" where
  "normalizer_of cf rules = (case rule_get rules ''normalizer'' of PFun k \<Rightarrow> Some k | _ \<Rightarrow> cf_globalNorm cf)"

definition check :: "(string \<times> vmethod) list \<Rightarrow> config \<Rightarrow> form \<Rightarrow> nat \<Rightarrow> checked vm" where
  "check mt cf f i0 =
     (case validationTargetFor f i0 of
        None \<Rightarrow> vlift (Inl (TypeError (''Cannot read properties of undefined (reading '' @ sq ''type'' @ '')'')))
      | Some i \<Rightarrow>
          vbind (vget vs_rules) (\<lambda>sr.
          vbind (vlift (field_rules (cf_registry cf) (cf_page cf) sr f i)) (\<lambda>rules.
          vbind (vlift (elementValue f i)) (\<lambda>val.
            (case normalizer_of cf rules of
               None \<Rightarrow> check_rules mt cf f i val (length rules) rules False rules
             | Some k \<Rightarrow>
                 (case cf_normalizer cf k val of
                    None \<Rightarrow> vlift (Inl (TypeError ''The normalizer should return a string value.''))
                  | Some t \<Rightarrow>
                      let rules' = obj_del ''normalizer'' rules in
                      check_rules mt cf f i (VStr t) (length rules) rules' False rules'))))))"

section \<open>Checking the form\<close>

definition resetInternals :: "unit vm" where
  "resetInternals = vmod (\<lambda>s. s\<lparr>vs_successList := [], vs_errorList := [], vs_errorMap := []\<rparr>)"

text \<open>\<^verbatim>\<open>reset\<close>; \<^verbatim>\<open>prepareForm\<close> and \<^verbatim>\<open>prepareElement\<close> also choose the labels to hide.\<close>

definition reset :: "unit vm" where
  "reset = vbind resetInternals (\<lambda>_. vmod (\<lambda>s. s\<lparr>vs_currentElements := []\<rparr>))"

text \<open>\<^verbatim>\<open>elements()\<close>: the first field of each name that has rules.\<close>

fun elements_from :: "config \<Rightarrow> (string \<times> pval) list \<Rightarrow> form \<Rightarrow> nat list \<Rightarrow> string list \<Rightarrow> nat list result" where
  "elements_from cf sr f [] seen = Inr []"
| "elements_from cf sr f (i # is) seen =
     (let e = f ! i in
      if \<not> el_input e \<or> el_button e \<or> el_ignored e \<or> el_name e \<in> set seen then elements_from cf sr f is seen
      else rbind (field_rules (cf_registry cf) (cf_page cf) sr f i) (\<lambda>rules.
             if objectLength rules = 0 then elements_from cf sr f is seen
             else rbind (elements_from cf sr f is (el_name e # seen)) (\<lambda>es. Inr (i # es))))"

definition elements :: "config \<Rightarrow> (string \<times> pval) list \<Rightarrow> form \<Rightarrow> nat list result" where
  "elements cf sr f = elements_from cf sr f [0 ..< length f] []"

fun check_all :: "(string \<times> vmethod) list \<Rightarrow> config \<Rightarrow> form \<Rightarrow> nat list \<Rightarrow> unit vm" where
  "check_all mt cf f [] = vret ()"
| "check_all mt cf f (i # is) = vbind (check mt cf f i) (\<lambda>_. check_all mt cf f is)"

definition valid :: "vstate \<Rightarrow> bool" where
  "valid s \<longleftrightarrow> vs_errorList s = []"

definition checkForm :: "(string \<times> vmethod) list \<Rightarrow> config \<Rightarrow> form \<Rightarrow> bool vm" where
  "checkForm mt cf f =
     vbind reset (\<lambda>_.
     vbind (vget vs_rules) (\<lambda>sr.
     vbind (vlift (elements cf sr f)) (\<lambda>es.
     vbind (vmod (\<lambda>s. s\<lparr>vs_currentElements := es\<rparr>)) (\<lambda>_.
     vbind (check_all mt cf f es) (\<lambda>_.
     vget valid)))))"

text \<open>
  \<^verbatim>\<open>showErrors(errors)\<close>: errors given by name are added to the map, from which the list is made anew.
  Then the errors are shown and the other fields of \<^verbatim>\<open>currentElements\<close> marked as valid.
\<close>

definition first_named :: "form \<Rightarrow> string \<Rightarrow> nat option" where
  "first_named f name = (case findByName f name of i # _ \<Rightarrow> Some i | [] \<Rightarrow> None)"

definition showErrors :: "form \<Rightarrow> (string \<times> string) list option \<Rightarrow> unit vm" where
  "showErrors f errors =
     vbind (case errors of
              None \<Rightarrow> vret ()
            | Some es \<Rightarrow>
                vmod (\<lambda>s.
                  let em = obj_spread (vs_errorMap s) es in
                  s\<lparr>vs_errorMap := em,
                    vs_errorList := map (\<lambda>(name, msg).
                      \<lparr>er_message = msg, er_element = first_named f name, er_method = None\<rparr>) em,
                    vs_successList := filter (\<lambda>i. obj_get es (el_name (f ! i)) = None) (vs_successList s)\<rparr>))
       (\<lambda>_. vbind (vget (\<lambda>s. EShow (vs_errorList s)
              (filter (\<lambda>i. \<forall>er \<in> set (vs_errorList s). er_element er \<noteq> Some i) (vs_currentElements s)))) vlog)"

definition validator_form :: "(string \<times> vmethod) list \<Rightarrow> config \<Rightarrow> form \<Rightarrow> bool vm" where
  "validator_form mt cf f =
     vbind (checkForm mt cf f) (\<lambda>_.
     vbind (vmod (\<lambda>s. s\<lparr>vs_submitted := obj_spread (vs_submitted s) (vs_errorMap s),
                          vs_invalid := map (\<lambda>(n, m). (n, IMsg m)) (vs_errorMap s)\<rparr>)) (\<lambda>_.
     vbind (vget valid) (\<lambda>ok.
     vbind (if ok then vret () else vlog EInvalidForm) (\<lambda>_.
     vbind (showErrors f None) (\<lambda>_.
     vget valid)))))"

text \<open>The other fields of the group that are marked invalid are checked first.\<close>

fun check_group :: "(string \<times> vmethod) list \<Rightarrow> config \<Rightarrow> form \<Rightarrow> string \<Rightarrow> string \<Rightarrow> (string \<times> string) list \<Rightarrow> bool \<Rightarrow> bool vm" where
  "check_group mt cf f grp name0 [] result = vret result"
| "check_group mt cf f grp name0 ((name, testgroup) # gs) result =
     (if testgroup = grp \<and> name \<noteq> name0 then
        (case first_named f name of
           None \<Rightarrow> vlift (Inl (TypeError (''Cannot read properties of undefined (reading '' @ sq ''type'' @ '')'')))
         | Some k \<Rightarrow>
             (case validationTargetFor f k of
                Some j \<Rightarrow>
                  vbind (vget (\<lambda>s. obj_get (vs_invalid s) (el_name (f ! j)) \<noteq> None)) (\<lambda>marked.
                    if marked then
                      vbind (vmod (\<lambda>s. s\<lparr>vs_currentElements := vs_currentElements s @ [j]\<rparr>)) (\<lambda>_.
                      vbind (check mt cf f j) (\<lambda>r.
                      check_group mt cf f grp name0 gs (r = CTrue \<and> result)))
                    else check_group mt cf f grp name0 gs result)
              | None \<Rightarrow> check_group mt cf f grp name0 gs result))
      else check_group mt cf f grp name0 gs result)"

definition validator_element :: "(string \<times> vmethod) list \<Rightarrow> config \<Rightarrow> form \<Rightarrow> nat \<Rightarrow> bool vm" where
  "validator_element mt cf f i0 =
     (case validationTargetFor f i0 of
        None \<Rightarrow> vbind (vmod (\<lambda>s. s\<lparr>vs_invalid := obj_del (el_name (f ! i0)) (vs_invalid s)\<rparr>)) (\<lambda>_. vret True)
      | Some i \<Rightarrow>
          let name = el_name (f ! i) in
          vbind reset (\<lambda>_.
          vbind (vmod (\<lambda>s. s\<lparr>vs_currentElements := [i]\<rparr>)) (\<lambda>_.
          vbind (vget vs_groups) (\<lambda>groups.
          vbind (case obj_get groups name of
                   Some grp \<Rightarrow> if grp \<noteq> [] then check_group mt cf f grp name groups True else vret True
                 | None \<Rightarrow> vret True) (\<lambda>result.
          vbind (check mt cf f i) (\<lambda>c.
            let rs = (c \<noteq> CFalse) in
          vbind (vmod (\<lambda>s. s\<lparr>vs_invalid := obj_set name (IBool (\<not> rs)) (vs_invalid s)\<rparr>)) (\<lambda>_.
          vbind (vget numberOfInvalids) (\<lambda>n.
          vbind (if n = 0 then vlog EHideContainers else vret ()) (\<lambda>_.
          vbind (showErrors f None) (\<lambda>_.
          vbind (vlog (EAria i0 (\<not> rs))) (\<lambda>_.
          vret (result \<and> rs))))))))))))"

section \<open>Remote checks\<close>

definition startRequest :: "form \<Rightarrow> nat \<Rightarrow> unit vm" where
  "startRequest f i =
     (let name = el_name (f ! i) in
      vbind (vget (\<lambda>s. name \<in> set (vs_pending s))) (\<lambda>p.
        if p then vret ()
        else vbind (vmod (\<lambda>s. s\<lparr>vs_pendingRequest := vs_pendingRequest s + 1, vs_pending := name # vs_pending s\<rparr>))
               (\<lambda>_. vlog (EPendingClass i True))))"

text \<open>
  What the \<^verbatim>\<open>submit\<close> handler does when the form may be sent: the value of the submit button travels in
  a hidden field when a handler or a delayed submission sends the form; \<open>cf_handler\<close> is the
  \<^verbatim>\<open>submitHandler\<close> with the boolean it returns (false when it returns none). The result tells whether
  the browser sends the form.
\<close>

definition handle :: "config \<Rightarrow> bool vm" where
  "handle cf =
     vbind (vget (\<lambda>s. (vs_submitButton s, vs_formSubmitted s))) (\<lambda>(b, fs).
     vbind (case b of
              Some (name, v) \<Rightarrow> if cf_handler cf \<noteq> None \<or> fs then vlog (EHidden name) else vret ()
            | None \<Rightarrow> vret ()) (\<lambda>_.
       case cf_handler cf of
         Some r \<Rightarrow>
           vbind (vlog EHandler) (\<lambda>_.
           vbind (case b of Some (name, v) \<Rightarrow> vlog (EHiddenGone name) | None \<Rightarrow> vret ()) (\<lambda>_. vret r))
       | None \<Rightarrow> vret True))"

definition findLastActive :: "form \<Rightarrow> vstate \<Rightarrow> nat option" where
  "findLastActive f s =
     (case vs_lastActive s of
        Some i \<Rightarrow>
          if length (filter (\<lambda>er. case er_element er of Some j \<Rightarrow> el_name (f ! j) = el_name (f ! i) | None \<Rightarrow> False)
                      (vs_errorList s)) = 1 then Some i else None
      | None \<Rightarrow> None)"

text \<open>
  The field gets the focus and the event \<^verbatim>\<open>focusin\<close>, which runs the handler of the settings (\<open>delegate\<close> below).
  With the default of \<^verbatim>\<open>ignore\<close>, \<^verbatim>\<open>:hidden\<close>, the visible fields are those that are not ignored.
\<close>

definition on_focusin :: "config \<Rightarrow> form \<Rightarrow> nat \<Rightarrow> unit vm" where
  "on_focusin cf f i =
     vbind (vmod (\<lambda>s. s\<lparr>vs_lastActive := Some i\<rparr>)) (\<lambda>_.
       if cf_focusCleanup cf then vbind (vlog (EUnhighlight i)) (\<lambda>_. vlog EHideErrors) else vret ())"

definition focusInvalid :: "config \<Rightarrow> form \<Rightarrow> unit vm" where
  "focusInvalid cf f =
     (if cf_focusInvalid cf then
        vbind (vget (\<lambda>s. case findLastActive f s of
                           Some i \<Rightarrow> Some i
                         | None \<Rightarrow> (case vs_errorList s of er # _ \<Rightarrow> er_element er | [] \<Rightarrow> None)))
          (\<lambda>t. case t of
                 Some i \<Rightarrow>
                   if el_ignored (f ! i) then vret ()
                   else vbind (vlog (EFocus i)) (\<lambda>_. if cf_onfocusin cf then on_focusin cf f i else vret ())
               | None \<Rightarrow> vret ())
      else vret ())"

definition on_submit :: "(string \<times> vmethod) list \<Rightarrow> config \<Rightarrow> form \<Rightarrow> bool vm" where
  "on_submit mt cf f =
     vbind (vget vs_cancelSubmit) (\<lambda>c.
       if c then vbind (vmod (\<lambda>s. s\<lparr>vs_cancelSubmit := False\<rparr>)) (\<lambda>_. handle cf)
       else vbind (validator_form mt cf f) (\<lambda>ok.
         if ok then
           vbind (vget vs_pendingRequest) (\<lambda>n.
             if n \<noteq> 0 then vbind (vmod (\<lambda>s. s\<lparr>vs_formSubmitted := True\<rparr>)) (\<lambda>_. vret False)
             else handle cf)
         else vbind (focusInvalid cf f) (\<lambda>_. vret False)))"

text \<open>The browser sends the form when the handler returns true and the setting \<^verbatim>\<open>debug\<close> is off.\<close>

definition submit_form :: "(string \<times> vmethod) list \<Rightarrow> config \<Rightarrow> form \<Rightarrow> unit vm" where
  "submit_form mt cf f = vbind (on_submit mt cf f) (\<lambda>go. if go \<and> \<not> cf_debug cf then vlog ESend else vret ())"

definition stopRequest :: "(string \<times> vmethod) list \<Rightarrow> config \<Rightarrow> form \<Rightarrow> nat \<Rightarrow> bool \<Rightarrow> unit vm" where
  "stopRequest mt cf f i ok =
     vbind (vmod (\<lambda>s. s\<lparr>vs_pendingRequest := max 0 (vs_pendingRequest s - 1),
                          vs_pending := filter (\<lambda>n. n \<noteq> el_name (f ! i)) (vs_pending s)\<rparr>)) (\<lambda>_.
     vbind (vlog (EPendingClass i False)) (\<lambda>_.
     vbind (vget (\<lambda>s. vs_pendingRequest s = 0 \<and> vs_formSubmitted s)) (\<lambda>due.
       if ok \<and> due then
         vbind (validator_form mt cf f) (\<lambda>v.
           if v then
             vbind (submit_form mt cf f) (\<lambda>_.
             vbind (vget vs_submitButton) (\<lambda>b.
             vbind (case b of Some (name, _) \<Rightarrow> vlog (EHiddenGone name) | None \<Rightarrow> vret ()) (\<lambda>_.
             vmod (\<lambda>s. s\<lparr>vs_formSubmitted := False\<rparr>))))
           else vret ())
       else if \<not> ok \<and> due then
         vbind (vlog EInvalidForm) (\<lambda>_. vmod (\<lambda>s. s\<lparr>vs_formSubmitted := False\<rparr>))
       else vret ())))"

text \<open>
  The object \<^verbatim>\<open>previousValue\<close> in the data of a field. A request under way keeps a reference to it: the
  objects are in the list \<open>vs_previous\<close>, \<open>vs_previousOf\<close> maps a field to its object.
\<close>

fun prev_of :: "(nat \<times> nat) list \<Rightarrow> nat \<Rightarrow> nat option" where
  "prev_of [] i = None"
| "prev_of ((j, p) # ps) i = (if j = i then Some p else prev_of ps i)"

definition previousValue :: "config \<Rightarrow> form \<Rightarrow> nat \<Rightarrow> string \<Rightarrow> nat vm" where
  "previousValue cf f i method =
     vbind (vget (\<lambda>s. prev_of (vs_previousOf s) i)) (\<lambda>p.
       case p of
         Some q \<Rightarrow> vret q
       | None \<Rightarrow>
           vbind (vmod (\<lambda>s. s\<lparr>vs_previous := vs_previous s @
                     [\<lparr>pv_old = None, pv_valid = True, pv_message = defaultMessage cf s f i method PUndef,
                       pv_originalMessage = PUndef\<rparr>],
                   vs_previousOf := (i, length (vs_previous s)) # vs_previousOf s\<rparr>))
             (\<lambda>_. vget (\<lambda>s. length (vs_previous s) - 1)))"

definition set_previous :: "nat \<Rightarrow> (previous \<Rightarrow> previous) \<Rightarrow> unit vm" where
  "set_previous q g = vmod (\<lambda>s. s\<lparr>vs_previous := (vs_previous s)[q := g (vs_previous s ! q)]\<rparr>)"

text \<open>\<^verbatim>\<open>settings.messages[name][method] = m\<close>: without effect when the entry of the field is a text.\<close>

definition put_message :: "string \<Rightarrow> string \<Rightarrow> pval \<Rightarrow> unit vm" where
  "put_message name method m =
     vmod (\<lambda>s. case rule_get (vs_messages s) name of
                 PObj ms \<Rightarrow> s\<lparr>vs_messages := obj_set name (PObj (obj_set method m ms)) (vs_messages s)\<rparr>
               | _ \<Rightarrow> s)"

text \<open>
  \<^verbatim>\<open>$.ajax\<close> with \<^verbatim>\<open>mode: "abort"\<close>: a request under way on the port is aborted, so that its \<^verbatim>\<open>success\<close>
  callback is not called.
\<close>

definition ajax_abort :: "string \<Rightarrow> ajax_request \<Rightarrow> unit vm" where
  "ajax_abort port rq =
     vbind (vget (\<lambda>s. obj_get (vs_inflight s) port \<noteq> None)) (\<lambda>busy.
     vbind (if busy then vlog (EAbort port) else vret ()) (\<lambda>_.
     vbind (vmod (\<lambda>s. s\<lparr>vs_inflight := obj_set port rq (vs_inflight s)\<rparr>)) (\<lambda>_. vlog (EAjax port))))"

definition remote_data :: "pval \<Rightarrow> pval" where
  "remote_data param = (case param of PObj ps \<Rightarrow> rule_get ps ''data'' | _ \<Rightarrow> PUndef)"

text \<open>\<^verbatim>\<open>remote\<close> from the point on where the remembered value \<open>q\<close> of the field is known.\<close>

definition remote_known :: "config \<Rightarrow> form \<Rightarrow> fval \<Rightarrow> nat \<Rightarrow> pval \<Rightarrow> nat \<Rightarrow> mres vm" where
  "remote_known cf f value i param q =
     (let name = el_name (f ! i); dataString = cf_param cf value (remote_data param) in
      vbind (vmod (\<lambda>s. if p_truthy (rule_get (vs_messages s) name) then s
                         else s\<lparr>vs_messages := obj_set name (PObj []) (vs_messages s)\<rparr>)) (\<lambda>_.
      vbind (vget (\<lambda>s. case rule_get (vs_messages s) name of PObj ms \<Rightarrow> rule_get ms ''remote'' | _ \<Rightarrow> PUndef)) (\<lambda>m.
      vbind (set_previous q (\<lambda>p. p\<lparr>pv_originalMessage :=
               (if p_truthy (pv_originalMessage p) then pv_originalMessage p else m)\<rparr>)) (\<lambda>_.
      vbind (vget (\<lambda>s. vs_previous s ! q)) (\<lambda>prev.
      vbind (put_message name ''remote'' (PStr (pv_message prev))) (\<lambda>_.
        if pv_old prev = Some dataString then vret (Verdict (pv_valid prev))
        else
          vbind (set_previous q (\<lambda>p. p\<lparr>pv_old := Some dataString\<rparr>)) (\<lambda>_.
          vbind (startRequest f i) (\<lambda>_.
          vbind (ajax_abort (''validate'' @ name)
                   \<lparr>rq_element = i, rq_previous = q, rq_name = name, rq_value = value\<rparr>) (\<lambda>_.
          vret Pending)))))))))"

definition remote :: vmethod where
  "remote cf f value i param =
     vbind (vlift (optional (cf_page cf) f i)) (\<lambda>opt.
       if opt then vret Mismatch
       else vbind (previousValue cf f i ''remote'') (remote_known cf f value i param))"

text \<open>
  The \<^verbatim>\<open>success\<close> callback with the response of the server: \<open>Inl True\<close> for \<^verbatim>\<open>true\<close> or \<^verbatim>\<open>"true"\<close>, \<open>Inl False\<close>
  for a response that is false as a condition, \<open>Inr\<close> a message.
\<close>

definition remote_success :: "(string \<times> vmethod) list \<Rightarrow> config \<Rightarrow> form \<Rightarrow> ajax_request \<Rightarrow> bool + string \<Rightarrow> unit vm" where
  "remote_success mt cf f rq response =
     (let i = rq_element rq; name = rq_name rq; q = rq_previous rq; ok = (response = Inl True) in
      vbind (vget (\<lambda>s. vs_previous s ! q)) (\<lambda>prev.
      vbind (put_message name ''remote'' (pv_originalMessage prev)) (\<lambda>_.
      vbind (if ok then
               vbind resetInternals (\<lambda>_.
               vbind (vmod (\<lambda>s. s\<lparr>vs_successList := vs_successList s @ [i],
                                    vs_invalid := obj_set name (IBool False) (vs_invalid s)\<rparr>)) (\<lambda>_.
               showErrors f None))
             else
               vbind (vget (\<lambda>s. case response of
                                  Inr m \<Rightarrow> m
                                | Inl _ \<Rightarrow> defaultMessage cf s f i ''remote'' (p_of_value (rq_value rq)))) (\<lambda>msg.
               vbind (set_previous q (\<lambda>p. p\<lparr>pv_message := msg\<rparr>)) (\<lambda>_.
               vbind (vmod (\<lambda>s. s\<lparr>vs_invalid := obj_set name (IBool True) (vs_invalid s)\<rparr>)) (\<lambda>_.
               showErrors f (Some [(name, msg)]))))) (\<lambda>_.
      vbind (set_previous q (\<lambda>p. p\<lparr>pv_valid := ok\<rparr>)) (\<lambda>_.
      stopRequest mt cf f i ok)))))"

text \<open>A response on a port runs the callback of its request and frees the port; a failed request only ends.\<close>

definition ajax_done :: "(string \<times> vmethod) list \<Rightarrow> config \<Rightarrow> form \<Rightarrow> string \<Rightarrow> bool + string \<Rightarrow> unit vm" where
  "ajax_done mt cf f port response =
     vbind (vget (\<lambda>s. obj_get (vs_inflight s) port)) (\<lambda>r.
       case r of
         None \<Rightarrow> vret ()
       | Some rq \<Rightarrow>
           vbind (vmod (\<lambda>s. s\<lparr>vs_inflight := obj_del port (vs_inflight s)\<rparr>)) (\<lambda>_.
           remote_success mt cf f rq response))"

definition ajax_failed :: "string \<Rightarrow> unit vm" where
  "ajax_failed port = vmod (\<lambda>s. s\<lparr>vs_inflight := obj_del port (vs_inflight s)\<rparr>)"

section \<open>The method equalTo\<close>

fun strict_equal :: "fval \<Rightarrow> fval \<Rightarrow> bool" where
  "strict_equal (VStr a) (VStr b) = (a = b)"
| "strict_equal VUndef VUndef = True"
| "strict_equal VNull VNull = True"
| "strict_equal _ _ = False"

text \<open>The target gets a handler for \<^verbatim>\<open>blur\<close> once, which checks the field again.\<close>

definition equalTo :: vmethod where
  "equalTo cf f value i param =
     vbind (vmod (\<lambda>s. if cf_onfocusout cf \<and> p_text param \<notin> set (vs_blurBound s)
                        then s\<lparr>vs_blurBound := p_text param # vs_blurBound s\<rparr> else s)) (\<lambda>_.
     vret (Verdict (strict_equal value (cf_target cf param))))"

definition notEqualTo :: vmethod where
  "notEqualTo cf f value i param =
     vbind (vlift (optional (cf_page cf) f i)) (\<lambda>opt.
       if opt then vret Mismatch
       else vbind (equalTo cf f value i param) (\<lambda>r. vret (Verdict (\<not> m_truthy r))))"

section \<open>The table of methods\<close>

definition text_method :: "(bool \<Rightarrow> string \<Rightarrow> mres) \<Rightarrow> vmethod" where
  "text_method g cf f value i param =
     vbind (vlift (optional (cf_page cf) f i)) (\<lambda>opt. vret (g opt (v_text value)))"

definition pure_method :: "(page \<Rightarrow> form \<Rightarrow> fval \<Rightarrow> nat \<Rightarrow> pval \<Rightarrow> mres result) \<Rightarrow> vmethod" where
  "pure_method g cf f value i param = vlift (g (cf_page cf) f value i param)"

definition methods :: "(string \<times> vmethod) list" where
  "methods =
     [(''required'', pure_method required),
      (''email'', text_method email),
      (''url'', text_method url),
      (''date'', (\<lambda>cf. text_method (date_method (cf_page cf)) cf)),
      (''dateISO'', text_method dateISO),
      (''number'', text_method number),
      (''digits'', text_method digits),
      (''minlength'', pure_method minlength),
      (''maxlength'', pure_method maxlength),
      (''rangelength'', pure_method rangelength),
      (''min'', pure_method min_method),
      (''max'', pure_method max_method),
      (''range'', pure_method range_method),
      (''step'', pure_method step),
      (''equalTo'', equalTo),
      (''remote'', remote)]"

definition messages :: "(string \<times> (string + string)) list" where
  "messages =
     [(''required'', Inl ''This field is required.''),
      (''remote'', Inl ''Please fix this field.''),
      (''email'', Inl ''Please enter a valid email address.''),
      (''url'', Inl ''Please enter a valid URL.''),
      (''date'', Inl ''Please enter a valid date.''),
      (''dateISO'', Inl ''Please enter a valid date (ISO).''),
      (''number'', Inl ''Please enter a valid number.''),
      (''digits'', Inl ''Please enter only digits.''),
      (''equalTo'', Inl ''Please enter the same value again.''),
      (''maxlength'', Inr ''Please enter no more than {0} characters.''),
      (''minlength'', Inr ''Please enter at least {0} characters.''),
      (''rangelength'', Inr ''Please enter a value between {0} and {1} characters long.''),
      (''range'', Inr ''Please enter a value between {0} and {1}.''),
      (''max'', Inr ''Please enter a value less than or equal to {0}.''),
      (''min'', Inr ''Please enter a value greater than or equal to {0}.''),
      (''step'', Inr ''Please enter a multiple of {0}.'')]"

text \<open>
  \<^verbatim>\<open>addMethod(name, method, message)\<close>: a method of fewer than three parameters is also a class rule.
\<close>

definition addMethod ::
    "string \<Rightarrow> vmethod \<Rightarrow> nat \<Rightarrow> (string + string) option \<Rightarrow>
     (string \<times> vmethod) list \<times> config \<Rightarrow> (string \<times> vmethod) list \<times> config" where
  "addMethod name method arity message mc =
     (let (mt, cf) = mc;
          reg = cf_registry cf;
          reg' = reg\<lparr>reg_methods := (if name \<in> set (reg_methods reg) then reg_methods reg
                                     else reg_methods reg @ [name]),
                     reg_classRules := (if arity < 3
                       then addClassRules (Inl name) (case normalizeRule (PStr name) of PObj rs \<Rightarrow> rs | _ \<Rightarrow> [])
                              (reg_classRules reg)
                       else reg_classRules reg)\<rparr>
      in (obj_set name method mt,
          cf\<lparr>cf_registry := reg',
             cf_messages := (case message of Some m \<Rightarrow> obj_set name m (cf_messages cf) | None \<Rightarrow> cf_messages cf)\<rparr>))"

section \<open>Event handlers\<close>

definition on_focusout :: "(string \<times> vmethod) list \<Rightarrow> config \<Rightarrow> form \<Rightarrow> nat \<Rightarrow> unit vm" where
  "on_focusout mt cf f i =
     (if checkable (f ! i) then vret ()
      else vbind (vget (\<lambda>s. obj_get (vs_submitted s) (el_name (f ! i)) \<noteq> None)) (\<lambda>was.
        vbind (if was then vret True
               else vbind (vlift (optional (cf_page cf) f i)) (\<lambda>opt. vret (\<not> opt))) (\<lambda>due.
          if due then vbind (validator_element mt cf f i) (\<lambda>_. vret ()) else vret ())))"

definition excludedKeys :: "int list" where
  "excludedKeys = [16, 17, 18, 20, 35, 36, 37, 38, 39, 40, 45, 144, 225]"

definition on_keyup :: "(string \<times> vmethod) list \<Rightarrow> config \<Rightarrow> form \<Rightarrow> nat \<Rightarrow> int \<Rightarrow> int \<Rightarrow> unit vm" where
  "on_keyup mt cf f i which keyCode =
     vbind (if which = 9 then vbind (vlift (elementValue f i)) (\<lambda>v. vret (v = VStr [])) else vret False) (\<lambda>tab.
       if tab \<or> keyCode \<in> set excludedKeys then vret ()
       else vbind (vget (\<lambda>s. obj_get (vs_submitted s) (el_name (f ! i)) \<noteq> None \<or>
                             obj_get (vs_invalid s) (el_name (f ! i)) \<noteq> None)) (\<lambda>due.
              if due then vbind (validator_element mt cf f i) (\<lambda>_. vret ()) else vret ()))"

text \<open>A click on an option is looked up under the \<^verbatim>\<open>select\<close> around it, the field \<open>parent\<close>.\<close>

definition on_click :: "(string \<times> vmethod) list \<Rightarrow> config \<Rightarrow> form \<Rightarrow> nat \<Rightarrow> nat option \<Rightarrow> unit vm" where
  "on_click mt cf f i parent =
     vbind (vget vs_submitted) (\<lambda>sub.
       if obj_get sub (el_name (f ! i)) \<noteq> None then vbind (validator_element mt cf f i) (\<lambda>_. vret ())
       else (case parent of
               Some j \<Rightarrow>
                 if obj_get sub (el_name (f ! j)) \<noteq> None then vbind (validator_element mt cf f j) (\<lambda>_. vret ())
                 else vret ()
             | None \<Rightarrow> vret ()))"

datatype field_event = FocusIn | FocusOut | KeyUp int int | Click "nat option"

text \<open>\<^verbatim>\<open>delegate\<close>: the handler of the settings for the event, unless the field is ignored.\<close>

definition delegate :: "(string \<times> vmethod) list \<Rightarrow> config \<Rightarrow> form \<Rightarrow> nat \<Rightarrow> field_event \<Rightarrow> unit vm" where
  "delegate mt cf f i ev =
     (if el_ignored (f ! i) then vret ()
      else (case ev of
              FocusIn \<Rightarrow> if cf_onfocusin cf then on_focusin cf f i else vret ()
            | FocusOut \<Rightarrow> if cf_onfocusout cf then on_focusout mt cf f i else vret ()
            | KeyUp w k \<Rightarrow> if cf_onkeyup cf then on_keyup mt cf f i w k else vret ()
            | Click p \<Rightarrow> if cf_onclick cf then on_click mt cf f i p else vret ()))"

text \<open>A click on a submit button: its name and value, whether it has the class \<^verbatim>\<open>cancel\<close> or \<^verbatim>\<open>formnovalidate\<close>.\<close>

definition on_submit_click :: "string \<Rightarrow> string \<Rightarrow> bool \<Rightarrow> bool \<Rightarrow> unit vm" where
  "on_submit_click name v cancel novalidate =
     vmod (\<lambda>s. s\<lparr>vs_submitButton := Some (name, v),
                  vs_cancelSubmit := (vs_cancelSubmit s \<or> cancel \<or> novalidate)\<rparr>)"

section \<open>Creation, reset and the jQuery methods\<close>

text \<open>\<^verbatim>\<open>init\<close>: the groups (names as a text or an array) and the rules of the settings.\<close>

fun add_names :: "string \<Rightarrow> string list \<Rightarrow> (string \<times> string) list \<Rightarrow> (string \<times> string) list" where
  "add_names key [] gs = gs"
| "add_names key (n # ns) gs = add_names key ns (obj_set n key gs)"

fun init_groups :: "(string \<times> (string + string list)) list \<Rightarrow> (string \<times> string) list \<Rightarrow> (string \<times> string) list" where
  "init_groups [] gs = gs"
| "init_groups ((key, v) # rest) gs =
     init_groups rest (add_names key (case v of Inl t \<Rightarrow> split_space t | Inr ns \<Rightarrow> ns) gs)"

definition init ::
    "(string \<times> pval) list \<Rightarrow> (string \<times> pval) list \<Rightarrow> (string \<times> (string + string list)) list \<Rightarrow> vstate" where
  "init rules msgs groups =
     \<lparr>vs_rules = map (\<lambda>(k, v). (k, normalizeRule v)) rules, vs_messages = msgs,
      vs_groups = init_groups groups [], vs_submitted = [], vs_invalid = [], vs_pending = [],
      vs_pendingRequest = 0, vs_errorList = [], vs_errorMap = [], vs_successList = [],
      vs_currentElements = [], vs_formSubmitted = False, vs_cancelSubmit = False, vs_submitButton = None,
      vs_lastActive = None, vs_previousOf = [], vs_previous = [], vs_blurBound = [], vs_inflight = [],
      vs_log = []\<rparr>"

definition resetElements :: "nat list \<Rightarrow> unit vm" where
  "resetElements es = vmod (\<lambda>s. s\<lparr>vs_log := vs_log s @ map EUnhighlight es\<rparr>)"

definition resetForm :: "config \<Rightarrow> form \<Rightarrow> unit vm" where
  "resetForm cf f =
     vbind (vmod (\<lambda>s. s\<lparr>vs_invalid := [], vs_submitted := []\<rparr>)) (\<lambda>_.
     vbind reset (\<lambda>_.
     vbind (vlog EHideErrors) (\<lambda>_.
     vbind (vget vs_rules) (\<lambda>sr.
     vbind (vlift (elements cf sr f)) (\<lambda>es.
     vbind (vmod (\<lambda>s. s\<lparr>vs_previousOf := filter (\<lambda>(i, q). i \<notin> set es) (vs_previousOf s)\<rparr>)) (\<lambda>_.
     resetElements es))))))"

text \<open>\<^verbatim>\<open>$(fields).valid()\<close>: the errors of all fields from the first invalid one on are collected.\<close>

fun valid_each :: "(string \<times> vmethod) list \<Rightarrow> config \<Rightarrow> form \<Rightarrow> nat list \<Rightarrow> bool \<Rightarrow> verror list \<Rightarrow> bool vm" where
  "valid_each mt cf f [] ok errs = vbind (vmod (\<lambda>s. s\<lparr>vs_errorList := errs\<rparr>)) (\<lambda>_. vret ok)"
| "valid_each mt cf f (i # is) ok errs =
     vbind (validator_element mt cf f i) (\<lambda>r.
       let ok' = (r \<and> ok) in
       vbind (vget (\<lambda>s. if ok' then errs else errs @ vs_errorList s)) (valid_each mt cf f is ok'))"

definition fields_valid :: "(string \<times> vmethod) list \<Rightarrow> config \<Rightarrow> form \<Rightarrow> nat list \<Rightarrow> bool vm" where
  "fields_valid mt cf f is = valid_each mt cf f is True []"

section \<open>Runs\<close>

text \<open>What happens to a validator: the form at that moment is part of the event.\<close>

datatype vevent =
    VSubmit form
  | VSubmitClick string string bool bool
  | VField form nat field_event
  | VResponse form string "bool + string"
  | VFailed string
  | VReset form
  | VForm form
  | VElement form nat
  | VFieldsValid form "nat list"
  | VShow form "(string \<times> string) list"

definition vevent_run :: "(string \<times> vmethod) list \<Rightarrow> config \<Rightarrow> vevent \<Rightarrow> vstate \<Rightarrow> vstate" where
  "vevent_run mt cf ev s =
     (case ev of
        VSubmit f \<Rightarrow> snd (submit_form mt cf f s)
      | VSubmitClick n v c nv \<Rightarrow> snd (on_submit_click n v c nv s)
      | VField f i e \<Rightarrow> snd (delegate mt cf f i e s)
      | VResponse f port r \<Rightarrow> snd (ajax_done mt cf f port r s)
      | VFailed port \<Rightarrow> snd (ajax_failed port s)
      | VReset f \<Rightarrow> snd (resetForm cf f s)
      | VForm f \<Rightarrow> snd (validator_form mt cf f s)
      | VElement f i \<Rightarrow> snd (validator_element mt cf f i s)
      | VFieldsValid f is \<Rightarrow> snd (fields_valid mt cf f is s)
      | VShow f es \<Rightarrow> snd (showErrors f (Some es) s))"

inductive vstep :: "(string \<times> vmethod) list \<Rightarrow> config \<Rightarrow> vstate \<Rightarrow> vevent \<Rightarrow> vstate \<Rightarrow> bool"
  for mt cf where
  vstepI: "vstep mt cf s ev (vevent_run mt cf ev s)"

end
