(* ===== verification/Jv_Requests.thy ===== *)
theory Jv_Requests
  imports Jv_Validator
begin

text \<open>
  Remote checks and the submission of the form, over whole runs of the validator.

  \<open>keeps P m\<close> says that the computation \<open>m\<close> preserves \<open>P\<close>, whether it returns or throws. The locale
  \<open>request_frame\<close> collects what holds of every \<open>P\<close> that only looks at the requests, the pending names,
  the remembered values and the submissions (\<open>core\<close>); \<open>validator_frame\<close> adds that the methods of the
  page keep \<open>P\<close>, and gives that the whole checking of fields and of the form does.
\<close>

section \<open>Computations that keep a predicate\<close>

definition keeps :: "(vstate \<Rightarrow> bool) \<Rightarrow> 'a vm \<Rightarrow> bool" where
  "keeps P m \<longleftrightarrow> (\<forall>s. P s \<longrightarrow> P (snd (m s)))"

named_theorems keeps_intros

lemma vkeepsD: "keeps P m \<Longrightarrow> P s \<Longrightarrow> P (snd (m s))"
  by (simp add: keeps_def)

lemma keeps_ret [keeps_intros]: "keeps P (vret x)"
  by (simp add: keeps_def vret_def)

lemma keeps_lift [keeps_intros]: "keeps P (vlift r)"
  by (simp add: keeps_def vlift_def)

lemma keeps_get [keeps_intros]: "keeps P (vget f)"
  by (simp add: keeps_def vget_def)

lemma keeps_bind [keeps_intros]: "keeps P m \<Longrightarrow> (\<And>x. keeps P (k x)) \<Longrightarrow> keeps P (vbind m k)"
  by (fastforce simp: keeps_def vbind_def split: prod.split sum.split dest: spec)

lemma keeps_mod: "(\<And>s. P s \<Longrightarrow> P (g s)) \<Longrightarrow> keeps P (vmod g)"
  by (simp add: keeps_def vmod_def)

lemma keeps_if [keeps_intros]: "(b \<Longrightarrow> keeps P m) \<Longrightarrow> (\<not> b \<Longrightarrow> keeps P m') \<Longrightarrow> keeps P (if b then m else m')"
  by simp

lemma keeps_Let [keeps_intros]: "(\<And>x. keeps P (m x)) \<Longrightarrow> keeps P (let x = y in m x)"
  by (simp add: Let_def)

lemma keeps_option [keeps_intros]:
  "(x = None \<Longrightarrow> keeps P m) \<Longrightarrow> (\<And>y. x = Some y \<Longrightarrow> keeps P (k y)) \<Longrightarrow> keeps P (case x of None \<Rightarrow> m | Some y \<Rightarrow> k y)"
  by (cases x) simp_all

lemma keeps_prod [keeps_intros]: "(\<And>a b. keeps P (k a b)) \<Longrightarrow> keeps P (case x of (a, b) \<Rightarrow> k a b)"
  by (cases x) simp

text \<open>A computation that leads from \<open>P\<close> to a weaker predicate.\<close>

definition leads :: "(vstate \<Rightarrow> bool) \<Rightarrow> (vstate \<Rightarrow> bool) \<Rightarrow> 'a vm \<Rightarrow> bool" where
  "leads P Q m \<longleftrightarrow> (\<forall>s. P s \<longrightarrow> Q (snd (m s)))"

lemma leads_bind:
  assumes "\<And>s. P s \<Longrightarrow> Q s" and m: "keeps P m" and "\<And>x. leads P Q (k x)"
  shows "leads P Q (vbind m k)"
  unfolding leads_def
proof (intro allI impI)
  fix s assume "P s"
  then have "P (snd (m s))" by (rule vkeepsD [OF m])
  then show "Q (snd (vbind m k s))"
    using assms(1,3) by (cases "m s"; cases "fst (m s)") (auto simp: vbind_def leads_def)
qed

lemma leadsD: "leads P Q m \<Longrightarrow> P s \<Longrightarrow> Q (snd (m s))"
  by (simp add: leads_def)

lemma vbind_vmod: "vbind (vmod g) k s = k () (g s)"
  by (simp add: vbind_def vmod_def)

lemma vbind_vget: "vbind (vget g) k s = k (g s) s"
  by (simp add: vbind_def vget_def)

lemma vbind_Inr: "m s = (Inr x, s') \<Longrightarrow> vbind m k s = k x s'"
  by (simp add: vbind_def)

lemma vbind_Inl: "m s = (Inl e, s') \<Longrightarrow> vbind m k s = (Inl e, s')"
  by (simp add: vbind_def)

section \<open>What the requests depend on\<close>

definition sends :: "vstate \<Rightarrow> nat" where
  "sends s = length (filter (\<lambda>e. e = ESend) (vs_log s))"

definition core ::
    "vstate \<Rightarrow> string list \<times> int \<times> (string \<times> ajax_request) list \<times> (nat \<times> nat) list \<times> nat \<times> bool \<times> nat" where
  "core s = (vs_pending s, vs_pendingRequest s, vs_inflight s, vs_previousOf s, length (vs_previous s),
             vs_cancelSubmit s, sends s)"

locale request_frame =
  fixes P :: "vstate \<Rightarrow> bool"
  assumes frame: "core s' = core s \<Longrightarrow> P s \<Longrightarrow> P s'"
begin

lemma keeps_silent: "(\<And>s. core (g s) = core s) \<Longrightarrow> keeps P (vmod g)"
  by (rule keeps_mod) (rule frame)

lemma log_kept: "e \<noteq> ESend \<Longrightarrow> keeps P (vlog e)"
  unfolding vlog_def by (rule keeps_silent) (simp add: core_def sends_def)

lemma log_of_kept: "(\<And>s. g s \<noteq> ESend) \<Longrightarrow> keeps P (vbind (vget g) vlog)"
  using log_kept by (simp add: keeps_def vbind_vget)

lemma resetInternals_kept: "keeps P resetInternals"
  unfolding resetInternals_def by (rule keeps_silent) (simp add: core_def sends_def)

lemma reset_kept: "keeps P reset"
  unfolding reset_def
  by (intro keeps_intros resetInternals_kept keeps_silent) (simp add: core_def sends_def)

lemma formatAndAdd_kept: "keeps P (formatAndAdd cf f i method params)"
  unfolding formatAndAdd_def by (rule keeps_silent) (simp add: core_def sends_def Let_def)

lemma set_previous_kept: "keeps P (set_previous q g)"
  unfolding set_previous_def by (rule keeps_silent) (simp add: core_def sends_def)

lemma put_message_kept: "keeps P (put_message name method m)"
  unfolding put_message_def by (rule keeps_silent) (simp add: core_def sends_def split: pval.split)

lemma showErrors_kept: "keeps P (showErrors f errors)"
  unfolding showErrors_def
proof (rule keeps_bind, intro keeps_intros)
  show "keeps P (vmod (\<lambda>s. let em = obj_spread (vs_errorMap s) es in
      s\<lparr>vs_errorMap := em,
        vs_errorList := map (\<lambda>(name, msg). \<lparr>er_message = msg, er_element = first_named f name, er_method = None\<rparr>) em,
        vs_successList := filter (\<lambda>i. obj_get es (el_name (f ! i)) = None) (vs_successList s)\<rparr>))" for es
    by (rule keeps_silent) (simp add: core_def sends_def Let_def)
  show "keeps P (vbind (vget (\<lambda>s. EShow (vs_errorList s)
      (filter (\<lambda>i. \<forall>er \<in> set (vs_errorList s). er_element er \<noteq> Some i) (vs_currentElements s)))) vlog)"
    by (rule log_of_kept) simp
qed

lemma handle_kept: "keeps P (handle cf)"
  unfolding handle_def by (intro keeps_intros log_kept) simp_all

lemma on_focusin_kept: "keeps P (on_focusin cf f i)"
  unfolding on_focusin_def by (intro keeps_intros log_kept keeps_silent) (simp_all add: core_def sends_def)

lemma focusInvalid_kept: "keeps P (focusInvalid cf f)"
  unfolding focusInvalid_def by (intro keeps_intros log_kept on_focusin_kept) simp_all

lemmas silent_kept =
  log_kept resetInternals_kept reset_kept formatAndAdd_kept set_previous_kept put_message_kept
  showErrors_kept handle_kept focusInvalid_kept on_focusin_kept

end

section \<open>Methods of the page\<close>

locale validator_frame = request_frame P
  for P :: "vstate \<Rightarrow> bool" +
  fixes mt :: "(string \<times> vmethod) list" and cf :: config and F :: "form \<Rightarrow> bool"
  assumes methods_kept: "obj_get mt name = Some fn \<Longrightarrow> F f \<Longrightarrow> keeps P (fn cf f val i param)"
begin

lemma call_method_kept:
  assumes "F f" shows "keeps P (call_method mt cf f method val i param)"
proof (cases "obj_get mt method")
  case None
  then show ?thesis by (simp add: keeps_def call_method_def)
next
  case (Some fn)
  have "keeps P (fn cf f val i param)" using Some assms by (rule methods_kept)
  then show ?thesis
    unfolding keeps_def call_method_def Some
    by (fastforce split: prod.split sum.split js_error.split dest: spec)
qed

lemma check_rules_kept: "F f \<Longrightarrow> keeps P (check_rules mt cf f i val n rules mismatch rs)"
proof (induction rs arbitrary: mismatch)
  case Nil
  show ?case by (auto intro!: keeps_intros keeps_silent simp: core_def sends_def)
next
  case (Cons r rs)
  obtain m param where r: "r = (m, param)" by (cases r)
  show ?case unfolding r check_rules.simps
    by (intro keeps_intros call_method_kept Cons formatAndAdd_kept)
qed

lemma check_kept: "F f \<Longrightarrow> keeps P (check mt cf f i)"
  unfolding check_def by (intro keeps_intros check_rules_kept)

lemma check_all_kept: "F f \<Longrightarrow> keeps P (check_all mt cf f is)"
  by (induction "is") (auto intro!: keeps_intros check_kept)

lemma checkForm_kept: "F f \<Longrightarrow> keeps P (checkForm mt cf f)"
  unfolding checkForm_def
  by (intro keeps_intros reset_kept check_all_kept keeps_silent) (simp_all add: core_def sends_def)

lemma validator_form_kept: "F f \<Longrightarrow> keeps P (validator_form mt cf f)"
  unfolding validator_form_def
  by (intro keeps_intros checkForm_kept showErrors_kept log_kept keeps_silent) (simp_all add: core_def sends_def)

lemma check_group_kept: "F f \<Longrightarrow> keeps P (check_group mt cf f grp name0 gs result)"
proof (induction gs arbitrary: result)
  case Nil
  show ?case by (simp add: keeps_ret)
next
  case (Cons g gs)
  obtain name testgroup where g: "g = (name, testgroup)" by (cases g)
  show ?case unfolding g check_group.simps
    by (intro keeps_intros Cons check_kept keeps_silent) (simp_all add: core_def sends_def)
qed

lemma validator_element_kept: "F f \<Longrightarrow> keeps P (validator_element mt cf f i)"
  unfolding validator_element_def
  by (intro keeps_intros reset_kept check_kept check_group_kept showErrors_kept log_kept keeps_silent)
     (simp_all add: core_def sends_def)

lemma valid_each_kept: "F f \<Longrightarrow> keeps P (valid_each mt cf f is ok errs)"
proof (induction "is" arbitrary: ok errs)
  case Nil
  show ?case by (auto intro!: keeps_intros keeps_silent simp: core_def sends_def)
next
  case (Cons i "is")
  show ?case unfolding valid_each.simps
    by (intro keeps_intros validator_element_kept Cons)
qed

lemma fields_valid_kept: "F f \<Longrightarrow> keeps P (fields_valid mt cf f is)"
  unfolding fields_valid_def by (rule valid_each_kept)

lemma delegate_kept:
  assumes "F f" shows "keeps P (delegate mt cf f i ev)"
proof -
  have "keeps P (on_focusout mt cf f i)"
    unfolding on_focusout_def by (intro keeps_intros validator_element_kept assms)
  moreover have "keeps P (on_keyup mt cf f i w k)" for w k
    unfolding on_keyup_def by (intro keeps_intros validator_element_kept assms)
  moreover have "keeps P (on_click mt cf f i p)" for p
    unfolding on_click_def by (intro keeps_intros validator_element_kept assms)
  ultimately show ?thesis
    unfolding delegate_def by (auto intro!: keeps_ret on_focusin_kept split: field_event.split)
qed

end

section \<open>The methods of the library\<close>

text \<open>All methods but \<^verbatim>\<open>remote\<close> leave the requests alone.\<close>

inductive library_method :: "vmethod \<Rightarrow> bool" where
  pureI: "library_method (pure_method g)"
| textI: "library_method (text_method g)"
| pagedI: "library_method (\<lambda>cf. text_method (h cf) cf)"
| equalToI: "library_method equalTo"
| remoteI: "library_method remote"

lemma methods_library: "list_all (\<lambda>(name, fn). library_method fn) methods"
  unfolding methods_def list.pred_inject prod.case
  by (intro conjI library_method.intros list.pred_inject(1))

text \<open>A table of such methods, as a page builds it with \<^verbatim>\<open>addMethod\<close>.\<close>

locale method_table_ok =
  fixes mt :: "(string \<times> vmethod) list"
  assumes library: "list_all (\<lambda>(name, fn). library_method fn) mt"
begin

lemma lookup_library: "obj_get mt name = Some fn \<Longrightarrow> library_method fn"
  using library by (auto simp: list_all_iff dest: obj_get_Some_mem)

end

interpretation lib: method_table_ok methods
  by unfold_locales (rule methods_library)

context request_frame
begin

lemma text_method_kept: "keeps P (text_method g cf f val i param)"
  unfolding text_method_def by (intro keeps_intros)

lemma equalTo_kept: "keeps P (equalTo cf f val i param)"
  unfolding equalTo_def by (intro keeps_intros keeps_silent) (simp add: core_def sends_def)

lemma library_methods_kept:
  assumes "library_method fn" and remote: "keeps P (remote cf f val i param)"
  shows "keeps P (fn cf f val i param)"
  using assms
  by cases (simp_all add: pure_method_def keeps_lift text_method_kept equalTo_kept)

end

section \<open>The invariant of the pending requests\<close>

definition request_ok :: "string list \<Rightarrow> string set \<Rightarrow> nat \<Rightarrow> string \<Rightarrow> ajax_request \<Rightarrow> bool" where
  "request_ok names pending n port rq \<longleftrightarrow>
     port = ''validate'' @ rq_name rq \<and> rq_name rq \<in> pending \<and> rq_previous rq < n \<and>
     (\<forall>f :: form. map el_name f = names \<longrightarrow> el_name (f ! rq_element rq) = rq_name rq)"

definition requests_inv :: "string list \<Rightarrow> vstate \<Rightarrow> bool" where
  "requests_inv names s \<longleftrightarrow>
     distinct (vs_pending s) \<and> vs_pendingRequest s = int (length (vs_pending s)) \<and>
     distinct (obj_keys (vs_inflight s)) \<and>
     (\<forall>(port, rq) \<in> set (vs_inflight s).
        request_ok names (set (vs_pending s)) (length (vs_previous s)) port rq) \<and>
     (\<forall>(i, q) \<in> set (vs_previousOf s). q < length (vs_previous s))"

text \<open>The state while the answer \<open>rq\<close> is being processed: its name is still pending, its port is free.\<close>

definition answered_inv :: "string list \<Rightarrow> ajax_request \<Rightarrow> vstate \<Rightarrow> bool" where
  "answered_inv names rq s \<longleftrightarrow>
     requests_inv names s \<and> rq_name rq \<in> set (vs_pending s) \<and>
     (''validate'' @ rq_name rq) \<notin> fst ` set (vs_inflight s) \<and>
     (\<forall>f :: form. map el_name f = names \<longrightarrow> el_name (f ! rq_element rq) = rq_name rq)"

interpretation inv: request_frame "requests_inv names" for names
  by unfold_locales (simp add: core_def requests_inv_def)

definition remembered_inv :: "string list \<Rightarrow> nat \<Rightarrow> vstate \<Rightarrow> bool" where
  "remembered_inv names q s \<longleftrightarrow> requests_inv names s \<and> q < length (vs_previous s)"

interpretation rem: request_frame "remembered_inv names q" for names q
  by unfold_locales (simp add: core_def requests_inv_def remembered_inv_def)

interpretation ans: request_frame "answered_inv names rq" for names rq
  by unfold_locales (simp add: core_def requests_inv_def answered_inv_def)

lemma names_nth:
  fixes f g :: form
  shows "map el_name f = map el_name g \<Longrightarrow> el_name (f ! i) = el_name (g ! i)"
proof -
  assume eq: "map el_name f = map el_name g"
  then have "length f = length g" using map_eq_imp_length_eq by blast
  then show ?thesis using eq
    by (induction f g arbitrary: i rule: list_induct2) (auto simp: nth_Cons split: nat.split)
qed

lemma prev_of_mem: "prev_of ps i = Some q \<Longrightarrow> (i, q) \<in> set ps"
  by (induction ps i rule: prev_of.induct) (auto split: if_splits)

lemma previousValue_fresh:
  assumes "requests_inv names s"
  shows "\<exists>q s'. previousValue cf f i method s = (Inr q, s') \<and> remembered_inv names q s'"
proof (cases "prev_of (vs_previousOf s) i")
  case None
  then show ?thesis using assms
    by (fastforce simp: previousValue_def vbind_vget vbind_vmod vget_def requests_inv_def remembered_inv_def
        request_ok_def)
next
  case (Some q)
  then have "(i, q) \<in> set (vs_previousOf s)" by (rule prev_of_mem)
  with Some assms show ?thesis
    by (auto simp: previousValue_def vbind_vget vret_def requests_inv_def remembered_inv_def)
qed

lemma start_and_abort:
  assumes "map el_name f = names"
    and rq: "rq = \<lparr>rq_element = i, rq_previous = q, rq_name = el_name (f ! i), rq_value = v\<rparr>"
  shows "keeps (remembered_inv names q) (vbind (startRequest f i)
           (\<lambda>_. vbind (ajax_abort (''validate'' @ el_name (f ! i)) rq) (\<lambda>_. vret Pending)))"
  unfolding keeps_def
proof (intro allI impI)
  fix s assume inv: "remembered_inv names q s"
  define name where "name = el_name (f ! i)"
  define s1 where "s1 = snd (startRequest f i s)"
  have start: "startRequest f i s = (Inr (), s1)"
    by (simp add: s1_def startRequest_def Let_def vbind_def vget_def vret_def vmod_def vlog_def)
  have s1: "requests_inv names s1" "name \<in> set (vs_pending s1)" "q < length (vs_previous s1)"
    using inv unfolding remembered_inv_def
    by (auto simp: s1_def name_def startRequest_def Let_def vbind_def vget_def vret_def vmod_def vlog_def
        requests_inv_def request_ok_def)
  let ?s2 = "s1\<lparr>vs_inflight := obj_set (''validate'' @ name) rq (vs_inflight s1)\<rparr>"
  have "remembered_inv names q ?s2"
    using s1 assms(1) unfolding requests_inv_def remembered_inv_def rq
    by (auto dest!: obj_set_mem simp: name_def request_ok_def intro: names_nth)
  moreover have "core (snd (vbind (ajax_abort (''validate'' @ name) rq) (\<lambda>_. vret Pending) s1)) = core ?s2"
    by (simp add: ajax_abort_def vbind_def vget_def vret_def vmod_def vlog_def core_def sends_def)
  ultimately have "remembered_inv names q (snd (vbind (ajax_abort (''validate'' @ name) rq) (\<lambda>_. vret Pending) s1))"
    using rem.frame by blast
  then show "remembered_inv names q (snd (vbind (startRequest f i)
           (\<lambda>_. vbind (ajax_abort (''validate'' @ el_name (f ! i)) rq) (\<lambda>_. vret Pending)) s))"
    unfolding vbind_Inr [where m = "startRequest f i", OF start] name_def .
qed

lemma remote_known_kept:
  assumes "map el_name f = names"
  shows "keeps (remembered_inv names q) (remote_known cf f val i param q)"
  unfolding remote_known_def Let_def
  by (intro keeps_bind keeps_if keeps_get keeps_ret rem.set_previous_kept rem.put_message_kept
      rem.keeps_silent start_and_abort [OF assms refl]) (simp add: core_def sends_def)

lemma remote_keeps_requests:
  assumes "map el_name f = names" shows "keeps (requests_inv names) (remote cf f val i param)"
  unfolding keeps_def
proof (intro allI impI)
  fix s assume inv: "requests_inv names s"
  show "requests_inv names (snd (remote cf f val i param s))"
  proof (cases "optional (cf_page cf) f i")
    case (Inl e)
    then show ?thesis using inv by (simp add: remote_def vbind_def vlift_def)
  next
    case (Inr opt)
    obtain q s1 where p: "previousValue cf f i ''remote'' s = (Inr q, s1)" and s1: "remembered_inv names q s1"
      using previousValue_fresh [OF inv] by blast
    have call: "remote cf f val i param s =
        (if opt then vret Mismatch s else remote_known cf f val i param q s1)"
      by (simp add: remote_def vbind_def vlift_def Inr p)
    have "keeps (remembered_inv names q) (remote_known cf f val i param q)"
      by (rule remote_known_kept [OF assms])
    with s1 inv call show ?thesis by (auto simp: vret_def remembered_inv_def dest!: vkeepsD)
  qed
qed

section \<open>Events\<close>

sublocale method_table_ok \<subseteq> invm: validator_frame "requests_inv names" mt cf "\<lambda>f. map el_name f = names" for names cf
  by unfold_locales (rule inv.library_methods_kept [OF lookup_library remote_keeps_requests])

context method_table_ok
begin

lemma on_submit_keeps_requests:
  assumes "map el_name f = names" shows "keeps (requests_inv names) (on_submit mt cf f)"
  unfolding on_submit_def
  by (intro keeps_intros invm.validator_form_kept assms inv.handle_kept inv.focusInvalid_kept keeps_mod)
     (simp_all add: requests_inv_def)

lemma submit_form_keeps_requests:
  assumes "map el_name f = names" shows "keeps (requests_inv names) (submit_form mt cf f)"
  unfolding submit_form_def vlog_def
  by (intro keeps_intros on_submit_keeps_requests assms keeps_mod) (simp add: requests_inv_def)

end

text \<open>\<^verbatim>\<open>stopRequest\<close> takes the name of the answered request from the pending ones and counts it down.\<close>

lemma length_filter_neq: "distinct xs \<Longrightarrow> x \<in> set xs \<Longrightarrow> Suc (length (filter (\<lambda>n. n \<noteq> x) xs)) = length xs"
  by (induction xs) (auto simp: filter_id_conv intro!: arg_cong [where f = length])

lemma stopped_requests:
  fixes f :: form
  assumes "answered_inv names rq s" and "map el_name f = names"
  shows "requests_inv names (s\<lparr>vs_pendingRequest := max 0 (vs_pendingRequest s - 1),
           vs_pending := filter (\<lambda>n. n \<noteq> el_name (f ! rq_element rq)) (vs_pending s)\<rparr>)"
proof -
  let ?n = "rq_name rq" and ?p = "vs_pending s"
  have inv: "requests_inv names s" and name: "el_name (f ! rq_element rq) = ?n" and mem: "?n \<in> set ?p"
    and free: "(''validate'' @ ?n) \<notin> fst ` set (vs_inflight s)"
    using assms by (simp_all add: answered_inv_def)
  have "max 0 (vs_pendingRequest s - 1) = int (length (filter (\<lambda>n. n \<noteq> ?n) ?p))"
    using length_filter_neq [OF _ mem] inv by (fastforce simp: requests_inv_def)
  moreover have "request_ok names (set (filter (\<lambda>n. n \<noteq> ?n) ?p)) (length (vs_previous s)) port r"
    if "(port, r) \<in> set (vs_inflight s)" for port r
  proof -
    have ok: "request_ok names (set ?p) (length (vs_previous s)) port r"
      using that inv unfolding requests_inv_def by blast
    have "port \<noteq> ''validate'' @ ?n" using that free by force
    with ok show ?thesis unfolding request_ok_def by auto
  qed
  ultimately show ?thesis
    using inv unfolding requests_inv_def name by auto
qed

context method_table_ok
begin

lemma stopRequest_keeps_requests:
  assumes "answered_inv names rq s" and f: "map el_name f = names"
  shows "requests_inv names (snd (stopRequest mt cf f (rq_element rq) ok s))"
  unfolding stopRequest_def vbind_vmod
proof (rule vkeepsD [where P = "requests_inv names"], goal_cases)
  case 1
  show ?case
    by (intro keeps_intros inv.log_kept invm.validator_form_kept f submit_form_keeps_requests inv.keeps_silent;
        simp add: core_def sends_def)
next
  case 2
  show ?case using assms by (rule stopped_requests)
qed

lemma remote_success_keeps_requests:
  assumes "answered_inv names rq s" and f: "map el_name f = names"
  shows "requests_inv names (snd (remote_success mt cf f rq response s))"
proof -
  have weaken: "requests_inv names s" if "answered_inv names rq s" for s
    using that by (simp add: answered_inv_def)
  have stop: "leads (answered_inv names rq) (requests_inv names) (stopRequest mt cf f (rq_element rq) ok)" for ok
    unfolding leads_def using stopRequest_keeps_requests [OF _ f] by blast
  have "leads (answered_inv names rq) (requests_inv names) (remote_success mt cf f rq response)"
    unfolding remote_success_def Let_def
    by (rule leads_bind [OF weaken], assumption, intro keeps_get,
        rule leads_bind [OF weaken], assumption, rule ans.put_message_kept,
        rule leads_bind [OF weaken], assumption,
        (intro keeps_if keeps_bind keeps_get ans.resetInternals_kept ans.showErrors_kept ans.set_previous_kept
           ans.keeps_silent; simp add: core_def sends_def),
        rule leads_bind [OF weaken], assumption, rule ans.set_previous_kept, rule stop)
  then show ?thesis using assms(1) by (rule leadsD)
qed

end

lemma ajax_failed_keeps_requests: "keeps (requests_inv names) (ajax_failed port)"
  unfolding ajax_failed_def
proof (rule keeps_mod)
  fix s assume "requests_inv names s"
  then show "requests_inv names (s\<lparr>vs_inflight := obj_del port (vs_inflight s)\<rparr>)"
    using obj_del_subset [of port "vs_inflight s"] unfolding requests_inv_def by auto
qed

context method_table_ok
begin

lemma ajax_done_keeps_requests:
  assumes f: "map el_name f = names"
  shows "keeps (requests_inv names) (ajax_done mt cf f port response)"
  unfolding keeps_def
proof (intro allI impI)
  fix s assume inv: "requests_inv names s"
  show "requests_inv names (snd (ajax_done mt cf f port response s))"
  proof (cases "obj_get (vs_inflight s) port")
    case None
    then show ?thesis using inv by (simp add: ajax_done_def vbind_vget vret_def)
  next
    case (Some rq)
    let ?s = "s\<lparr>vs_inflight := obj_del port (vs_inflight s)\<rparr>"
    have "requests_inv names ?s" using vkeepsD [OF ajax_failed_keeps_requests inv]
      by (simp add: ajax_failed_def vmod_def)
    moreover have "port = ''validate'' @ rq_name rq" "rq_name rq \<in> set (vs_pending s)"
      "\<forall>f :: form. map el_name f = names \<longrightarrow> el_name (f ! rq_element rq) = rq_name rq"
      using inv obj_get_Some_mem [OF Some] unfolding requests_inv_def request_ok_def by blast+
    ultimately have "answered_inv names rq ?s" unfolding answered_inv_def by simp
    then show ?thesis
      using remote_success_keeps_requests [OF _ f] by (simp add: ajax_done_def vbind_vget vbind_vmod Some)
  qed
qed

end

lemma resetForm_keeps_requests: "keeps (requests_inv names) (resetForm cf f)"
  unfolding resetForm_def resetElements_def
  by (intro keeps_intros inv.reset_kept inv.log_kept keeps_mod) (auto simp: requests_inv_def)

lemma on_submit_click_keeps_requests: "keeps (requests_inv names) (on_submit_click n v c nv)"
  unfolding on_submit_click_def by (rule keeps_mod) (simp add: requests_inv_def)

section \<open>Runs\<close>

inductive vruns :: "(string \<times> vmethod) list \<Rightarrow> config \<Rightarrow> vstate \<Rightarrow> vevent list \<Rightarrow> vstate \<Rightarrow> bool"
  for mt cf where
  vruns_Nil: "vruns mt cf s [] s"
| vruns_Cons: "vstep mt cf s ev s' \<Longrightarrow> vruns mt cf s' evs s'' \<Longrightarrow> vruns mt cf s (ev # evs) s''"

inductive_simps vstep_iff: "vstep mt cf s ev s'"

lemma vruns_fold: "vruns mt cf s evs (fold (vevent_run mt cf) evs s)"
  by (induction evs arbitrary: s) (auto intro: vruns_Nil vruns_Cons vstepI)

lemma vruns_keep:
  assumes "vruns mt cf s evs s'" and "\<And>ev s. E ev \<Longrightarrow> P s \<Longrightarrow> P (vevent_run mt cf ev s)"
  shows "\<forall>ev \<in> set evs. E ev \<Longrightarrow> P s \<Longrightarrow> P s'"
  using assms(1) by (induction rule: vruns.induct) (auto simp: vstep_iff assms(2))

text \<open>The fields of the form keep their places and names during the run.\<close>

fun event_named :: "string list \<Rightarrow> vevent \<Rightarrow> bool" where
  "event_named names (VSubmit f) = (map el_name f = names)"
| "event_named names (VField f i e) = (map el_name f = names)"
| "event_named names (VResponse f port r) = (map el_name f = names)"
| "event_named names (VForm f) = (map el_name f = names)"
| "event_named names (VElement f i) = (map el_name f = names)"
| "event_named names (VFieldsValid f is) = (map el_name f = names)"
| "event_named names _ = True"

context method_table_ok
begin

lemma event_keeps_requests:
  assumes "event_named names ev" and "requests_inv names s"
  shows "requests_inv names (vevent_run mt cf ev s)"
  using assms
  by (cases ev)
     (simp_all add: vevent_run_def vkeepsD [where P = "requests_inv names"] submit_form_keeps_requests
       on_submit_click_keeps_requests invm.delegate_kept ajax_done_keeps_requests ajax_failed_keeps_requests
       resetForm_keeps_requests invm.validator_form_kept invm.validator_element_kept invm.fields_valid_kept
       inv.showErrors_kept)

end

lemma requests_inv_init: "requests_inv names (init rules msgs groups)"
  by (simp add: requests_inv_def init_def)

context method_table_ok
begin

lemma run_requests_inv:
  assumes "vruns mt cf (init rules msgs groups) evs s" and "\<forall>ev \<in> set evs. event_named names ev"
  shows "requests_inv names s"
  by (rule vruns_keep [where P = "requests_inv names" and E = "event_named names", OF assms(1) _ assms(2)])
     (simp_all add: event_keeps_requests requests_inv_init)

end

text \<open>A page with one field whose value the server checks.\<close>

definition sample_user :: element where
  "sample_user =
     \<lparr>el_name = ''user'', el_id = ''user'', el_node = ''input'', el_type = ''text'', el_attrs = [],
      el_val = VStr ''bob'', el_text = [], el_checked = False, el_selected = 0, el_badInput = None, el_data = [],
      el_title = [], el_ignored = False, el_input = True, el_button = False\<rparr>"

definition sample_config :: config where
  "sample_config =
     \<lparr>cf_page = sample_page, cf_registry = sample_registry, cf_messages = messages,
      cf_message = (\<lambda>k p i. []), cf_param = (\<lambda>v p. v_text v), cf_target = (\<lambda>p. VUndef),
      cf_normalizer = (\<lambda>k v. None), cf_globalNorm = None, cf_debug = False, cf_ignoreTitle = False,
      cf_focusInvalid = True, cf_focusCleanup = False, cf_onfocusin = True, cf_onfocusout = True,
      cf_onkeyup = True, cf_onclick = True, cf_handler = None\<rparr>"

definition sample_start :: vstate where
  "sample_start = init [(''user'', PObj [(''remote'', PStr ''/check'')])] [] []"

definition sample_sent :: vstate where
  "sample_sent = fold (vevent_run methods sample_config) [VSubmit [sample_user]] sample_start"

lemma sample_sent_run: "vruns methods sample_config sample_start [VSubmit [sample_user]] sample_sent"
  unfolding sample_sent_def by (rule vruns_fold)

lemma sample_sent_inflight: "map fst (vs_inflight sample_sent) = [''validateuser'']"
  by code_simp

text \<open>
  C15: in every run of the validator, with the methods of the library and any others a page adds that
  only look at the value, and with any interleaving of edits, submissions, answers and failed requests, \<^verbatim>\<open>pendingRequest\<close> is the number of names in \<^verbatim>\<open>pending\<close>, every request under way belongs to a
  pending name and to a remembered value that exists, and there is at most one per name. The guard of
  \<^verbatim>\<open>stopRequest\<close> against a negative count is never used.
\<close>

theorem pending_requests_counted:
  assumes "list_all (\<lambda>(name, fn). library_method fn) mt"
    and "vruns mt cf (init rules msgs groups) evs s"
    and "\<forall>ev \<in> set evs. event_named names ev"
  shows "requests_inv names s \<and> (vs_inflight s \<noteq> [] \<longrightarrow> 0 \<le> vs_pendingRequest s - 1)"
proof -
  have inv: "requests_inv names s"
    by (rule method_table_ok.run_requests_inv [OF method_table_ok.intro [OF assms(1)] assms(2,3)])
  have "vs_pending s \<noteq> []" if "vs_inflight s \<noteq> []"
    using that inv by (cases "vs_inflight s") (auto simp: requests_inv_def request_ok_def)
  with inv show ?thesis by (auto simp: requests_inv_def Suc_le_eq)
qed

theorem pending_requests_counted_witness:
  "requests_inv [''user''] sample_sent \<and> vs_inflight sample_sent \<noteq> [] \<and> 0 \<le> vs_pendingRequest sample_sent - 1"
proof -
  have "\<forall>ev \<in> set [VSubmit [sample_user]]. event_named [''user''] ev" by (simp add: sample_user_def)
  from pending_requests_counted [OF methods_library sample_sent_run [unfolded sample_start_def] this] sample_sent_inflight
  show ?thesis by auto
qed

section \<open>A pending name blocks the submission\<close>

definition blocked :: "string \<Rightarrow> nat \<Rightarrow> vstate \<Rightarrow> bool" where
  "blocked name n s \<longleftrightarrow>
     name \<in> set (vs_pending s) \<and> 0 < vs_pendingRequest s \<and> \<not> vs_cancelSubmit s \<and> sends s = n"

interpretation blk: request_frame "blocked name n" for name n
  by unfold_locales (simp add: core_def blocked_def)

lemma remote_keeps_blocked: "keeps (blocked name n) (remote cf f val i param)"
proof -
  have "keeps (blocked name n) (previousValue cf f i ''remote'')"
    unfolding previousValue_def
    by (intro keeps_intros keeps_mod) (simp add: blocked_def sends_def)
  moreover have "keeps (blocked name n) (startRequest f i)"
    unfolding startRequest_def
    by (intro keeps_intros keeps_mod blk.log_kept) (simp_all add: blocked_def sends_def)
  moreover have "keeps (blocked name n) (ajax_abort port rq)" for port rq
    unfolding ajax_abort_def
    by (intro keeps_intros keeps_mod blk.log_kept) (simp_all add: blocked_def sends_def)
  ultimately show ?thesis
    unfolding remote_def remote_known_def
    by (intro keeps_intros blk.set_previous_kept blk.put_message_kept blk.keeps_silent)
       (simp_all add: core_def sends_def)
qed

sublocale method_table_ok \<subseteq> blkm: validator_frame "blocked name n" mt cf "\<lambda>f. True" for name n cf
  by unfold_locales (rule blk.library_methods_kept [OF lookup_library remote_keeps_blocked])

context method_table_ok
begin

lemma submit_form_blocked: "keeps (blocked name n) (submit_form mt cf f)"
  unfolding keeps_def
proof (intro allI impI)
  fix s assume s: "blocked name n s"
  obtain r s1 where form: "validator_form mt cf f s = (r, s1)" by fastforce
  have s1: "blocked name n s1"
    using vkeepsD [OF blkm.validator_form_kept [OF TrueI] s, of cf f] by (simp add: form)
  have focus: "blocked name n (snd (focusInvalid cf f s1))"
    using blk.focusInvalid_kept s1 by (rule vkeepsD)
  show "blocked name n (snd (submit_form mt cf f s))"
  proof (cases r)
    case (Inl e)
    then show ?thesis using s s1 form
      by (simp add: submit_form_def on_submit_def vbind_def vget_def blocked_def)
  next
    case (Inr ok)
    show ?thesis
    proof (cases ok)
      case True
      then show ?thesis using s s1 form Inr
        by (simp add: submit_form_def on_submit_def vbind_def vget_def vmod_def vret_def blocked_def sends_def)
    next
      case False
      then show ?thesis using s focus form Inr
        by (cases "focusInvalid cf f s1"; cases "fst (focusInvalid cf f s1)")
           (auto simp: submit_form_def on_submit_def vbind_def vget_def vret_def blocked_def)
    qed
  qed
qed

end

text \<open>Events other than the answer of the server and the click on a button that skips the validation.\<close>

fun unanswered :: "vevent \<Rightarrow> bool" where
  "unanswered (VResponse f port r) = False"
| "unanswered (VSubmitClick n v cancel novalidate) = (\<not> cancel \<and> \<not> novalidate)"
| "unanswered _ = True"

context method_table_ok
begin

lemma event_keeps_blocked:
  assumes "unanswered ev" and "blocked name n s"
  shows "blocked name n (vevent_run mt cf ev s)"
proof -
  have "keeps (blocked name n) (resetForm cf f)" for f
    unfolding resetForm_def resetElements_def
    by (intro keeps_intros blk.reset_kept blk.log_kept keeps_mod)
       (auto simp: blocked_def sends_def filter_map comp_def)
  moreover have "keeps (blocked name n) (ajax_failed port)" for port
    unfolding ajax_failed_def by (rule keeps_mod) (simp add: blocked_def sends_def)
  moreover have "keeps (blocked name n) (on_submit_click a v False False)" for a v
    unfolding on_submit_click_def by (rule keeps_mod) (simp add: blocked_def sends_def)
  ultimately show ?thesis using assms
    by (cases ev)
       (simp_all add: vevent_run_def vkeepsD [where P = "blocked name n"] submit_form_blocked
         blkm.delegate_kept blkm.validator_form_kept blkm.validator_element_kept blkm.fields_valid_kept
         blk.showErrors_kept)
qed

end



end
