(* ===== verification/Jv_FormCheck.thy ===== *)
theory Jv_FormCheck
  imports Jv_Requests
begin

text \<open>
  What the validation of a form without remote rules computes. The reference functions
  \<open>first_failing\<close>, \<open>field_error\<close> and \<open>form_errors\<close> have no state: they run the methods of a field in the
  order of its rules and stop at the first one that fails. The validator, which goes through the
  state at every step, is proved to report exactly these errors and to send exactly the forms
  without one.
\<close>

section \<open>Methods that only look at their arguments\<close>

definition blank :: vstate where
  "blank = init [] [] []"

definition local_method :: "vmethod \<Rightarrow> bool" where
  "local_method fn \<longleftrightarrow>
     (\<forall>cf f val i p s. \<exists>b. fn cf f val i p s = (fst (fn cf f val i p blank), s\<lparr>vs_blurBound := b\<rparr>)) \<and>
     (\<forall>cf f val i p s. fst (fn cf f val i p s) \<noteq> Inr Pending)"

lemma blurBound_same: "\<exists>b. s = s\<lparr>vs_blurBound := b\<rparr>"
  by (rule exI [of _ "vs_blurBound s"]) simp

lemma pure_local: "(\<And>pg f val i p. g pg f val i p \<noteq> Inr Pending) \<Longrightarrow> local_method (pure_method g)"
  by (simp add: local_method_def pure_method_def vlift_def blurBound_same)

lemma paged_local:
  assumes "\<And>cf opt t. g cf opt t \<noteq> Pending" shows "local_method (\<lambda>cf. text_method (g cf) cf)"
proof -
  have "text_method (g cf) cf f val i p s =
      (case optional (cf_page cf) f i of Inl e \<Rightarrow> Inl e | Inr opt \<Rightarrow> Inr (g cf opt (v_text val)), s)" for cf f val i p s
    by (simp add: text_method_def vbind_def vlift_def vret_def split: sum.split)
  then show ?thesis using assms blurBound_same unfolding local_method_def by (auto split: sum.split)
qed

lemma text_local: "(\<And>opt t. g opt t \<noteq> Pending) \<Longrightarrow> local_method (text_method g)"
  using paged_local [of "\<lambda>_. g"] by simp

lemma equalTo_local: "local_method equalTo"
  unfolding local_method_def equalTo_def vbind_vmod vret_def
  by (auto intro: blurBound_same)

text \<open>None of them answers that it is pending.\<close>

lemma rbind_not_pending: "(\<And>x. k x \<noteq> Inr Pending) \<Longrightarrow> rbind m k \<noteq> Inr Pending"
  by (cases m) simp_all

lemma opt_or_not_pending: "opt_or opt b \<noteq> Pending" "opt_or_try opt r \<noteq> Inr Pending"
  by (simp_all add: opt_or_def opt_or_try_def rbind_not_pending)

lemma or_optional_not_pending: "or_optional pg f i test \<noteq> Inr Pending"
  unfolding or_optional_def by (intro rbind_not_pending opt_or_not_pending)

lemma text_methods_not_pending:
  "email opt t \<noteq> Pending" "url opt t \<noteq> Pending" "date_method pg opt t \<noteq> Pending" "dateISO opt t \<noteq> Pending"
  "number opt t \<noteq> Pending" "digits opt t \<noteq> Pending"
  unfolding email_def url_def date_method_def dateISO_def number_def digits_def
  by (rule opt_or_not_pending)+

lemma pure_methods_not_pending:
  "required pg f val i p \<noteq> Inr Pending" "minlength pg f val i p \<noteq> Inr Pending"
  "maxlength pg f val i p \<noteq> Inr Pending" "rangelength pg f val i p \<noteq> Inr Pending"
  "min_method pg f val i p \<noteq> Inr Pending" "max_method pg f val i p \<noteq> Inr Pending"
  "range_method pg f val i p \<noteq> Inr Pending" "step pg f val i p \<noteq> Inr Pending"
  unfolding minlength_def maxlength_def rangelength_def min_method_def max_method_def range_method_def
  by (intro rbind_not_pending or_optional_not_pending |
      simp add: required_def step_def Let_def rbind_not_pending or_optional_not_pending split: option.split)+

lemma methods_local: "list_all (\<lambda>(name, fn). name = ''remote'' \<or> local_method fn) methods"
proof -
  have remote: "(''remote'' = ''remote'') \<or> local_method fn" for fn by simp
  show ?thesis
    unfolding methods_def list.pred_inject prod.case
    by (intro conjI remote disjI2 [of "local_method fn" for fn] list.pred_inject(1);
        rule pure_local text_local paged_local equalTo_local;
        rule text_methods_not_pending pure_methods_not_pending)
qed

lemma methods_lookup_local: "obj_get methods name = Some fn \<Longrightarrow> name \<noteq> ''remote'' \<Longrightarrow> local_method fn"
  using methods_local by (auto simp: list_all_iff dest: obj_get_Some_mem)

section \<open>Reference: the errors of a form\<close>

text \<open>The result of a method, as on a fresh validator.\<close>

definition outcome :: "config \<Rightarrow> form \<Rightarrow> fval \<Rightarrow> nat \<Rightarrow> string \<Rightarrow> pval \<Rightarrow> mres result" where
  "outcome cf f val i m p = fst (call_method methods cf f m val i p blank)"

fun first_failing :: "config \<Rightarrow> form \<Rightarrow> fval \<Rightarrow> nat \<Rightarrow> rules \<Rightarrow> string option result" where
  "first_failing cf f val i [] = Inr None"
| "first_failing cf f val i ((m, p) # rs) =
     rbind (outcome cf f val i m p) (\<lambda>r. if m_truthy r then first_failing cf f val i rs else Inr (Some m))"

text \<open>The rules and the value a field is checked with, after the normalizer.\<close>

definition checked_with :: "config \<Rightarrow> (string \<times> pval) list \<Rightarrow> form \<Rightarrow> nat \<Rightarrow> (fval \<times> rules) result" where
  "checked_with cf sr f i =
     rbind (field_rules (cf_registry cf) (cf_page cf) sr f i) (\<lambda>rules.
     rbind (elementValue f i) (\<lambda>val.
       case normalizer_of cf rules of
         None \<Rightarrow> Inr (val, rules)
       | Some k \<Rightarrow>
           (case cf_normalizer cf k val of
              None \<Rightarrow> Inl (TypeError ''The normalizer should return a string value.'')
            | Some t \<Rightarrow> Inr (VStr t, obj_del ''normalizer'' rules))))"

definition field_error :: "config \<Rightarrow> (string \<times> pval) list \<Rightarrow> form \<Rightarrow> nat \<Rightarrow> (nat \<times> string) list result" where
  "field_error cf sr f i0 =
     (case validationTargetFor f i0 of
        None \<Rightarrow> Inl (TypeError (''Cannot read properties of undefined (reading '' @ sq ''type'' @ '')''))
      | Some i \<Rightarrow>
          rbind (checked_with cf sr f i) (\<lambda>(val, rules).
          rbind (first_failing cf f val i rules) (\<lambda>x.
            Inr (case x of None \<Rightarrow> [] | Some m \<Rightarrow> [(i, m)]))))"

fun form_errors :: "config \<Rightarrow> (string \<times> pval) list \<Rightarrow> form \<Rightarrow> nat list \<Rightarrow> (nat \<times> string) list result" where
  "form_errors cf sr f [] = Inr []"
| "form_errors cf sr f (i # is) =
     rbind (field_error cf sr f i) (\<lambda>e. rbind (form_errors cf sr f is) (\<lambda>es. Inr (e @ es)))"

text \<open>No field of the form is checked by the server.\<close>

definition no_remote :: "config \<Rightarrow> (string \<times> pval) list \<Rightarrow> form \<Rightarrow> nat list \<Rightarrow> bool" where
  "no_remote cf sr f is \<longleftrightarrow>
     list_all (\<lambda>i. case validationTargetFor f i of
                     None \<Rightarrow> True
                   | Some t \<Rightarrow> (case checked_with cf sr f t of
                                 Inl e \<Rightarrow> True | Inr (val, rules) \<Rightarrow> ''remote'' \<notin> fst ` set rules)) is"

section \<open>The validator computes the reference\<close>

definition errors_of :: "vstate \<Rightarrow> (nat option \<times> string option) list" where
  "errors_of s = map (\<lambda>e. (er_element e, er_method e)) (vs_errorList s)"

abbreviation reported :: "(nat \<times> string) list \<Rightarrow> (nat option \<times> string option) list" where
  "reported es \<equiv> map (\<lambda>(i, m). (Some i, Some m)) es"

text \<open>What the checks of fields leave alone.\<close>

definition quiet :: "vstate \<Rightarrow> vstate \<Rightarrow> bool" where
  "quiet s s' \<longleftrightarrow> vs_rules s' = vs_rules s \<and> vs_pendingRequest s' = vs_pendingRequest s \<and>
     vs_cancelSubmit s' = vs_cancelSubmit s \<and> sends s' = sends s"

definition reports :: "'a vm \<Rightarrow> vstate \<Rightarrow> (nat \<times> string) list \<Rightarrow> 'a \<Rightarrow> vstate \<Rightarrow> bool" where
  "reports m s es x s' \<longleftrightarrow> m s = (Inr x, s') \<and> quiet s s' \<and> errors_of s' = errors_of s @ reported es"

lemma call_method_local:
  assumes "name \<noteq> ''remote''"
  shows "\<exists>b. call_method methods cf f name val i p s = (outcome cf f val i name p, s\<lparr>vs_blurBound := b\<rparr>)"
    and "outcome cf f val i name p \<noteq> Inr Pending"
proof -
  show "\<exists>b. call_method methods cf f name val i p s = (outcome cf f val i name p, s\<lparr>vs_blurBound := b\<rparr>)"
  proof (cases "obj_get methods name")
    case None
    then show ?thesis by (simp add: call_method_def outcome_def blurBound_same)
  next
    case (Some fn)
    then have "local_method fn" using assms by (rule methods_lookup_local)
    then obtain b where b: "fn cf f val i p s = (fst (fn cf f val i p blank), s\<lparr>vs_blurBound := b\<rparr>)"
      unfolding local_method_def by blast
    show ?thesis
      by (rule exI [of _ b])
         (cases "fn cf f val i p blank"; cases "fst (fn cf f val i p blank)";
          auto simp: call_method_def outcome_def Some b split: js_error.split)
  qed
  show "outcome cf f val i name p \<noteq> Inr Pending"
  proof (cases "obj_get methods name")
    case (Some fn)
    then have "fst (fn cf f val i p blank) \<noteq> Inr Pending"
      using methods_lookup_local [OF _ assms] unfolding local_method_def by blast
    then show ?thesis
      by (cases "fn cf f val i p blank"; cases "fst (fn cf f val i p blank)")
         (auto simp: call_method_def outcome_def Some split: js_error.split)
  qed (simp add: call_method_def outcome_def)
qed

lemma check_rules_reports:
  assumes "first_failing cf f val i rs = Inr x" and "''remote'' \<notin> fst ` set rs"
  shows "\<exists>c s'. reports (check_rules methods cf f i val n rules mismatch rs) s
           (case x of None \<Rightarrow> [] | Some m \<Rightarrow> [(i, m)]) c s'"
  using assms
proof (induction rs arbitrary: mismatch s)
  case Nil
  then show ?case
    by (cases "mismatch \<or> objectLength rules = 0")
       (auto simp: reports_def quiet_def errors_of_def sends_def vret_def vbind_def vmod_def)
next
  case (Cons r rs)
  obtain m p where r: "r = (m, p)" by (cases r)
  have m: "m \<noteq> ''remote''" and rs: "''remote'' \<notin> fst ` set rs" using Cons.prems(2) r by auto
  obtain res where res: "outcome cf f val i m p = Inr res"
    using Cons.prems(1) r by (cases "outcome cf f val i m p") auto
  obtain b where call: "call_method methods cf f m val i p s = (Inr res, s\<lparr>vs_blurBound := b\<rparr>)"
    using call_method_local(1) [OF m, of cf f val i p s] res by auto
  have call_then: "vbind (call_method methods cf f m val i p) k s = k res (s\<lparr>vs_blurBound := b\<rparr>)" for k :: "mres \<Rightarrow> checked vm"
    using call by (rule vbind_Inr)
  have "res \<noteq> Pending" using call_method_local(2) [OF m, of cf f val i p] res by simp
  have same: "quiet s s' \<longleftrightarrow> quiet (s\<lparr>vs_blurBound := b\<rparr>) s'" "errors_of (s\<lparr>vs_blurBound := b\<rparr>) = errors_of s" for s'
    by (simp_all add: quiet_def errors_of_def sends_def)
  show ?case
  proof (cases "m_truthy res")
    case True
    then have "first_failing cf f val i rs = Inr x" using Cons.prems(1) r res by simp
    note IH = Cons.IH [OF this rs, where s = "s\<lparr>vs_blurBound := b\<rparr>", unfolded reports_def, folded same(1), unfolded same(2)]
    show ?thesis
      using IH [of True] IH [of False] True \<open>res \<noteq> Pending\<close>
      unfolding r check_rules.simps reports_def call_then by auto
  next
    case False
    then have "x = Some m" using Cons.prems(1) r res by simp
    then show ?thesis using False \<open>res \<noteq> Pending\<close>
      unfolding r check_rules.simps reports_def call_then
      by (cases res) (auto simp: formatAndAdd_def vbind_vmod vret_def Let_def quiet_def errors_of_def sends_def)
  qed
qed

lemma vbind_vlift_Inr: "vbind (vlift (Inr x)) k s = k x s"
  by (simp add: vbind_def vlift_def)

lemma check_reports:
  assumes "field_error cf (vs_rules s) f i0 = Inr es" and "no_remote cf (vs_rules s) f [i0]"
  shows "\<exists>c s'. reports (check methods cf f i0) s es c s'"
proof -
  obtain i where i: "validationTargetFor f i0 = Some i"
    using assms(1) by (auto simp: field_error_def split: option.splits)
  obtain val rules where cw: "checked_with cf (vs_rules s) f i = Inr (val, rules)"
    using assms(1) i by (auto simp: field_error_def rbind_Inr_iff)
  obtain x where x: "first_failing cf f val i rules = Inr x" and es: "es = (case x of None \<Rightarrow> [] | Some m \<Rightarrow> [(i, m)])"
    using assms(1) i cw by (auto simp: field_error_def rbind_Inr_iff)
  have rem: "''remote'' \<notin> fst ` set rules" using assms(2) i cw by (simp add: no_remote_def)
  obtain rules0 val0 where r0: "field_rules (cf_registry cf) (cf_page cf) (vs_rules s) f i = Inr rules0"
    and v0: "elementValue f i = Inr val0"
    using cw unfolding checked_with_def rbind_Inr_iff by blast
  have "check methods cf f i0 s = check_rules methods cf f i val (length rules0) rules False rules s"
    using cw by (auto simp: check_def i vbind_vget r0 v0 vbind_vlift_Inr checked_with_def Let_def
        split: option.splits)
  then show ?thesis
    using check_rules_reports [OF x rem, where s = s] unfolding es reports_def by simp
qed

lemma quiet_trans: "quiet s s1 \<Longrightarrow> quiet s1 s2 \<Longrightarrow> quiet s s2"
  by (simp add: quiet_def)

lemma check_all_reports:
  assumes "form_errors cf (vs_rules s) f is = Inr es" and "no_remote cf (vs_rules s) f is"
  shows "\<exists>s'. reports (check_all methods cf f is) s es () s'"
  using assms
proof (induction "is" arbitrary: s es)
  case Nil
  then show ?case by (simp add: reports_def vret_def quiet_def)
next
  case (Cons i "is")
  obtain e es' where e: "field_error cf (vs_rules s) f i = Inr e"
    and es': "form_errors cf (vs_rules s) f is = Inr es'" and es: "es = e @ es'"
    using Cons.prems(1) by (auto simp: rbind_Inr_iff)
  have "no_remote cf (vs_rules s) f [i]" and rem: "no_remote cf (vs_rules s) f is"
    using Cons.prems(2) by (simp_all add: no_remote_def)
  with check_reports [OF e] obtain c s1 where s1: "reports (check methods cf f i) s e c s1" by blast
  then have "vs_rules s1 = vs_rules s" by (simp add: reports_def quiet_def)
  then obtain s2 where "reports (check_all methods cf f is) s1 es' () s2"
    using Cons.IH [of s1 es'] es' rem by auto
  with s1 have "reports (check_all methods cf f (i # is)) s (e @ es') () s2"
    by (auto simp: reports_def vbind_def intro: quiet_trans)
  then show ?case unfolding es by blast
qed

lemma showErrors_None: "\<exists>s'. showErrors f None s = (Inr (), s') \<and> quiet s s' \<and> vs_errorList s' = vs_errorList s"
  by (simp add: showErrors_def vbind_def vret_def vget_def vlog_def vmod_def quiet_def sends_def)

lemma checkForm_reports:
  assumes el: "elements cf (vs_rules s) f = Inr es" and "form_errors cf (vs_rules s) f es = Inr errs"
    and "no_remote cf (vs_rules s) f es"
  shows "\<exists>s'. checkForm methods cf f s = (Inr (errs = []), s') \<and> quiet s s' \<and> errors_of s' = reported errs"
proof -
  let ?s = "s\<lparr>vs_successList := [], vs_errorList := [], vs_errorMap := [], vs_currentElements := es\<rparr>"
  obtain s' where "reports (check_all methods cf f es) ?s errs () s'"
    using check_all_reports [of cf ?s f es errs] assms(2,3) by auto
  then have s': "check_all methods cf f es ?s = (Inr (), s')" "quiet ?s s'" "errors_of s' = reported errs"
    by (simp_all add: reports_def errors_of_def)
  have "valid s' \<longleftrightarrow> errs = []" using s'(3) by (auto simp: valid_def errors_of_def)
  moreover have "checkForm methods cf f s = (Inr (valid s'), s')"
    using s'(1) el
    by (simp add: checkForm_def reset_def resetInternals_def vbind_def vmod_def vget_def vlift_def)
  moreover have "quiet s s'" using s'(2) by (simp add: quiet_def sends_def)
  ultimately show ?thesis using s'(3) by simp
qed

lemma validator_form_reports:
  assumes "elements cf (vs_rules s) f = Inr es" and "form_errors cf (vs_rules s) f es = Inr errs"
    and "no_remote cf (vs_rules s) f es"
  shows "\<exists>s'. validator_form methods cf f s = (Inr (errs = []), s') \<and> quiet s s' \<and> errors_of s' = reported errs"
proof -
  obtain s1 where s1: "checkForm methods cf f s = (Inr (errs = []), s1)" "quiet s s1" "errors_of s1 = reported errs"
    using checkForm_reports [OF assms] by blast
  let ?s2 = "s1\<lparr>vs_submitted := obj_spread (vs_submitted s1) (vs_errorMap s1),
                vs_invalid := map (\<lambda>(n, m). (n, IMsg m)) (vs_errorMap s1),
                vs_log := vs_log s1 @ (if errs = [] then [] else [EInvalidForm])\<rparr>"
  obtain s3 where s3: "showErrors f None ?s2 = (Inr (), s3)" "quiet ?s2 s3" "vs_errorList s3 = vs_errorList ?s2"
    using showErrors_None by blast
  have v: "vs_errorList s1 = [] \<longleftrightarrow> errs = []" using s1(3) by (auto simp: errors_of_def)
  have "validator_form methods cf f s = (Inr (errs = []), s3)"
    using s1(1) s3 v
    by (cases "errs = []") (simp_all add: validator_form_def vbind_def vmod_def vget_def vret_def vlog_def valid_def)
  moreover have "quiet s s3" using s1(2) s3(2) by (simp add: quiet_def sends_def)
  moreover have "errors_of s3 = reported errs" using s1(3) s3(3) by (simp add: errors_of_def)
  ultimately show ?thesis by blast
qed

lemma handle_sends: "cf_handler cf = None \<Longrightarrow> \<exists>s'. handle cf s = (Inr True, s') \<and> sends s' = sends s"
  by (cases "vs_submitButton s"; cases "vs_formSubmitted s")
     (auto simp: handle_def vbind_def vget_def vlog_def vmod_def vret_def sends_def)

lemma on_focusin_sends: "\<exists>s'. on_focusin cf f i s = (Inr (), s') \<and> sends s' = sends s"
  by (simp add: on_focusin_def vbind_vmod vlog_def vmod_def vret_def sends_def)

lemma focusInvalid_sends: "\<exists>s'. focusInvalid cf f s = (Inr (), s') \<and> sends s' = sends s"
proof -
  have log: "\<exists>s'. vbind (vlog (EFocus i)) (\<lambda>_. if cf_onfocusin cf then on_focusin cf f i else vret ()) s = (Inr (), s') \<and>
      sends s' = sends s" for i
    using on_focusin_sends [of cf f i "s\<lparr>vs_log := vs_log s @ [EFocus i]\<rparr>"]
    by (simp add: vlog_def vbind_vmod vret_def sends_def)
  show ?thesis
    unfolding focusInvalid_def vbind_vget
    using log by (auto simp: vbind_vget vret_def split: option.split)
qed

text \<open>
  C14: a form without remote rules. The validator reports one error for each invalid field, the first
  of its rules (in their order) that fails, in the order of the fields, and says the form is valid
  exactly when there is none. A submission sends the form exactly when it is valid and no request is
  pending.
\<close>

theorem form_sent_iff_fields_pass:
  assumes "elements cf (vs_rules s) f = Inr es" and "form_errors cf (vs_rules s) f es = Inr errs"
    and "no_remote cf (vs_rules s) f es"
    and "\<not> vs_cancelSubmit s" and "cf_handler cf = None" and "\<not> cf_debug cf"
  shows "(\<exists>s'. validator_form methods cf f s = (Inr (errs = []), s') \<and> errors_of s' = reported errs) \<and>
    sends (snd (submit_form methods cf f s)) =
      sends s + (if errs = [] \<and> vs_pendingRequest s = 0 then 1 else 0)"
proof
  obtain s1 where s1: "validator_form methods cf f s = (Inr (errs = []), s1)" "quiet s s1"
    "errors_of s1 = reported errs"
    using validator_form_reports [OF assms(1-3)] by blast
  then show "\<exists>s'. validator_form methods cf f s = (Inr (errs = []), s') \<and> errors_of s' = reported errs" by blast
  obtain s2 where s2: "focusInvalid cf f s1 = (Inr (), s2)" "sends s2 = sends s1" using focusInvalid_sends by blast
  obtain s3 where s3: "handle cf s1 = (Inr True, s3)" "sends s3 = sends s1" using handle_sends assms(5) by blast
  show "sends (snd (submit_form methods cf f s)) =
      sends s + (if errs = [] \<and> vs_pendingRequest s = 0 then 1 else 0)"
    using s1(1,2) s2 s3 assms(4,6)
    by (cases "errs = []"; cases "vs_pendingRequest s = 0")
       (simp_all add: submit_form_def on_submit_def vbind_def vget_def vmod_def vret_def vlog_def quiet_def sends_def)
qed

theorem form_sent_iff_fields_pass_witness:
  "sends (snd (submit_form methods sample_config [sample_user]
     (init [(''user'', PObj [(''minlength'', PNum (Dec 3 0)), (''required'', PBool True)])] [] []))) = 1 \<and>
   (\<exists>s'. validator_form methods sample_config [sample_user]
      (init [(''user'', PObj [(''minlength'', PNum (Dec 4 0)), (''required'', PBool True)])] [] []) = (Inr False, s') \<and>
      errors_of s' = [(Some 0, Some ''minlength'')])"
proof -
  define s where "s k = init [(''user'', PObj [(''minlength'', PNum (Dec k 0)), (''required'', PBool True)])] [] []" for k
  have cf: "cf_handler sample_config = None" "\<not> cf_debug sample_config" by code_simp+
  have "elements sample_config (vs_rules (s 3)) [sample_user] = Inr [0]"
    "form_errors sample_config (vs_rules (s 3)) [sample_user] [0] = Inr []"
    "no_remote sample_config (vs_rules (s 3)) [sample_user] [0]"
    "\<not> vs_cancelSubmit (s 3)" "vs_pendingRequest (s 3) = 0" "sends (s 3) = 0"
    unfolding s_def by code_simp+
  with form_sent_iff_fields_pass [of sample_config "s 3" "[sample_user]" "[0]" "[]"] cf
  have "sends (snd (submit_form methods sample_config [sample_user] (s 3))) = 1" by simp
  moreover have "elements sample_config (vs_rules (s 4)) [sample_user] = Inr [0]"
    "form_errors sample_config (vs_rules (s 4)) [sample_user] [0] = Inr [(0, ''minlength'')]"
    "no_remote sample_config (vs_rules (s 4)) [sample_user] [0]" "\<not> vs_cancelSubmit (s 4)"
    unfolding s_def by code_simp+
  with form_sent_iff_fields_pass [of sample_config "s 4" "[sample_user]" "[0]" "[(0, ''minlength'')]"] cf
  have "\<exists>s'. validator_form methods sample_config [sample_user] (s 4) = (Inr False, s') \<and>
      errors_of s' = [(Some 0, Some ''minlength'')]" by simp
  ultimately show ?thesis unfolding s_def by blast
qed

end
