(* ===== verification/Jv_Unobtrusive.thy ===== *)
theory Jv_Unobtrusive
  imports Jv_FormCheck
begin

text \<open>
  jquery.validate.unobtrusive.js: the rules and messages of a form are read from the \<^verbatim>\<open>data-val-*\<close>
  attributes that the server writes into the fields. An adapter turns the attributes of one kind
  into rules of the validator; \<open>unobtrusive_parse\<close> runs all adapters over all fields of the form and
  \<open>unobtrusive_start\<close> creates the validator with the result.

  The functions that place errors in the document (\<^verbatim>\<open>onError\<close>, \<^verbatim>\<open>onErrors\<close>, \<^verbatim>\<open>onSuccess\<close>) are not modelled.
\<close>

section \<open>Helpers\<close>

text \<open>The rules and the messages under construction for one field.\<close>

type_synonym uopts = "rules \<times> rules"

definition setValidationValues :: "string \<Rightarrow> string \<Rightarrow> pval \<Rightarrow> uopts \<Rightarrow> uopts" where
  "setValidationValues msg ruleName v opts =
     (obj_set ruleName v (fst opts), if msg \<noteq> [] then obj_set ruleName (PStr msg) (snd opts) else snd opts)"

text \<open>\<^verbatim>\<open>s.split(re)\<close> for an expression that never matches the empty text: what lies between the matches.\<close>

fun pieces :: "string \<Rightarrow> (rpos \<times> rpos) list \<Rightarrow> string list" where
  "pieces s [] = [s]"
| "pieces s (ab # rest) = take (length s - length (snd (fst ab))) s # pieces (snd (snd ab)) rest"

definition splitAndTrim :: "string \<Rightarrow> string list" where
  "splitAndTrim v =
     (let t = re_replace False (bs ''^@s+|@s+$'') [] v in
      case regex_parse (bs ''@s*,@s*'') of Some r \<Rightarrow> pieces t (rx_spans r False t) | None \<Rightarrow> [t])"

definition escapeAttributeValue :: "string \<Rightarrow> string" where
  "escapeAttributeValue v =
     concat (map (\<lambda>c. if c \<in> set (''!#$%&()*+,./:;<=>?@[]^`{|}~'' @ [CHR 0x22, CHR 0x27, CHR 0x5C])
                     then [CHR 0x5C, c] else [c]) v)"

text \<open>\<^verbatim>\<open>fieldName.substr(0, fieldName.lastIndexOf(".") + 1)\<close>: up to the last dot.\<close>

definition getModelPrefix :: "string \<Rightarrow> string" where
  "getModelPrefix fieldName = rev (dropWhile (\<lambda>c. c \<noteq> CHR ''.'') (rev fieldName))"

text \<open>The replacement text of \<^verbatim>\<open>replace\<close>, in which a dollar sign has a meaning, for a match at the start.\<close>

fun substitution :: "string \<Rightarrow> string \<Rightarrow> string \<Rightarrow> string" where
  "substitution matched behind [] = []"
| "substitution matched behind [c] = [c]"
| "substitution matched behind (c # d # r) =
     (if c = CHR ''$'' \<and> d = CHR ''$'' then CHR ''$'' # substitution matched behind r
      else if c = CHR ''$'' \<and> d = CHR ''&'' then matched @ substitution matched behind r
      else if c = CHR ''$'' \<and> d = CHR ''`'' then substitution matched behind r
      else if c = CHR ''$'' \<and> d = CHR 0x27 then behind @ substitution matched behind r
      else c # substitution matched behind (d # r))"

definition appendModelPrefix :: "string \<Rightarrow> string \<Rightarrow> string" where
  "appendModelPrefix v pfx =
     (if prefix ''*.'' v then substitution ''*.'' (drop 2 v) pfx @ drop 2 v else v)"

section \<open>Adapters\<close>

text \<open>
  An adapter has a name, the names of its parameters and a function from the form, the field, the
  message and the parameters (undefined where the attribute is missing).
\<close>

record adapter =
  ad_name   :: string
  ad_params :: "string list"
  ad_adapt  :: "form \<Rightarrow> nat \<Rightarrow> string \<Rightarrow> rules \<Rightarrow> uopts \<Rightarrow> uopts result"

definition add :: "string \<Rightarrow> string list \<Rightarrow> (form \<Rightarrow> nat \<Rightarrow> string \<Rightarrow> rules \<Rightarrow> uopts \<Rightarrow> uopts result) \<Rightarrow> adapter list \<Rightarrow> adapter list" where
  "add adapterName params fn ads = ads @ [\<lparr>ad_name = adapterName, ad_params = params, ad_adapt = fn\<rparr>]"

definition addBool :: "string \<Rightarrow> string option \<Rightarrow> adapter list \<Rightarrow> adapter list" where
  "addBool adapterName ruleName =
     add adapterName [] (\<lambda>f i msg params opts.
       Inr (setValidationValues msg (case ruleName of Some r \<Rightarrow> r | None \<Rightarrow> adapterName) (PBool True) opts))"

text \<open>An argument that is left out is \<^verbatim>\<open>undefined\<close>, also when it is used as the name of a property.\<close>

definition key_of :: "string option \<Rightarrow> string" where
  "key_of x = (case x of Some k \<Rightarrow> k | None \<Rightarrow> ''undefined'')"

definition addMinMax ::
    "string \<Rightarrow> string \<Rightarrow> string option \<Rightarrow> string option \<Rightarrow> string option \<Rightarrow> string option \<Rightarrow> adapter list \<Rightarrow> adapter list" where
  "addMinMax adapterName minRuleName maxRuleName minMaxRuleName minAttribute maxAttribute =
     add adapterName
       [case minAttribute of Some a \<Rightarrow> a | None \<Rightarrow> ''min'', case maxAttribute of Some a \<Rightarrow> a | None \<Rightarrow> ''max'']
       (\<lambda>f i msg params opts.
          let lo = rule_get params ''min''; hi = rule_get params ''max'' in
          Inr (if p_truthy lo \<and> p_truthy hi then setValidationValues msg (key_of minMaxRuleName) (PArr [lo, hi]) opts
               else if p_truthy lo then setValidationValues msg minRuleName lo opts
               else if p_truthy hi then setValidationValues msg (key_of maxRuleName) hi opts
               else opts))"

text \<open>The parameter is read under the argument \<^verbatim>\<open>attribute\<close> itself, not under its default.\<close>

definition addSingleVal :: "string \<Rightarrow> string option \<Rightarrow> string option \<Rightarrow> adapter list \<Rightarrow> adapter list" where
  "addSingleVal adapterName attribute ruleName =
     add adapterName [case attribute of Some a \<Rightarrow> a | None \<Rightarrow> ''val'']
       (\<lambda>f i msg params opts.
          Inr (setValidationValues msg (case ruleName of Some r \<Rightarrow> r | None \<Rightarrow> adapterName)
                 (rule_get params (key_of attribute)) opts))"

text \<open>
  \<^verbatim>\<open>equalto\<close>: the first field of the form with the name of the other one; the selector finds it by
  name, the escaping only protects the name inside the selector. Without a value of \<^verbatim>\<open>other\<close> the call
  of \<^verbatim>\<open>indexOf\<close> throws.
\<close>

definition adapt_equalto :: "form \<Rightarrow> nat \<Rightarrow> string \<Rightarrow> rules \<Rightarrow> uopts \<Rightarrow> uopts result" where
  "adapt_equalto f i msg params opts =
     (case rule_get params ''other'' of
        PStr other \<Rightarrow>
          let fullOtherName = appendModelPrefix other (getModelPrefix (el_name (f ! i))) in
          Inr (setValidationValues msg ''equalTo''
            (case filter (\<lambda>j. el_input (f ! j) \<and> el_name (f ! j) = fullOtherName) [0 ..< length f] of
               j # _ \<Rightarrow> PElem j | [] \<Rightarrow> PUndef) opts)
      | _ \<Rightarrow> Inl (TypeError (''Cannot read properties of undefined (reading '' @ sq ''indexOf'' @ '')'')))"

definition adapt_required :: "form \<Rightarrow> nat \<Rightarrow> string \<Rightarrow> rules \<Rightarrow> uopts \<Rightarrow> uopts result" where
  "adapt_required f i msg params opts =
     (let e = f ! i in
      Inr (if toUpperCase (el_node e) \<noteq> ''INPUT'' \<or> toUpperCase (el_type e) \<noteq> ''CHECKBOX''
           then setValidationValues msg ''required'' (PBool True) opts else opts))"

text \<open>
  \<^verbatim>\<open>remote\<close>: the data are functions that read the fields when the request is made; the one put under
  the \<open>k\<close>-th name is \<open>PFun k\<close> and returns \<open>additional_value\<close> of that name.
\<close>

fun additional_data :: "string \<Rightarrow> nat \<Rightarrow> string list \<Rightarrow> rules \<Rightarrow> rules" where
  "additional_data pfx k [] acc = acc"
| "additional_data pfx k (n # ns) acc =
     additional_data pfx (Suc k) ns (obj_set (appendModelPrefix n pfx) (PFun k) acc)"

definition or_empty :: "fval \<Rightarrow> fval" where
  "or_empty v = (if v_truthy v then v else VStr [])"

definition first_value :: "form \<Rightarrow> nat list \<Rightarrow> fval" where
  "first_value f js = (case js of j # _ \<Rightarrow> el_val (f ! j) | [] \<Rightarrow> VUndef)"

definition additional_value :: "(nat \<Rightarrow> bool) \<Rightarrow> form \<Rightarrow> string \<Rightarrow> fval" where
  "additional_value hidden f paramName =
     (let field = filter (\<lambda>j. el_input (f ! j) \<and> el_name (f ! j) = paramName) [0 ..< length f];
          of_type = (\<lambda>t. list_ex (\<lambda>j. el_type (f ! j) = t) field);
          on = first_value f (filter (\<lambda>j. el_checked (f ! j)) field)
      in if of_type ''checkbox'' then
           (if v_truthy on then on else or_empty (first_value f (filter hidden field)))
         else if of_type ''radio'' then or_empty on
         else first_value f field)"

definition adapt_remote :: "form \<Rightarrow> nat \<Rightarrow> string \<Rightarrow> rules \<Rightarrow> uopts \<Rightarrow> uopts result" where
  "adapt_remote f i msg params opts =
     (let name = el_name (f ! i);
          type = rule_get params ''type''; fields = rule_get params ''additionalfields'';
          data = additional_data (getModelPrefix name) 0
                   (splitAndTrim (case fields of PStr t \<Rightarrow> if t \<noteq> [] then t else name | _ \<Rightarrow> name)) []
      in Inr (setValidationValues msg ''remote''
           (PObj [(''url'', rule_get params ''url''), (''type'', if p_truthy type then type else PStr ''GET''),
                  (''data'', PObj data)]) opts))"

definition adapt_password :: "form \<Rightarrow> nat \<Rightarrow> string \<Rightarrow> rules \<Rightarrow> uopts \<Rightarrow> uopts result" where
  "adapt_password f i msg params opts =
     (let put = (\<lambda>rule p o1. let v = rule_get params p in if p_truthy v then setValidationValues msg rule v o1 else o1)
      in Inr (put ''regex'' ''regex'' (put ''nonalphamin'' ''nonalphamin'' (put ''minlength'' ''min'' opts))))"

definition adapt_fileextensions :: "form \<Rightarrow> nat \<Rightarrow> string \<Rightarrow> rules \<Rightarrow> uopts \<Rightarrow> uopts result" where
  "adapt_fileextensions f i msg params opts =
     Inr (setValidationValues msg ''extension'' (rule_get params ''extensions'') opts)"

text \<open>The adapters in the order the script adds them; \<open>ext\<close> says that the method \<^verbatim>\<open>extension\<close> is loaded.\<close>

definition adapters :: "bool \<Rightarrow> adapter list" where
  "adapters ext =
     fold (\<lambda>g ads. g ads)
       ((if ext then [addSingleVal ''accept'' (Some ''mimtype'') None, addSingleVal ''extension'' (Some ''extension'') None]
         else [addSingleVal ''extension'' (Some ''extension'') (Some ''accept'')]) @
        [addSingleVal ''regex'' (Some ''pattern'') None,
         addBool ''creditcard'' None, addBool ''date'' None, addBool ''digits'' None,
         addBool ''email'' None, addBool ''number'' None, addBool ''url'' None,
         addMinMax ''length'' ''minlength'' (Some ''maxlength'') (Some ''rangelength'') None None,
         addMinMax ''range'' ''min'' (Some ''max'') (Some ''range'') None None,
         addMinMax ''minlength'' ''minlength'' None None None None,
         addMinMax ''maxlength'' ''minlength'' (Some ''maxlength'') None None None,
         add ''equalto'' [''other''] adapt_equalto,
         add ''required'' [] adapt_required,
         add ''remote'' [''url'', ''type'', ''additionalfields''] adapt_remote,
         add ''password'' [''min'', ''nonalphamin'', ''regex''] adapt_password,
         add ''fileextensions'' [''extensions''] adapt_fileextensions]) []"

section \<open>Parsing a form\<close>

definition attr :: "element \<Rightarrow> string \<Rightarrow> pval" where
  "attr e k = (case obj_get (el_attrs e) k of Some v \<Rightarrow> PStr v | None \<Rightarrow> PUndef)"

definition apply_adapter :: "form \<Rightarrow> nat \<Rightarrow> adapter \<Rightarrow> uopts \<Rightarrow> uopts result" where
  "apply_adapter f i ad opts =
     (let e = f ! i; pfx = ''data-val-'' @ ad_name ad in
      case obj_get (el_attrs e) pfx of
        None \<Rightarrow> Inr opts
      | Some message \<Rightarrow> ad_adapt ad f i message (map (\<lambda>p. (p, attr e (pfx @ ''-'' @ p))) (ad_params ad)) opts)"

fun apply_adapters :: "form \<Rightarrow> nat \<Rightarrow> adapter list \<Rightarrow> uopts \<Rightarrow> uopts result" where
  "apply_adapters f i [] opts = Inr opts"
| "apply_adapters f i (ad # ads) opts = rbind (apply_adapter f i ad opts) (apply_adapters f i ads)"

text \<open>The rules and messages of a field replace those of an earlier field of the same name.\<close>

definition parseElement :: "adapter list \<Rightarrow> form \<Rightarrow> nat \<Rightarrow> uopts \<Rightarrow> uopts result" where
  "parseElement ads f i opts =
     rbind (apply_adapters f i ads ([], [])) (\<lambda>(rules, msgs).
       Inr (obj_set (el_name (f ! i)) (PObj (obj_set ''__dummy__'' (PBool True) rules)) (fst opts),
            obj_set (el_name (f ! i)) (PObj msgs) (snd opts)))"

fun parse_fields :: "adapter list \<Rightarrow> form \<Rightarrow> nat list \<Rightarrow> uopts \<Rightarrow> uopts result" where
  "parse_fields ads f [] opts = Inr opts"
| "parse_fields ads f (i # is) opts = rbind (parseElement ads f i opts) (parse_fields ads f is)"

definition unobtrusive_parse :: "adapter list \<Rightarrow> form \<Rightarrow> uopts result" where
  "unobtrusive_parse ads f =
     parse_fields ads f (filter (\<lambda>i. obj_get (el_attrs (f ! i)) ''data-val'' = Some ''true'') [0 ..< length f]) ([], [])"

definition unobtrusive_start :: "adapter list \<Rightarrow> form \<Rightarrow> vstate result" where
  "unobtrusive_start ads f = rbind (unobtrusive_parse ads f) (\<lambda>(rules, msgs). Inr (init rules msgs []))"

section \<open>The methods it adds\<close>

definition dummy_method :: "page \<Rightarrow> form \<Rightarrow> fval \<Rightarrow> nat \<Rightarrow> pval \<Rightarrow> mres result" where
  "dummy_method pg f value i params = Inr (Verdict True)"

text \<open>\<^verbatim>\<open>new RegExp(params).exec(value)\<close>: the first match has to be the whole value.\<close>

definition regex_whole :: "rx \<Rightarrow> string \<Rightarrow> bool" where
  "regex_whole r t = (case rx_search r False [] t of Some (a, b) \<Rightarrow> snd a = t \<and> snd b = [] | None \<Rightarrow> False)"

definition regex_method :: "page \<Rightarrow> form \<Rightarrow> fval \<Rightarrow> nat \<Rightarrow> pval \<Rightarrow> mres result" where
  "regex_method pg f value i params =
     rbind (optional pg f i) (\<lambda>opt.
       if opt then Inr (Verdict True)
       else rbind (new_RegExp (case params of PUndef \<Rightarrow> ''(?:)'' | p \<Rightarrow> p_text p)) (\<lambda>r.
              Inr (Verdict (regex_whole r (v_text value)))))"

definition nonalphamin :: "page \<Rightarrow> form \<Rightarrow> fval \<Rightarrow> nat \<Rightarrow> pval \<Rightarrow> mres result" where
  "nonalphamin pg f value i param =
     (if p_truthy param then
        (case value of
           VStr t \<Rightarrow>
             let match = re_matches False (bs ''@W'') t in
             if match = [] then Inr (Verdict False)
             else rbind (js_le param (PNum (num_of_nat (length match)))) (\<lambda>b. Inr (Verdict b))
         | VArr xs \<Rightarrow> Inl (TypeError ''value.match is not a function'')
         | VUndef \<Rightarrow> Inl (TypeError (''Cannot read properties of undefined (reading '' @ sq ''match'' @ '')''))
         | VNull \<Rightarrow> Inl (TypeError (''Cannot read properties of null (reading '' @ sq ''match'' @ '')'')))
      else Inr (Verdict False))"

definition unobtrusive_methods :: "(string \<times> vmethod) list \<times> config \<Rightarrow> (string \<times> vmethod) list \<times> config" where
  "unobtrusive_methods =
     addMethod ''nonalphamin'' (pure_method nonalphamin) 3 None \<circ>
     addMethod ''regex'' (pure_method regex_method) 3 None \<circ>
     addMethod ''__dummy__'' (pure_method dummy_method) 3 None"

text \<open>The table of a page that loads both scripts is one of methods that leave the requests alone.\<close>

lemma library_obj_set:
  "library_method fn \<Longrightarrow> list_all (\<lambda>(name, fn). library_method fn) ps \<Longrightarrow>
   list_all (\<lambda>(name, fn). library_method fn) (obj_set k fn ps)"
  by (induction k fn ps rule: obj_set.induct) auto

interpretation uno: method_table_ok "fst (unobtrusive_methods (methods, cf))" for cf
  by unfold_locales
     (simp add: unobtrusive_methods_def addMethod_def Let_def library_obj_set pureI methods_library)

lemma unobtrusive_runs_requests:
  assumes "vruns (fst (unobtrusive_methods (methods, cf))) cf' (init rules msgs groups) evs s"
    and "\<forall>ev \<in> set evs. event_named names ev"
  shows "requests_inv names s"
  using assms by (rule uno.run_requests_inv)

section \<open>The rules that come out of the attributes\<close>

text \<open>An adapter that only writes the rules named in \<open>W\<close>.\<close>

definition writes :: "adapter \<Rightarrow> string list \<Rightarrow> bool" where
  "writes ad W \<longleftrightarrow> (\<forall>f i msg ps opts opts' k. ad_adapt ad f i msg ps opts = Inr opts' \<longrightarrow> k \<notin> set W \<longrightarrow>
     obj_get (fst opts') k = obj_get (fst opts) k)"

definition adapter_of :: "(adapter list \<Rightarrow> adapter list) \<Rightarrow> adapter" where
  "adapter_of g = hd (g [])"

definition adapter_table :: "bool \<Rightarrow> (adapter \<times> string list) list" where
  "adapter_table ext =
     (if ext then [(adapter_of (addSingleVal ''accept'' (Some ''mimtype'') None), [''accept'']),
                   (adapter_of (addSingleVal ''extension'' (Some ''extension'') None), [''extension''])]
      else [(adapter_of (addSingleVal ''extension'' (Some ''extension'') (Some ''accept'')), [''accept''])]) @
     [(adapter_of (addSingleVal ''regex'' (Some ''pattern'') None), [''regex'']),
      (adapter_of (addBool ''creditcard'' None), [''creditcard'']),
      (adapter_of (addBool ''date'' None), [''date'']),
      (adapter_of (addBool ''digits'' None), [''digits'']),
      (adapter_of (addBool ''email'' None), [''email'']),
      (adapter_of (addBool ''number'' None), [''number'']),
      (adapter_of (addBool ''url'' None), [''url'']),
      (adapter_of (addMinMax ''length'' ''minlength'' (Some ''maxlength'') (Some ''rangelength'') None None),
         [''minlength'', ''maxlength'', ''rangelength'']),
      (adapter_of (addMinMax ''range'' ''min'' (Some ''max'') (Some ''range'') None None), [''min'', ''max'', ''range'']),
      (adapter_of (addMinMax ''minlength'' ''minlength'' None None None None), [''minlength'', ''undefined'']),
      (adapter_of (addMinMax ''maxlength'' ''minlength'' (Some ''maxlength'') None None None),
         [''minlength'', ''maxlength'', ''undefined'']),
      (adapter_of (add ''equalto'' [''other''] adapt_equalto), [''equalTo'']),
      (adapter_of (add ''required'' [] adapt_required), [''required'']),
      (adapter_of (add ''remote'' [''url'', ''type'', ''additionalfields''] adapt_remote), [''remote'']),
      (adapter_of (add ''password'' [''min'', ''nonalphamin'', ''regex''] adapt_password),
         [''minlength'', ''nonalphamin'', ''regex'']),
      (adapter_of (add ''fileextensions'' [''extensions''] adapt_fileextensions), [''extension''])]"

lemmas adapter_defs = adapter_of_def add_def addBool_def addMinMax_def addSingleVal_def

lemma adapters_table: "adapters ext = map fst (adapter_table ext)"
  by (simp add: adapters_def adapter_table_def adapter_defs)

lemma get_setValidationValues [simp]:
  "obj_get (fst (setValidationValues msg r v opts)) k = (if k = r then Some v else obj_get (fst opts) k)"
  by (simp add: setValidationValues_def)

lemma writes_addSingleVal: "writes (adapter_of (addSingleVal a x r)) [case r of Some k \<Rightarrow> k | None \<Rightarrow> a]"
  by (simp add: writes_def adapter_defs)

lemma writes_addBool: "writes (adapter_of (addBool a r)) [case r of Some k \<Rightarrow> k | None \<Rightarrow> a]"
  by (simp add: writes_def adapter_defs)

lemma writes_addMinMax:
  "set W = {lo, key_of hi, key_of both} \<Longrightarrow> writes (adapter_of (addMinMax a lo hi both x y)) W"
  by (auto simp: writes_def adapter_defs Let_def)

lemma writes_functions:
  "writes (adapter_of (add a ps adapt_equalto)) [''equalTo'']"
  "writes (adapter_of (add a ps adapt_required)) [''required'']"
  "writes (adapter_of (add a ps adapt_remote)) [''remote'']"
  "writes (adapter_of (add a ps adapt_password)) [''minlength'', ''nonalphamin'', ''regex'']"
  "writes (adapter_of (add a ps adapt_fileextensions)) [''extension'']"
  by (auto simp: writes_def adapter_of_def add_def adapt_equalto_def adapt_required_def adapt_remote_def
      adapt_password_def adapt_fileextensions_def setValidationValues_def Let_def split: pval.splits if_splits)

lemma table_writes: "list_all (\<lambda>(ad, W). writes ad W) (adapter_table ext)"
proof -
  note single = writes_addSingleVal [where r = None, simplified] writes_addSingleVal [where r = "Some k" for k, simplified]
    writes_addBool [where r = None, simplified]
  show ?thesis
    unfolding adapter_table_def
    by (cases ext) (simp_all add: single writes_functions writes_addMinMax key_of_def insert_commute)
qed

lemma apply_unwritten:
  assumes "writes ad W" and "k \<notin> set W" and "apply_adapter f i ad opts = Inr opts'"
  shows "obj_get (fst opts') k = obj_get (fst opts) k"
proof (cases "obj_get (el_attrs (f ! i)) (''data-val-'' @ ad_name ad)")
  case None
  then show ?thesis using assms(3) by (simp add: apply_adapter_def)
next
  case (Some msg)
  then have "\<exists>ps. ad_adapt ad f i msg ps opts = Inr opts'"
    using assms(3) unfolding apply_adapter_def Let_def by auto
  then show ?thesis using assms(1,2) unfolding writes_def by blast
qed

lemma unwritten:
  assumes "list_all (\<lambda>(ad, W). writes ad W) tbl" and "filter (\<lambda>(ad, W). k \<in> set W) tbl = []"
    and "apply_adapters f i (map fst tbl) opts0 = Inr opts"
  shows "obj_get (fst opts) k = obj_get (fst opts0) k"
  using assms
proof (induction tbl arbitrary: opts0)
  case (Cons x tbl)
  obtain ad W where x: "x = (ad, W)" by (cases x)
  obtain o1 where o1: "apply_adapter f i ad opts0 = Inr o1" and rest: "apply_adapters f i (map fst tbl) o1 = Inr opts"
    using Cons.prems(3) x by (auto simp: rbind_Inr_iff)
  have "k \<notin> set W" "writes ad W" using Cons.prems(1,2) x by (auto split: if_splits)
  then have "obj_get (fst o1) k = obj_get (fst opts0) k" using apply_unwritten o1 by blast
  then show ?case using Cons.IH [OF _ _ rest] Cons.prems(1,2) by (auto split: if_splits)
qed simp

text \<open>The rule that a single adapter writes is the one this adapter leaves.\<close>

lemma unique_writer:
  assumes "list_all (\<lambda>(ad, W). writes ad W) tbl" and "filter (\<lambda>(ad, W). k \<in> set W) tbl = [(ad, W)]"
    and "apply_adapters f i (map fst tbl) opts0 = Inr opts"
  shows "\<exists>o1 o2. obj_get (fst o1) k = obj_get (fst opts0) k \<and> apply_adapter f i ad o1 = Inr o2 \<and>
    obj_get (fst opts) k = obj_get (fst o2) k"
  using assms
proof (induction tbl arbitrary: opts0)
  case (Cons x tbl)
  obtain ad' W' where x: "x = (ad', W')" by (cases x)
  obtain o1 where o1: "apply_adapter f i ad' opts0 = Inr o1" and rest: "apply_adapters f i (map fst tbl) o1 = Inr opts"
    using Cons.prems(3) x by (auto simp: rbind_Inr_iff)
  show ?case
  proof (cases "k \<in> set W'")
    case True
    then have "ad = ad'" and none: "filter (\<lambda>(ad, W). k \<in> set W) tbl = []" using Cons.prems(2) x by auto
    moreover have "obj_get (fst opts) k = obj_get (fst o1) k"
      using unwritten [OF _ none rest] Cons.prems(1) by simp
    ultimately show ?thesis using o1 by blast
  next
    case False
    then have "filter (\<lambda>(ad, W). k \<in> set W) tbl = [(ad, W)]" using Cons.prems(2) x by auto
    moreover have "obj_get (fst o1) k = obj_get (fst opts0) k"
      using apply_unwritten [OF _ False o1] Cons.prems(1) x by simp
    ultimately show ?thesis using Cons.IH [OF _ _ rest] Cons.prems(1) by auto
  qed
qed simp

text \<open>The attribute \<^verbatim>\<open>data-val-k\<close> of a field.\<close>

definition has_val :: "element \<Rightarrow> string \<Rightarrow> bool" where
  "has_val e k \<longleftrightarrow> obj_get (el_attrs e) (''data-val-'' @ k) \<noteq> None"

definition val_message :: "element \<Rightarrow> string \<Rightarrow> string" where
  "val_message e k = the (obj_get (el_attrs e) (''data-val-'' @ k))"

lemma apply_adapter_iff:
  "apply_adapter f i ad opts =
     (if has_val (f ! i) (ad_name ad)
      then ad_adapt ad f i (val_message (f ! i) (ad_name ad))
             (map (\<lambda>p. (p, attr (f ! i) (''data-val-'' @ ad_name ad @ ''-'' @ p))) (ad_params ad)) opts
      else Inr opts)"
  unfolding apply_adapter_def has_val_def val_message_def Let_def by (auto split: option.split)

lemma table_rule:
  assumes "apply_adapters f i (adapters ext) ([], []) = Inr opts"
    and "filter (\<lambda>(ad, W). k \<in> set W) (adapter_table ext) = [(ad, W)]"
  shows "\<exists>o1 o2. obj_get (fst o1) k = None \<and> apply_adapter f i ad o1 = Inr o2 \<and>
    rule_get (fst opts) k = rule_get (fst o2) k"
proof -
  obtain o1 o2 where "obj_get (fst o1) k = None" "apply_adapter f i ad o1 = Inr o2"
    "obj_get (fst opts) k = obj_get (fst o2) k"
    using unique_writer [OF table_writes assms(2) assms(1) [unfolded adapters_table]] by (metis fst_conv obj_get.simps(1))
  then show ?thesis by (intro exI [of _ o1] exI [of _ o2]) (simp add: rule_get_def)
qed

lemma bool_rule:
  assumes "apply_adapters f i (adapters ext) ([], []) = Inr opts"
    and "filter (\<lambda>(ad, W). k \<in> set W) (adapter_table ext) = [(adapter_of (addBool k None), [k])]"
  shows "rule_get (fst opts) k = (if has_val (f ! i) k then PBool True else PUndef)"
proof -
  obtain o1 o2 where "obj_get (fst o1) k = None" "apply_adapter f i (adapter_of (addBool k None)) o1 = Inr o2"
    "rule_get (fst opts) k = rule_get (fst o2) k"
    using table_rule [OF assms] by blast
  then show ?thesis by (auto simp: apply_adapter_iff adapter_defs rule_get_def split: if_splits)
qed

lemma required_rule:
  assumes "apply_adapters f i (adapters ext) ([], []) = Inr opts"
  shows "rule_get (fst opts) ''required'' =
    (if has_val (f ! i) ''required'' \<and>
        \<not> (toUpperCase (el_node (f ! i)) = ''INPUT'' \<and> toUpperCase (el_type (f ! i)) = ''CHECKBOX'')
     then PBool True else PUndef)"
proof -
  have "filter (\<lambda>(ad, W). ''required'' \<in> set W) (adapter_table ext) =
      [(adapter_of (add ''required'' [] adapt_required), [''required''])]"
    by (simp add: adapter_table_def)
  from table_rule [OF assms this] obtain o1 o2 where "obj_get (fst o1) ''required'' = None"
    "apply_adapter f i (adapter_of (add ''required'' [] adapt_required)) o1 = Inr o2"
    "rule_get (fst opts) ''required'' = rule_get (fst o2) ''required''"
    by blast
  then show ?thesis
    by (auto simp: apply_adapter_iff adapter_defs adapt_required_def rule_get_def Let_def split: if_splits)
qed

lemma range_rules:
  assumes "apply_adapters f i (adapters ext) ([], []) = Inr opts"
  defines "lo \<equiv> attr (f ! i) ''data-val-range-min''" and "hi \<equiv> attr (f ! i) ''data-val-range-max''"
  shows "rule_get (fst opts) ''range'' =
      (if has_val (f ! i) ''range'' \<and> p_truthy lo \<and> p_truthy hi then PArr [lo, hi] else PUndef)"
    and "rule_get (fst opts) ''min'' =
      (if has_val (f ! i) ''range'' \<and> p_truthy lo \<and> \<not> p_truthy hi then lo else PUndef)"
    and "rule_get (fst opts) ''max'' =
      (if has_val (f ! i) ''range'' \<and> \<not> p_truthy lo \<and> p_truthy hi then hi else PUndef)"
proof -
  let ?ad = "adapter_of (addMinMax ''range'' ''min'' (Some ''max'') (Some ''range'') None None)"
  have t: "filter (\<lambda>(ad, W). k \<in> set W) (adapter_table ext) = [(?ad, [''min'', ''max'', ''range''])]"
    if "k \<in> {''range'', ''min'', ''max''}" for k
    using that by (elim insertE emptyE; hypsubst) (simp_all add: adapter_table_def)
  have ap: "apply_adapter f i ?ad o1 = Inr o2 \<longleftrightarrow>
      o2 = (if \<not> has_val (f ! i) ''range'' then o1
            else let msg = val_message (f ! i) ''range'' in
              if p_truthy lo \<and> p_truthy hi then setValidationValues msg ''range'' (PArr [lo, hi]) o1
              else if p_truthy lo then setValidationValues msg ''min'' lo o1
              else if p_truthy hi then setValidationValues msg ''max'' hi o1 else o1)" for o1 o2
    by (auto simp: apply_adapter_iff adapter_defs key_of_def lo_def hi_def rule_get_def Let_def)
  show "rule_get (fst opts) ''range'' =
      (if has_val (f ! i) ''range'' \<and> p_truthy lo \<and> p_truthy hi then PArr [lo, hi] else PUndef)"
    using table_rule [OF assms(1) t, of "''range''"] by (auto simp: ap rule_get_def Let_def)
  show "rule_get (fst opts) ''min'' =
      (if has_val (f ! i) ''range'' \<and> p_truthy lo \<and> \<not> p_truthy hi then lo else PUndef)"
    using table_rule [OF assms(1) t, of "''min''"] by (auto simp: ap rule_get_def Let_def)
  show "rule_get (fst opts) ''max'' =
      (if has_val (f ! i) ''range'' \<and> \<not> p_truthy lo \<and> p_truthy hi then hi else PUndef)"
    using table_rule [OF assms(1) t, of "''max''"] by (auto simp: ap rule_get_def Let_def)
qed

lemma bool_rules:
  assumes "apply_adapters f i (adapters ext) ([], []) = Inr opts"
    and "k \<in> {''creditcard'', ''date'', ''digits'', ''email'', ''number'', ''url''}"
  shows "rule_get (fst opts) k = (if has_val (f ! i) k then PBool True else PUndef)"
proof -
  have "filter (\<lambda>(ad, W). k \<in> set W) (adapter_table ext) = [(adapter_of (addBool k None), [k])]"
    using assms(2) by (elim insertE emptyE; hypsubst) (simp_all add: adapter_table_def)
  with assms(1) show ?thesis by (rule bool_rule)
qed

text \<open>A field that must be at least five, as the server writes it, with the value ten.\<close>

definition sample_min :: element where
  "sample_min = sample_user\<lparr>el_val := VStr ''10'',
     el_attrs := [(''data-val'', ''true''), (''data-val-range'', ''at least 5''), (''data-val-range-min'', ''5'')]\<rparr>"

definition sample_parsed :: uopts where
  "sample_parsed =
     ([(''user'', PObj [(''min'', PStr ''5''), (''__dummy__'', PBool True)])],
      [(''user'', PObj [(''min'', PStr ''at least 5'')])])"

lemma sample_parse: "parseElement (adapters False) [sample_min] 0 ([], []) = Inr sample_parsed"
  by code_simp

definition sample_unobtrusive :: "(string \<times> vmethod) list \<times> config" where
  "sample_unobtrusive = unobtrusive_methods (methods, sample_config)"



section \<open>The method regex\<close>

lemma rx_search_run: "rx_search r i l s = Some (a, b) \<Longrightarrow> b \<in> set (rx_run r i a)"
  by (induction r i l s rule: rx_search.induct) (auto split: list.splits)

lemma regex_whole_lang: "rx_plain r \<Longrightarrow> regex_whole r t \<Longrightarrow> t \<in> rx_lang False r"
  using rx_run_lang [of r False]
  by (fastforce simp: regex_whole_def runs_lang_def moves_def split: option.splits dest!: rx_search_run)

text \<open>
  C38: A value that \<^verbatim>\<open>regex\<close> accepts is one that the whole pattern matches, as \<^verbatim>\<open>pattern\<close> tests it; the
  converse fails, since \<^verbatim>\<open>regex\<close> only looks at the first match the engine finds: with the pattern
  \<^verbatim>\<open>a|ab\<close> it refuses \<^verbatim>\<open>ab\<close>.
\<close>

theorem regex_accepts_less_than_pattern:
  assumes "optional pg f i = Inr False"
  shows "(\<forall>t r v. regex_parse t = Some r \<longrightarrow> rx_plain r \<longrightarrow>
      regex_method pg f (VStr v) i (PStr t) = Inr (Verdict True) \<longrightarrow> pattern False v (Inl t) = Inr (Verdict True)) \<and>
    regex_method pg f (VStr ''ab'') i (PStr ''a|ab'') = Inr (Verdict False) \<and>
    pattern False ''ab'' (Inl ''a|ab'') = Inr (Verdict True)"
proof (intro conjI allI impI)
  fix t r v assume r: "regex_parse t = Some r" "rx_plain r"
    and "regex_method pg f (VStr v) i (PStr t) = Inr (Verdict True)"
  then have "regex_whole r v" by (simp add: regex_method_def assms new_RegExp_def)
  then have "v \<in> rx_lang False r" by (rule regex_whole_lang [OF r(2)])
  then show "pattern False v (Inl t) = Inr (Verdict True)" using pattern_plain [OF r] by simp
next
  have "rbind (new_RegExp ''a|ab'') (\<lambda>r. Inr (Verdict (regex_whole r ''ab''))) = Inr (Verdict False)" by code_simp
  then show "regex_method pg f (VStr ''ab'') i (PStr ''a|ab'') = Inr (Verdict False)"
    unfolding regex_method_def assms by simp
  show "pattern False ''ab'' (Inl ''a|ab'') = Inr (Verdict True)" by code_simp
qed

theorem regex_accepts_less_than_pattern_witness:
  "regex_method sample_page [sample_user] (VStr ''ab'') 0 (PStr ''a|ab'') = Inr (Verdict False) \<and>
   regex_method sample_page [sample_user] (VStr ''ab'') 0 (PStr ''ab|a'') = Inr (Verdict True) \<and>
   pattern False ''ab'' (Inl ''ab|a'') = Inr (Verdict True)"
proof -
  have opt: "optional sample_page [sample_user] 0 = Inr False" by code_simp
  have p: "regex_parse ''ab|a'' = Some (Alt (Seq (Cls False [(97, 97)]) (Cls False [(98, 98)])) (Cls False [(97, 97)]))"
    by code_simp
  have acc: "regex_method sample_page [sample_user] (VStr ''ab'') 0 (PStr ''ab|a'') = Inr (Verdict True)" by code_simp
  note less = regex_accepts_less_than_pattern [OF opt]
  from less p acc have "pattern False ''ab'' (Inl ''ab|a'') = Inr (Verdict True)" by simp
  with less acc show ?thesis by blast
qed

end
