(* ===== verification/Spec2Isabelle.thy ===== *)
theory Spec2Isabelle
  imports Sr_HubProperties Sr_HttpLifecycle Sr_Builder Dev_Console Proxy_Gui Pac_Scripts
    Jv_Checksums Jv_Calendar Jv_Unobtrusive
begin

text \<open>
  \<^bold>\<open>The JavaScript of the decoding proxy\<close>

  The repository is a set of HTTP, TCP and SOCKS proxies in C# with two web front ends. The front ends talk
  to their servers over SignalR. This development models the JavaScript that runs in the browser:

  \<^item> \<^verbatim>\<open>src/DevConsole.Server/wwwroot/js/console.js\<close>, the page of the developer console;
  \<^item> \<^verbatim>\<open>src/ProxyServerWebGUI/wwwroot/js/site.js\<close>, the page with the table of proxied connections;
  \<^item> \<^verbatim>\<open>src/DevConsole.Server/wwwroot/lib/signalr/signalr.js\<close>, the SignalR client both pages are built on, whole;
  \<^item> \<^verbatim>\<open>src/Test/pac/*.js\<close>, the proxy auto-configuration scripts;
  \<^item> \<^verbatim>\<open>src/DevConsole.Server/wwwroot/lib/jquery-validation/dist\<close>, the form validation the pages come with:
    \<^verbatim>\<open>jquery.validate.js\<close> and \<^verbatim>\<open>additional-methods.js\<close>, and \<^verbatim>\<open>jquery.validate.unobtrusive.js\<close>, which reads the rules of
    a form from attributes the server writes.

  \<^bold>\<open>How the parts work together.\<close> A page builds a HubConnection over an HttpConnection
  (\<open>Sr_Builder\<close>) and registers handlers. The HttpConnection negotiates with the server, picks a transport and
  passes data up and down; what is sent goes through a TransportSendQueue. The HubConnection shakes hands, turns
  calls into JSON messages separated by a record character, matches completions with the calls they answer, runs
  the page's handlers, keeps the connection alive and reconnects. Asynchronous code is cut at each \<^verbatim>\<open>await\<close>: a call is
  an entry of the state at the \<^verbatim>\<open>await\<close> where it is suspended, a promise is a number, and one step of a
  relation is one run of a callback to completion. What the network, the timers and the application's code
  do are labels or parameters, so that the theorems hold for all of it. \<open>runs\<close> is a sequence of steps.

  Form validation: the unobtrusive script turns attributes into rules and messages and creates a validator. The
  validator collects the rules of each field from classes, attributes, data and settings, runs the methods they
  name in order, reports the first that fails, asks the server where a rule is \<^verbatim>\<open>remote\<close>, and decides whether the form
  is sent. Its code runs to completion in each event: a method is a computation over the state that returns or throws.

  \<^bold>\<open>Theories\<close>, with the parts of the source they model:

  \<^descr>[\<open>Js_Prelude\<close>] values, objects in property order, thrown values, strings; runs of a step relation.
  \<^descr>[\<open>Js_Json\<close>] \<^verbatim>\<open>JSON.stringify\<close> and \<^verbatim>\<open>JSON.parse\<close>: printing then parsing gives the value back. The parser has fuel, the
    length of the text is enough (\<open>JSON_parse_not_out_of_fuel\<close>).
  \<^descr>[\<open>Sr_Utils\<close>] errors, requests, loggers, argument checks, platform, user agent.
  \<^descr>[\<open>Sr_HttpClients\<close>] the fetch, XMLHttpRequest, default and access token clients. \<open>ok_http_client\<close>: only a 2xx answer fulfils a request.
  \<^descr>[\<open>Sr_Protocol\<close>] TextMessageFormat, HandshakeProtocol, JsonHubProtocol: \<open>framing\<close> and \<open>hub_protocol\<close> are their contracts.
  \<^descr>[\<open>Sr_SendQueue\<close>] TransportSendQueue and PromiseSource; \<open>batching_queue\<close>: what goes out is what was put in, in order, in batches.
  \<^descr>[\<open>Sr_HubMessages\<close>] messages, streaming arguments, handler table, replies to client methods, Subject, retry policy
    (\<open>handler_table\<close>, \<open>retry_policy\<close>).
  \<^descr>[\<open>Sr_HubConnection\<close>, \<open>Sr_HubInvariants\<close>, \<open>Sr_HubProperties\<close>] HubConnection as a step relation \<open>hub_step\<close>, its invariant for every
    application (\<open>application\<close>), and its properties.
  \<^descr>[\<open>Sr_Transports\<close>] the three transports and AbortController; \<open>push_transport\<close>: nothing is received after the close, \<open>once_transport\<close>: the
    close is told once.
  \<^descr>[\<open>Sr_Negotiation\<close>, \<open>Sr_HttpConnection\<close>, \<open>Sr_HttpLifecycle\<close>] HttpConnection: urls, negotiation, choice of a transport; \<open>ht_step\<close>; its
    invariant, the end of redirects (at most a hundred negotiations, the bound of the code), and a stop that hangs.
  \<^descr>[\<open>Sr_Builder\<close>] HubConnectionBuilder, the webpack wrapper, the polyfills.
  \<^descr>[\<open>Dev_Console\<close>, \<open>Proxy_Gui\<close>, \<open>Pac_Scripts\<close>] the pages and the PAC scripts.
  \<^descr>[\<open>Js_Regex\<close>] regular expressions as JavaScript runs them: reading a pattern, the backtracking matcher, search, replacement;
    the matcher of an expression without assertions finds exactly its language (\<open>rx_run_lang\<close>). The scan over all matches has
    the length of the text plus one as fuel: every match or step forward consumes a character.
  \<^descr>[\<open>Jv_Patterns\<close>, \<open>Jv_Checksums\<close>, \<open>Jv_Calendar\<close>] additional-methods.js: the checks by patterns, by check digits (\<open>check_digits\<close>: one
    mistyped digit is always noticed) and of Italian dates, which are compared with the Gregorian calendar.
  \<^descr>[\<open>Jv_Core\<close>, \<open>Jv_Rules\<close>] jquery.validate.js: values of fields, the methods of the library; the rules of a field, their order
    and the types of their parameters.
  \<^descr>[\<open>Jv_Validator\<close>] the validator object and its events \<open>vstep\<close>.
  \<^descr>[\<open>Jv_Requests\<close>] runs of the validator: \<open>request_frame\<close> and \<open>validator_frame\<close> say what checking leaves alone, for every table of
    methods a page builds (\<open>method_table_ok\<close>); the count of pending requests; the form that stays blocked after a failed request.
  \<^descr>[\<open>Jv_FormCheck\<close>] the validator computes a reference without state: the first failing rule of each field.
  \<^descr>[\<open>Jv_Unobtrusive\<close>] the adapters and the rules they make of the attributes; the methods \<^verbatim>\<open>regex\<close> and \<^verbatim>\<open>nonalphamin\<close>.

  This theory holds what spans the pages and the hub: the handlers a page registers are the ones the hub finds.

  \<^bold>\<open>Reading the model.\<close> Numbers are integers in the SignalR client (the code computes with no fractions) and decimals in the
  validation; strings are code units below 256;
  a value outside that, or a use of a value the model does not follow, is the error \<open>OutsideModel\<close>, never a made-up
  result. \<open>notify\<close> of a Subject and the streaming loop have fuel or a measure; their lemmas show it is enough. A transport's
  owner that calls \<^verbatim>\<open>stop\<close> from inside \<^verbatim>\<open>onreceive\<close> is modelled as a step right after it.

  \<^bold>\<open>Not modelled.\<close> The C# projects (no JavaScript; the hubs' messages are inputs here). The vendored bootstrap and jQuery
  scripts, which work on the document of the browser for the most part. Of the form validation: the labels in the document
  (they are effects in a log or left out), \<^verbatim>\<open>destroy\<close>, and the methods \<^verbatim>\<open>require_from_group\<close> and \<^verbatim>\<open>skip_or_fill_minimum\<close>, which
  work with shallow copies of the validator kept in the data of the fields. What a selector of the page finds, what its
  functions return, the date texts of the engine and \<^verbatim>\<open>$.param\<close> are parameters. compare_window.js is not a valid script. The text of
  an error's stack and of a function, and how a browser renders a document, are parameters.
\<close>

section \<open>The methods of the pages in the hub's table\<close>

text \<open>The calls \<^verbatim>\<open>connection.on(name, handler)\<close> of a page, with the handlers numbered in order.\<close>

fun register :: "string list \<Rightarrow> nat \<Rightarrow> method_table \<Rightarrow> method_table" where
  "register [] k tbl = tbl"
| "register (n # ns) k tbl = register ns (Suc k) (after (hub_on n (Some k) tbl) tbl)"

lemma hub_on_fresh:
  "usable_name n \<Longrightarrow> obj_get tbl (toLowerCase n) = None \<Longrightarrow> hub_on n (Some k) tbl = Inr (obj_set (toLowerCase n) [k] tbl)"
  by (auto simp: hub_on_def usable_name_def Let_def)

lemma register_get:
  assumes "list_all usable_name ns" "distinct (map toLowerCase ns)" "\<forall>n \<in> set ns. obj_get tbl (toLowerCase n) = None"
  shows "(\<forall>i < length ns. obj_get (register ns k tbl) (toLowerCase (ns ! i)) = Some [k + i]) \<and>
    (\<forall>x. x \<notin> toLowerCase ` set ns \<longrightarrow> obj_get (register ns k tbl) x = obj_get tbl x)"
  using assms
proof (induction ns arbitrary: k tbl)
  case (Cons n ns)
  let ?t = "obj_set (toLowerCase n) [k] tbl"
  have r: "register (n # ns) k tbl = register ns (Suc k) ?t" using Cons.prems hub_on_fresh [of n tbl k] by simp
  have "\<forall>m \<in> set ns. obj_get ?t (toLowerCase m) = None" using Cons.prems by (auto simp: image_iff)
  then have i: "\<forall>i < length ns. obj_get (register ns (Suc k) ?t) (toLowerCase (ns ! i)) = Some [Suc k + i]"
    "\<forall>x. x \<notin> toLowerCase ` set ns \<longrightarrow> obj_get (register ns (Suc k) ?t) x = obj_get ?t x"
    using Cons.IH [of ?t "Suc k"] Cons.prems by auto
  have "obj_get (register ns (Suc k) ?t) (toLowerCase n) = Some [k]" using i(2) Cons.prems by auto
  then show ?case unfolding r using i by (auto simp: nth_Cons split: nat.split)
qed simp

definition dispatches :: "string list \<Rightarrow> bool" where
  "dispatches ns \<longleftrightarrow>
     (\<forall>t. (\<forall>i < length ns. toLowerCase t = toLowerCase (ns ! i) \<longrightarrow> handlers_of (register ns 0 []) t = [i]) \<and>
          (toLowerCase t \<notin> toLowerCase ` set ns \<longrightarrow> handlers_of (register ns 0 []) t = []))"

lemma dispatchesI: "list_all usable_name ns \<Longrightarrow> distinct (map toLowerCase ns) \<Longrightarrow> dispatches ns"
  using register_get [of ns "[]" 0] by (auto simp: dispatches_def handlers_of_def)


end
